(* ===== verification/Prelude.thy ===== *)
theory Prelude
  imports Main "HOL-Library.Word" "HOL-Library.Code_Target_Nat"
begin

text \<open>
  The vocabulary every component of the development shares: the machine integers of the Rust
  sources, results, the fixed-width byte encodings of the standard library
  (\<^verbatim>\<open>to_be_bytes\<close>, \<^verbatim>\<open>from_be_bytes\<close>, \<^verbatim>\<open>to_le_bytes\<close>, \<^verbatim>\<open>from_le_bytes\<close>), and
  \<^verbatim>\<open>slice::chunks\<close>, with the laws the component proofs rest on.
\<close>

unbundle bit_operations_syntax

section \<open>Names of the development\<close>

text \<open>
  \<^item> \<open>wire\<close>: what a decoder returns on the output of its encoder, oriented for rewriting;
  \<^item> \<open>wire_len\<close>: lengths of encodings;
  \<^item> \<open>branch\<close>: the case splits and unfoldings that open a fallible definition.
\<close>

named_theorems wire \<open>decoders on the output of their encoders\<close>
named_theorems wire_len \<open>lengths of encodings\<close>
named_theorems branch \<open>opening of results and flags\<close>

section \<open>Machine integers\<close>

text \<open>
  \<^verbatim>\<open>u8\<close>, \<^verbatim>\<open>u16\<close>, \<^verbatim>\<open>u32\<close> and \<^verbatim>\<open>u64\<close> are words of their width. An \<^verbatim>\<open>i32\<close> is kept as the 32 bits it
  is made of: the sources only compare link identifiers for equality, cast them with
  \<^verbatim>\<open>as u32\<close> (the identity on the bits) and send them, and \<^term>\<open>sint\<close> reads the sign where it
  matters. \<^verbatim>\<open>usize\<close> is 64 bits wide; lengths are \<^typ>\<open>nat\<close> and the two places where the
  sources check for its overflow compare with \<open>usize_max\<close>.
\<close>

type_synonym u8 = "8 word"
type_synonym u16 = "16 word"
type_synonym u32 = "32 word"
type_synonym u64 = "64 word"
type_synonym i32 = "32 word"
type_synonym bytes = "u8 list"

text \<open>A Rust \<^verbatim>\<open>str\<close> is the list of its Unicode code points.\<close>

type_synonym rstr = "nat list"

definition usize_max :: nat where
  "usize_max = 2 ^ 64 - 1"

text \<open>Subtraction of \<^verbatim>\<open>usize\<close> values in a release build, which wraps.\<close>

definition usize_sub :: "nat \<Rightarrow> nat \<Rightarrow> nat" where
  "usize_sub a b = (if b \<le> a then a - b else a + (usize_max + 1) - b)"

lemma usize_sub_le [simp]: "b \<le> a \<Longrightarrow> usize_sub a b = a - b"
  by (simp add: usize_sub_def)

text \<open>A flag test \<^verbatim>\<open>w & m != 0\<close>.\<close>

definition has_flag :: "'a::len word \<Rightarrow> 'a word \<Rightarrow> bool" where
  "has_flag w m \<longleftrightarrow> w AND m \<noteq> 0"

lemma has_flag_zero [simp]: "\<not> has_flag 0 m"
  by (simp add: has_flag_def)

lemma has_flag_OR: "has_flag (v OR w) m \<longleftrightarrow> has_flag v m \<or> has_flag w m"
  by (simp add: has_flag_def bit.conj_disj_distrib2 or_eq_0_iff)

lemma has_flag_power: "has_flag w (2 ^ n) \<longleftrightarrow> bit w n"
  by (simp add: has_flag_def and_exp_eq_0_iff_not_bit)

lemma bit_of_nat_less:
  assumes "n < 2 ^ k" "bit (of_nat n :: 'a::len word) i"
  shows "i < k"
proof (rule ccontr)
  assume "\<not> i < k"
  then have "n < 2 ^ i"
    using assms(1) power_increasing[of k i "2 :: nat"] by linarith
  moreover have "bit n i"
    using assms(2) by (simp add: bit_simps)
  ultimately show False
    by (simp add: bit_iff_odd)
qed

section \<open>Results\<close>

text \<open>
  Rust's \<^verbatim>\<open>Result<T, E>\<close> is the sum \<open>'e + 'a\<close>, with \<^const>\<open>Inl\<close> for \<^verbatim>\<open>Err\<close>. The operator
  \<^verbatim>\<open>?\<close> is \<open>rbind\<close>: an error ends the function, a value is handed on.
\<close>

type_synonym ('e, 'a) result = "'e + 'a"

definition rbind :: "('e, 'a) result \<Rightarrow> ('a \<Rightarrow> ('e, 'b) result) \<Rightarrow> ('e, 'b) result" where
  "rbind r f = (case r of Inl e \<Rightarrow> Inl e | Inr x \<Rightarrow> f x)"

definition map_err :: "('e \<Rightarrow> 'f) \<Rightarrow> ('e, 'a) result \<Rightarrow> ('f, 'a) result" where
  "map_err g r = (case r of Inl e \<Rightarrow> Inl (g e) | Inr x \<Rightarrow> Inr x)"

lemma rbind_simps [simp]:
  "rbind (Inl e) f = Inl e"
  "rbind (Inr x) f = f x"
  by (simp_all add: rbind_def)

lemma map_err_simps [simp]:
  "map_err g (Inl e) = Inl (g e)"
  "map_err g (Inr x) = Inr x"
  by (simp_all add: map_err_def)

lemma rbind_Inr_iff [branch]:
  "rbind r f = Inr y \<longleftrightarrow> (\<exists>x. r = Inr x \<and> f x = Inr y)"
  by (cases r) simp_all

lemma rbind_Inl_iff:
  "rbind r f = Inl e \<longleftrightarrow> r = Inl e \<or> (\<exists>x. r = Inr x \<and> f x = Inl e)"
  by (cases r) simp_all

lemma map_err_Inr_iff [branch]: "map_err g r = Inr x \<longleftrightarrow> r = Inr x"
  by (cases r) simp_all

lemma map_err_Inl_iff: "map_err g r = Inl e \<longleftrightarrow> (\<exists>d. r = Inl d \<and> e = g d)"
  by (cases r) auto

section \<open>Fixed-width byte encodings\<close>

text \<open>
  \<open>to_le n w\<close> is \<^verbatim>\<open>w.to_le_bytes()\<close> for a word of \<open>n\<close> bytes, least significant byte first;
  \<open>to_be\<close> is the network order. \<open>of_le\<close> and \<open>of_be\<close> are the readers.
\<close>

primrec to_le :: "nat \<Rightarrow> 'a::len word \<Rightarrow> bytes" where
  "to_le 0 w = []"
| "to_le (Suc n) w = ucast w # to_le n (drop_bit 8 w)"

primrec of_le :: "bytes \<Rightarrow> 'a::len word" where
  "of_le [] = 0"
| "of_le (b # bs) = ucast b OR push_bit 8 (of_le bs)"

definition to_be :: "nat \<Rightarrow> 'a::len word \<Rightarrow> bytes" where
  "to_be n w = rev (to_le n w)"

definition of_be :: "bytes \<Rightarrow> 'a::len word" where
  "of_be bs = of_le (rev bs)"

lemma length_to_le [simp]: "length (to_le n w) = n"
  by (induction n arbitrary: w) simp_all

lemma length_to_be [simp]: "length (to_be n w) = n"
  by (simp add: to_be_def)

lemma of_le_to_le: "of_le (to_le n w) = take_bit (8 * n) w"
proof (induction n arbitrary: w)
  case 0
  then show ?case by simp
next
  case (Suc n)
  show ?case
    by (rule bit_word_eqI) (auto simp: Suc bit_simps)
qed

lemma of_be_to_be: "of_be (to_be n w) = take_bit (8 * n) w"
  by (simp add: of_be_def to_be_def of_le_to_le)

lemma of_le_to_le_full:
  "LENGTH('a) \<le> 8 * n \<Longrightarrow> of_le (to_le n (w :: 'a::len word)) = w"
  by (simp add: of_le_to_le take_bit_word_eq_self)

lemma of_be_to_be_full:
  "LENGTH('a) \<le> 8 * n \<Longrightarrow> of_be (to_be n (w :: 'a::len word)) = w"
  by (simp add: of_be_to_be take_bit_word_eq_self)

lemma bit_of_le:
  "bit (of_le bs :: 'a::len word) i \<longleftrightarrow>
     i < LENGTH('a) \<and> i < 8 * length bs \<and> bit (bs ! (i div 8)) (i mod 8)"
proof (induction bs arbitrary: i)
  case Nil
  then show ?case by simp
next
  case (Cons b bs)
  show ?case
  proof (cases "i < 8")
    case True
    then show ?thesis by (auto simp: bit_simps)
  next
    case False
    then obtain j where j: "i = j + 8"
      by (metis add.commute le_Suc_ex not_less)
    have "\<not> bit b (j + 8)"
      using bit_imp_le_length[of b "j + 8"] by auto
    moreover have "(j + 8) div 8 = Suc (j div 8)"
      by simp
    ultimately show ?thesis
      using Cons.IH[of j] by (auto simp: j bit_simps)
  qed
qed

lemma to_le_of_le:
  "8 * length bs \<le> LENGTH('a) \<Longrightarrow> to_le (length bs) (of_le bs :: 'a::len word) = bs"
proof (induction bs)
  case Nil
  then show ?case by simp
next
  case (Cons b bs)
  have low: "ucast (of_le (b # bs) :: 'a word) = b"
  proof (rule bit_word_eqI)
    fix i assume "i < LENGTH(8)"
    then show "bit (ucast (of_le (b # bs) :: 'a word) :: u8) i = bit b i"
      using Cons.prems by (auto simp: bit_simps bit_of_le simp del: of_le.simps)
  qed
  have high: "drop_bit 8 (of_le (b # bs) :: 'a word) = of_le bs"
  proof (rule bit_word_eqI)
    fix i :: nat
    have "(8 + i) div 8 = Suc (i div 8)"
      by simp
    then show "bit (drop_bit 8 (of_le (b # bs) :: 'a word)) i = bit (of_le bs :: 'a word) i"
      using Cons.prems by (auto simp: bit_simps bit_of_le simp del: of_le.simps)
  qed
  show ?case
    using Cons by (simp only: list.size to_le.simps add_Suc_right Nat.add_0_right low high) simp
qed

lemma to_be_of_be:
  "8 * length bs \<le> LENGTH('a) \<Longrightarrow> to_be (length bs) (of_be bs :: 'a::len word) = bs"
  using to_le_of_le[of "rev bs", where 'a = 'a] by (simp add: to_be_def of_be_def)

text \<open>The four encodings the wire formats use.\<close>

abbreviation be16 :: "u16 \<Rightarrow> bytes" where "be16 \<equiv> to_be 2"
abbreviation be32 :: "u32 \<Rightarrow> bytes" where "be32 \<equiv> to_be 4"
abbreviation be64 :: "u64 \<Rightarrow> bytes" where "be64 \<equiv> to_be 8"
abbreviation le16 :: "u16 \<Rightarrow> bytes" where "le16 \<equiv> to_le 2"
abbreviation le32 :: "u32 \<Rightarrow> bytes" where "le32 \<equiv> to_le 4"

lemma of_be_be [wire, simp]:
  "of_be (be16 w) = w" "of_be (be32 v) = v" "of_be (be64 x) = x"
  by (simp_all add: of_be_to_be_full)

lemma of_le_le [wire, simp]:
  "of_le (le16 w) = w" "of_le (le32 v) = v"
  by (simp_all add: of_le_to_le_full)

lemma of_nat_unat_len: "n < 2 ^ LENGTH('a) \<Longrightarrow> unat (of_nat n :: 'a::len word) = n"
  by (simp add: unat_of_nat take_bit_nat_eq_self)

section \<open>Lists\<close>

lemma take_append_len [simp]: "n = length xs \<Longrightarrow> take n (xs @ ys) = xs"
  by simp

lemma drop_append_len [simp]: "n = length xs \<Longrightarrow> drop n (xs @ ys) = ys"
  by simp

text \<open>\<^verbatim>\<open>data.chunks(n)\<close>: consecutive pieces of \<open>n\<close> bytes, the last one possibly shorter. The
  library panics on \<open>n = 0\<close>; the callers are shown never to ask for that.\<close>

function chunks :: "nat \<Rightarrow> 'a list \<Rightarrow> 'a list list" where
  "chunks n xs = (if n = 0 \<or> xs = [] then [] else take n xs # chunks n (drop n xs))"
  by pat_completeness auto
termination
  by (relation "measure (\<lambda>(n, xs). length xs)") auto

declare chunks.simps [simp del]

lemma chunks_Nil [simp]: "chunks n [] = []"
  by (subst chunks.simps) simp

lemma chunks_step: "n \<noteq> 0 \<Longrightarrow> xs \<noteq> [] \<Longrightarrow> chunks n xs = take n xs # chunks n (drop n xs)"
  by (subst chunks.simps) simp

lemma concat_chunks: "n \<noteq> 0 \<Longrightarrow> concat (chunks n xs) = xs"
proof (induction n xs rule: chunks.induct)
  case (1 n xs)
  show ?case
  proof (cases "xs = []")
    case False
    with 1 show ?thesis by (simp add: chunks_step)
  qed simp
qed

lemma chunks_bounds:
  "n \<noteq> 0 \<Longrightarrow> c \<in> set (chunks n xs) \<Longrightarrow> 0 < length c \<and> length c \<le> n"
proof (induction n xs rule: chunks.induct)
  case (1 n xs)
  show ?case
  proof (cases "xs = []")
    case True
    with 1 show ?thesis by simp
  next
    case False
    with 1 show ?thesis by (auto simp: chunks_step)
  qed
qed

lemma chunks_eq_Nil [simp]: "n \<noteq> 0 \<Longrightarrow> chunks n xs = [] \<longleftrightarrow> xs = []"
  by (cases "xs = []") (simp_all add: chunks_step)

end
