(* ===== verification/Lock_Registry.thy ===== *)
theory Lock_Registry
  imports Prelude "HOL-Library.AList"
begin

text \<open>
  The daemon-wide instrument locks of \<^verbatim>\<open>src/src/frontend/lock.rs\<close>: VISA \<^verbatim>\<open>viLock\<close> semantics, one
  table per resource, shared by the HiSLIP and the VXI-11 front-ends.

  The two hash maps (resources to tables, shared holders to nesting depths) are association lists
  whose keys the invariant keeps distinct; the order of their entries is never observed. Nesting depths are \<^verbatim>\<open>u32\<close>: the arithmetic on them wraps, as a release build of the
  program does. Strings are lists of Unicode code points. The \<^verbatim>\<open>Notify\<close> that wakes waiting
  requests is a counter of the \<^verbatim>\<open>notify_waiters\<close> calls made so far: a \<^verbatim>\<open>notified()\<close> future
  remembers the count at its creation and completes once the count has moved on.
\<close>

section \<open>Data\<close>

type_synonym holder_id = u64

datatype lock_response = Failure | SuccessExclusive | SuccessShared | LockError

fun control_code :: "lock_response \<Rightarrow> u8" where
  "control_code Failure = 0"
| "control_code SuccessExclusive = 1"
| "control_code SuccessShared = 2"
| "control_code LockError = 3"

definition is_success :: "lock_response \<Rightarrow> bool" where
  "is_success r \<longleftrightarrow> r = SuccessExclusive \<or> r = SuccessShared"

definition hislip_id :: "u16 \<Rightarrow> holder_id" where
  "hislip_id session_id = 0x000100000000 OR ucast session_id"

definition vxi11_id :: "i32 \<Rightarrow> holder_id" where
  "vxi11_id lid = 0x000200000000 OR ucast lid"

record lock_table =
  exclusive :: "(holder_id \<times> u32) option"
  shared_name :: "rstr option"
  shared :: "(holder_id \<times> u32) list"

definition default_table :: lock_table where
  "default_table = \<lparr>exclusive = None, shared_name = None, shared = []\<rparr>"

definition is_empty :: "lock_table \<Rightarrow> bool" where
  "is_empty t \<longleftrightarrow> exclusive t = None \<and> shared t = []"

text \<open>\<^verbatim>\<open>matches!(table.exclusive, Some((holder, _)) if holder == id)\<close> and its negation on the id.\<close>

definition exclusive_by :: "lock_table \<Rightarrow> holder_id \<Rightarrow> bool" where
  "exclusive_by t hid = (case exclusive t of Some (h, _) \<Rightarrow> h = hid | None \<Rightarrow> False)"

definition exclusive_elsewhere :: "lock_table \<Rightarrow> holder_id \<Rightarrow> bool" where
  "exclusive_elsewhere t hid = (case exclusive t of Some (h, _) \<Rightarrow> h \<noteq> hid | None \<Rightarrow> False)"

definition shared_by :: "lock_table \<Rightarrow> holder_id \<Rightarrow> bool" where
  "shared_by t hid \<longleftrightarrow> map_of (shared t) hid \<noteq> None"

definition holders :: "lock_table \<Rightarrow> u32" where
  "holders t =
     (let exclusive_only =
        (case exclusive t of Some (h, _) \<Rightarrow> if shared_by t h then 0 else 1 | None \<Rightarrow> 0)
      in of_nat (length (shared t)) + exclusive_only)"

definition grants_access :: "lock_table \<Rightarrow> holder_id \<Rightarrow> bool" where
  "grants_access t hid =
     (let h = exclusive_by t hid \<or> shared_by t hid in h \<or> is_empty t)"

record lock_registry =
  tables :: "(rstr \<times> lock_table) list"
  released :: nat

definition new_registry :: lock_registry where
  "new_registry = \<lparr>tables = [], released = 0\<rparr>"

section \<open>Operations\<close>

text \<open>The two arms of \<^verbatim>\<open>try_request\<close>: an empty lock string asks for the exclusive lock, any other
  one for a shared lock under that name.\<close>

definition try_exclusive :: "lock_table \<Rightarrow> holder_id \<Rightarrow> lock_response option \<times> lock_table" where
  "try_exclusive t hid =
     (case exclusive t of
        Some (h, depth) \<Rightarrow>
          if h = hid then (Some SuccessExclusive, t\<lparr>exclusive := Some (h, depth + 1)\<rparr>)
          else (None, t)
      | None \<Rightarrow>
          if list_ex (\<lambda>(h, _). h \<noteq> hid) (shared t) then (None, t)
          else (Some SuccessExclusive, t\<lparr>exclusive := Some (hid, 1)\<rparr>))"

definition try_shared :: "lock_table \<Rightarrow> holder_id \<Rightarrow> rstr \<Rightarrow> lock_response option \<times> lock_table" where
  "try_shared t hid lock_string =
     (let name_clash = (case shared_name t of Some n \<Rightarrow> n \<noteq> lock_string | None \<Rightarrow> False)
      in if exclusive_elsewhere t hid \<or> name_clash then (None, t)
         else
           let depth = (case map_of (shared t) hid of Some d \<Rightarrow> d | None \<Rightarrow> 0)
           in (Some SuccessShared,
               t\<lparr>shared_name := Some lock_string, shared := AList.update hid (depth + 1) (shared t)\<rparr>))"

definition try_table :: "lock_table \<Rightarrow> holder_id \<Rightarrow> rstr \<Rightarrow> lock_response option \<times> lock_table" where
  "try_table t hid lock_string =
     (if lock_string = [] then try_exclusive t hid else try_shared t hid lock_string)"

definition try_request ::
    "lock_registry \<Rightarrow> rstr \<Rightarrow> holder_id \<Rightarrow> rstr \<Rightarrow> lock_response option \<times> lock_registry" where
  "try_request reg resource hid lock_string =
     (let t = (case map_of (tables reg) resource of Some t \<Rightarrow> t | None \<Rightarrow> default_table);
          (granted, t') = try_table t hid lock_string
      in (granted,
          reg\<lparr>tables := (if granted = None \<and> is_empty t' then AList.delete resource (tables reg)
                         else AList.update resource t' (tables reg))\<rparr>))"

text \<open>
  The waiting loop of \<^verbatim>\<open>request\<close>. One element of the schedule is one turn of the loop: the clock
  after a failed attempt, and what the other sessions did to the registry until this one ran
  again. A schedule that ends before the loop does is a request that is still asleep, \<^const>\<open>None\<close>.
\<close>

fun request_loop ::
    "(nat \<times> (lock_registry \<Rightarrow> lock_registry)) list \<Rightarrow> rstr \<Rightarrow> holder_id \<Rightarrow> rstr \<Rightarrow> nat \<Rightarrow>
     lock_registry \<Rightarrow> (lock_response \<times> lock_registry) option" where
  "request_loop [] resource hid lock_string deadline reg = None"
| "request_loop ((now, others) # sched) resource hid lock_string deadline reg =
     (case try_request reg resource hid lock_string of
        (Some granted, reg') \<Rightarrow> Some (granted, reg')
      | (None, reg') \<Rightarrow>
          if deadline \<le> now then Some (Failure, reg')
          else request_loop sched resource hid lock_string deadline (others reg'))"

definition request ::
    "(nat \<times> (lock_registry \<Rightarrow> lock_registry)) list \<Rightarrow> nat \<Rightarrow> lock_registry \<Rightarrow> rstr \<Rightarrow> holder_id \<Rightarrow>
     rstr \<Rightarrow> nat \<Rightarrow> (lock_response \<times> lock_registry) option" where
  "request sched start reg resource hid lock_string timeout =
     request_loop sched resource hid lock_string (start + timeout) reg"

text \<open>A shared holder leaves a table; the last one takes the name with it.\<close>

definition drop_shared :: "lock_table \<Rightarrow> holder_id \<Rightarrow> lock_table" where
  "drop_shared t hid =
     (let rest = AList.delete hid (shared t)
      in t\<lparr>shared := rest, shared_name := (if rest = [] then None else shared_name t)\<rparr>)"

text \<open>The two arms of \<^verbatim>\<open>release\<close> on the table of the resource; \<^const>\<open>None\<close> is its early return with
  an error.\<close>

definition release_shared :: "lock_table \<Rightarrow> holder_id \<Rightarrow> (lock_response \<times> lock_table) option" where
  "release_shared t hid =
     (case map_of (shared t) hid of
        Some depth \<Rightarrow>
          Some (SuccessShared,
                if depth - 1 = 0 then drop_shared t hid
                else t\<lparr>shared := AList.update hid (depth - 1) (shared t)\<rparr>)
      | None \<Rightarrow> None)"

definition release_table :: "lock_table \<Rightarrow> holder_id \<Rightarrow> (lock_response \<times> lock_table) option" where
  "release_table t hid =
     (case exclusive t of
        Some (h, depth) \<Rightarrow>
          if h = hid then
            Some (SuccessExclusive,
                  t\<lparr>exclusive := (if depth - 1 = 0 then None else Some (h, depth - 1))\<rparr>)
          else release_shared t hid
      | None \<Rightarrow> release_shared t hid)"

definition release :: "lock_registry \<Rightarrow> rstr \<Rightarrow> holder_id \<Rightarrow> lock_response \<times> lock_registry" where
  "release reg resource hid =
     (case map_of (tables reg) resource of
        None \<Rightarrow> (LockError, reg)
      | Some t \<Rightarrow>
          (case release_table t hid of
             None \<Rightarrow> (LockError, reg)
           | Some (response, t') \<Rightarrow>
               (response,
                reg\<lparr>tables := (if is_empty t' then AList.delete resource (tables reg)
                               else AList.update resource t' (tables reg)),
                    released := released reg + 1\<rparr>)))"

text \<open>\<^verbatim>\<open>release_all\<close>: the closure of its \<^verbatim>\<open>retain\<close> on one table, whether it freed anything there, and
  the operation.\<close>

definition strip_holder :: "holder_id \<Rightarrow> lock_table \<Rightarrow> lock_table" where
  "strip_holder hid t =
     (let t1 = (if exclusive_by t hid then t\<lparr>exclusive := None\<rparr> else t)
      in if shared_by t1 hid then drop_shared t1 hid else t1)"

definition held_by :: "lock_table \<Rightarrow> holder_id \<Rightarrow> bool" where
  "held_by t hid \<longleftrightarrow> exclusive_by t hid \<or> shared_by t hid"

definition release_all :: "lock_registry \<Rightarrow> holder_id \<Rightarrow> lock_registry" where
  "release_all reg hid =
     (let freed = list_ex (\<lambda>(_, t). held_by t hid) (tables reg)
      in reg\<lparr>tables := filter (\<lambda>(_, t). \<not> is_empty t)
                        (map (\<lambda>(r, t). (r, strip_holder hid t)) (tables reg)),
             released := (if freed then released reg + 1 else released reg)\<rparr>)"

definition info :: "lock_registry \<Rightarrow> rstr \<Rightarrow> bool \<times> u32" where
  "info reg resource =
     (case map_of (tables reg) resource of
        Some t \<Rightarrow> (exclusive t \<noteq> None, holders t)
      | None \<Rightarrow> (False, 0))"

definition has_access :: "lock_registry \<Rightarrow> rstr \<Rightarrow> holder_id \<Rightarrow> bool" where
  "has_access reg resource hid =
     (case map_of (tables reg) resource of Some t \<Rightarrow> grants_access t hid | None \<Rightarrow> True)"

definition holds :: "lock_registry \<Rightarrow> rstr \<Rightarrow> holder_id \<Rightarrow> bool" where
  "holds reg resource hid =
     (case map_of (tables reg) resource of Some t \<Rightarrow> held_by t hid | None \<Rightarrow> False)"

text \<open>The two parking loops: the schedule is that of \<^const>\<open>request_loop\<close>, without a clock for the
  unbounded one.\<close>

fun wait_for_access ::
    "(lock_registry \<Rightarrow> lock_registry) list \<Rightarrow> rstr \<Rightarrow> holder_id \<Rightarrow> lock_registry \<Rightarrow> lock_registry option" where
  "wait_for_access [] resource hid reg = (if has_access reg resource hid then Some reg else None)"
| "wait_for_access (others # sched) resource hid reg =
     (if has_access reg resource hid then Some reg
      else wait_for_access sched resource hid (others reg))"

fun wait_timeout_loop ::
    "(nat \<times> (lock_registry \<Rightarrow> lock_registry)) list \<Rightarrow> rstr \<Rightarrow> holder_id \<Rightarrow> nat \<Rightarrow>
     lock_registry \<Rightarrow> (bool \<times> lock_registry) option" where
  "wait_timeout_loop [] resource hid deadline reg = None"
| "wait_timeout_loop ((now, others) # sched) resource hid deadline reg =
     (if has_access reg resource hid then Some (True, reg)
      else if deadline \<le> now then Some (False, reg)
      else wait_timeout_loop sched resource hid deadline (others reg))"

definition wait_for_access_timeout ::
    "(nat \<times> (lock_registry \<Rightarrow> lock_registry)) list \<Rightarrow> nat \<Rightarrow> lock_registry \<Rightarrow> rstr \<Rightarrow> holder_id \<Rightarrow>
     nat \<Rightarrow> (bool \<times> lock_registry) option" where
  "wait_for_access_timeout sched start reg resource hid timeout =
     wait_timeout_loop sched resource hid (start + timeout) reg"

section \<open>The registry as a shared object\<close>

text \<open>
  What the sessions of the daemon do to the registry, one locked section of the mutex at a time,
  and the states that can come of it. The label is the session that acts.
\<close>

inductive lock_step :: "holder_id \<Rightarrow> lock_registry \<Rightarrow> lock_registry \<Rightarrow> bool" where
  step_request: "try_request reg r hid s = (g, reg') \<Longrightarrow> lock_step hid reg reg'"
| step_release: "release reg r hid = (g, reg') \<Longrightarrow> lock_step hid reg reg'"
| step_release_all: "release_all reg hid = reg' \<Longrightarrow> lock_step hid reg reg'"

inductive lock_run :: "(holder_id \<Rightarrow> bool) \<Rightarrow> lock_registry \<Rightarrow> lock_registry \<Rightarrow> bool" where
  run_refl: "lock_run who reg reg"
| run_step: "lock_run who reg reg' \<Longrightarrow> who hid \<Longrightarrow> lock_step hid reg' reg'' \<Longrightarrow> lock_run who reg reg''"

inductive_cases lock_stepE: "lock_step hid reg reg'"

definition reachable_registry :: "lock_registry \<Rightarrow> bool" where
  "reachable_registry reg \<longleftrightarrow> lock_run (\<lambda>_. True) new_registry reg"

section \<open>The invariant\<close>

definition wf_table :: "lock_table \<Rightarrow> bool" where
  "wf_table t \<longleftrightarrow>
     distinct (map fst (shared t)) \<and>
     (shared_name t = None \<longleftrightarrow> shared t = []) \<and>
     (case exclusive t of Some (h, _) \<Rightarrow> fst ` set (shared t) \<subseteq> {h} | None \<Rightarrow> True)"

definition wf_registry :: "lock_registry \<Rightarrow> bool" where
  "wf_registry reg \<longleftrightarrow>
     distinct (map fst (tables reg)) \<and>
     (\<forall>(r, t) \<in> set (tables reg). wf_table t \<and> \<not> is_empty t)"

text \<open>The table of a resource; a resource without a table is free.\<close>

definition table_at :: "lock_registry \<Rightarrow> rstr \<Rightarrow> lock_table" where
  "table_at reg r = (case map_of (tables reg) r of Some t \<Rightarrow> t | None \<Rightarrow> default_table)"

section \<open>Laws of the association lists\<close>

lemma map_of_retain:
  "distinct (map fst al) \<Longrightarrow>
   map_of (filter (\<lambda>(_, v). P v) (map (\<lambda>(k, v). (k, f v)) al)) k =
     (case map_of al k of Some v \<Rightarrow> if P (f v) then Some (f v) else None | None \<Rightarrow> None)"
proof (induction al)
  case (Cons a al)
  obtain k' v where a: "a = (k', v)" by (cases a)
  have "k' = k \<Longrightarrow> map_of al k = None"
    using Cons.prems by (auto simp: a map_of_eq_None_iff)
  with Cons show ?case by (auto simp: a split: option.splits)
qed simp

lemma map_of_delete: "map_of (AList.delete k al) k' = (if k' = k then None else map_of al k')"
  by (simp add: AList.delete_conv')

lemma map_of_update: "map_of (AList.update k v al) k' = (if k' = k then Some v else map_of al k')"
  by (simp add: AList.update_conv')

lemmas alist_simps = map_of_delete map_of_update AList.distinct_update AList.distinct_delete

section \<open>Tables\<close>

lemmas table_defs = is_empty_def exclusive_by_def shared_by_def held_by_def default_table_def

lemma wf_default [simp]: "wf_table default_table"
  by (simp add: wf_table_def default_table_def)

lemma empty_default [simp]: "is_empty default_table"
  by (simp add: table_defs)

lemma wf_empty: "wf_table t \<Longrightarrow> is_empty t \<longleftrightarrow> t = default_table"
  by (cases t) (auto simp: wf_table_def table_defs)

lemma empty_not_held: "is_empty t \<Longrightarrow> \<not> held_by t i"
  by (simp add: table_defs)

lemma not_empty_held: "\<not> is_empty t \<Longrightarrow> \<exists>i. held_by t i"
  by (cases "exclusive t"; cases "shared t") (auto simp: table_defs)

lemma grants_access_alt: "grants_access t i \<longleftrightarrow> held_by t i \<or> is_empty t"
  by (simp add: grants_access_def held_by_def)

lemma try_table_wf: "wf_table t \<Longrightarrow> wf_table (snd (try_table t i s))"
  by (auto simp: wf_table_def try_table_def try_exclusive_def try_shared_def exclusive_elsewhere_def
      list_ex_iff AList.distinct_update AList.update_keys dom_update
      split: option.splits)

lemma try_table_None: "fst (try_table t i s) = None \<Longrightarrow> snd (try_table t i s) = t"
  by (auto simp: try_table_def try_exclusive_def try_shared_def Let_def split: option.splits if_splits)

lemma try_table_held:
  "held_by (snd (try_table t i s)) j \<longleftrightarrow> held_by t j \<or> (j = i \<and> fst (try_table t i s) \<noteq> None)"
  by (auto simp: try_table_def try_exclusive_def try_shared_def exclusive_elsewhere_def Let_def
      table_defs alist_simps split: option.splits if_splits)

lemma try_table_granted_not_empty:
  "fst (try_table t i s) \<noteq> None \<Longrightarrow> \<not> is_empty (snd (try_table t i s))"
  using try_table_held[of t i s i] empty_not_held by blast

lemma delete_Nil: "AList.delete i al = [] \<Longrightarrow> j \<noteq> i \<Longrightarrow> map_of al j = None"
  using map_of_delete[of i al j] by simp

lemma drop_shared_wf:
  assumes "wf_table t" "shared t \<noteq> []"
  shows "wf_table (drop_shared t i)"
proof -
  have keys: "fst ` set (AList.delete i (shared t)) \<subseteq> fst ` set (shared t)"
    by (metis AList.delete_keys Diff_subset list.set_map set_removeAll)
  have "\<forall>h. fst ` set (shared t) \<subseteq> {h} \<longrightarrow> fst ` set (AList.delete i (shared t)) \<subseteq> {h}"
    using keys by (meson order_trans)
  with assms show ?thesis
    by (simp add: wf_table_def drop_shared_def Let_def AList.distinct_delete
        split: option.splits prod.splits)
qed

lemma drop_shared_held:
  "held_by (drop_shared t i) j \<longleftrightarrow> exclusive_by t j \<or> (shared_by t j \<and> j \<noteq> i)"
  by (auto simp: drop_shared_def Let_def table_defs alist_simps dest: delete_Nil)

lemma exclusive_drop_shared [simp]: "exclusive (drop_shared t i) = exclusive t"
  by (simp add: drop_shared_def Let_def)

lemma release_shared_wf:
  assumes "wf_table t" "release_shared t i = Some (g, t')"
  shows "wf_table t'"
proof -
  from assms(2) obtain d where d: "map_of (shared t) i = Some d"
    by (auto simp: release_shared_def split: option.splits)
  then have "shared t \<noteq> []" "i \<in> fst ` set (shared t)"
    by (auto dest!: map_of_SomeD simp: image_iff) force
  with assms d show ?thesis
    by (auto simp: release_shared_def drop_shared_wf split: if_splits)
      (auto simp: wf_table_def dom_update AList.distinct_update insert_absorb split: option.splits)
qed

lemma release_table_wf:
  assumes "wf_table t" "release_table t i = Some (g, t')"
  shows "wf_table t'"
proof (cases "exclusive_by t i")
  case True
  with assms show ?thesis
    by (force simp: release_table_def wf_table_def exclusive_by_def split: option.splits if_splits)
next
  case False
  with assms show ?thesis
    by (auto simp: release_table_def exclusive_by_def split: option.splits intro: release_shared_wf)
qed

lemma release_table_None: "release_table t i = None \<longleftrightarrow> \<not> held_by t i"
  by (auto simp: release_table_def release_shared_def table_defs split: option.splits)

lemma release_table_other:
  "release_table t i = Some (g, t') \<Longrightarrow> j \<noteq> i \<Longrightarrow> held_by t' j \<longleftrightarrow> held_by t j"
  by (auto simp: release_table_def release_shared_def drop_shared_held split: option.splits if_splits)
    (auto simp: table_defs alist_simps)

lemma strip_holder_wf: "wf_table t \<Longrightarrow> wf_table (strip_holder i t)"
  by (auto simp: strip_holder_def Let_def shared_by_def intro!: drop_shared_wf)
    (auto simp: wf_table_def)

lemma strip_holder_held: "held_by (strip_holder i t) j \<longleftrightarrow> held_by t j \<and> j \<noteq> i"
  by (auto simp: strip_holder_def Let_def drop_shared_held)
    (auto simp: table_defs split: option.splits)

lemma strip_holder_id: "\<not> held_by t i \<Longrightarrow> strip_holder i t = t"
  by (auto simp: strip_holder_def Let_def held_by_def)

section \<open>The registry\<close>

lemma wf_registry_table: "wf_registry reg \<Longrightarrow> map_of (tables reg) r = Some t \<Longrightarrow> wf_table t \<and> \<not> is_empty t"
  by (auto simp: wf_registry_def dest!: map_of_SomeD)

lemma wf_registryI:
  "distinct (map fst (tables reg)) \<Longrightarrow>
   (\<And>r t. map_of (tables reg) r = Some t \<Longrightarrow> wf_table t \<and> \<not> is_empty t) \<Longrightarrow> wf_registry reg"
  by (auto simp: wf_registry_def)

lemma wf_table_at: "wf_registry reg \<Longrightarrow> wf_table (table_at reg r)"
  by (auto simp: table_at_def dest: wf_registry_table split: option.splits)

lemma has_access_table: "has_access reg r i \<longleftrightarrow> grants_access (table_at reg r) i"
  by (auto simp: has_access_def table_at_def grants_access_alt split: option.splits)

lemma holds_table: "holds reg r i \<longleftrightarrow> held_by (table_at reg r) i"
  using empty_not_held[OF empty_default] by (auto simp: holds_def table_at_def split: option.splits)

lemma info_table: "info reg r = (exclusive (table_at reg r) \<noteq> None, holders (table_at reg r))"
  by (simp add: info_def table_at_def holders_def default_table_def split: option.splits)

text \<open>Both mutating paths put a table back or, when it has become empty, drop it.\<close>

definition store :: "rstr \<Rightarrow> lock_table \<Rightarrow> (rstr \<times> lock_table) list \<Rightarrow> (rstr \<times> lock_table) list" where
  "store r t al = (if is_empty t then AList.delete r al else AList.update r t al)"

lemma store_wf:
  assumes "wf_registry reg" "wf_table t" "tables reg' = store r t (tables reg)"
  shows "wf_registry reg'"
proof (rule wf_registryI)
  show "distinct (map fst (tables reg'))"
    using assms by (simp add: store_def wf_registry_def AList.distinct_update AList.distinct_delete)
next
  fix r' t' assume "map_of (tables reg') r' = Some t'"
  then show "wf_table t' \<and> \<not> is_empty t'"
    using assms(2,3) wf_registry_table[OF assms(1)] by (auto simp: store_def alist_simps split: if_splits)
qed

lemma store_table_at:
  "wf_table t \<Longrightarrow> tables reg' = store r t (tables reg) \<Longrightarrow>
   table_at reg' r' = (if r' = r then t else table_at reg r')"
  using wf_empty[of t] by (auto simp: table_at_def store_def alist_simps)

lemma try_request_eq:
  "try_request reg r i s =
     (fst (try_table (table_at reg r) i s),
      reg\<lparr>tables := store r (snd (try_table (table_at reg r) i s)) (tables reg)\<rparr>)"
  using try_table_granted_not_empty[of "table_at reg r" i s]
  by (auto simp: try_request_def table_at_def[symmetric] Let_def store_def split: prod.splits)

lemma try_request_fst: "fst (try_request reg r i s) = fst (try_table (table_at reg r) i s)"
  by (simp add: try_request_eq)

lemma try_request_table:
  "wf_registry reg \<Longrightarrow>
   table_at (snd (try_request reg r i s)) r' =
     (if r' = r then snd (try_table (table_at reg r) i s) else table_at reg r')"
  by (simp add: try_request_eq store_table_at[where reg = reg] try_table_wf wf_table_at)

lemma try_request_released [simp]: "released (snd (try_request reg r i s)) = released reg"
  by (simp add: try_request_eq)

lemma try_request_wf: "wf_registry reg \<Longrightarrow> wf_registry (snd (try_request reg r i s))"
  by (rule store_wf[of reg]) (simp_all add: try_request_eq try_table_wf wf_table_at)

lemma release_eq:
  "release reg r i =
     (case release_table (table_at reg r) i of
        None \<Rightarrow> (LockError, reg)
      | Some (g, t') \<Rightarrow> (g, reg\<lparr>tables := store r t' (tables reg), released := released reg + 1\<rparr>))"
proof -
  have "release_table default_table i = None"
    by (simp add: release_table_None table_defs)
  then show ?thesis
    by (simp add: release_def table_at_def store_def split: option.splits prod.splits)
qed

lemma release_wf: "wf_registry reg \<Longrightarrow> wf_registry (snd (release reg r i))"
  by (auto simp: release_eq split: option.splits prod.splits
      intro: store_wf[where reg = reg] release_table_wf[OF wf_table_at])

lemma release_table_at:
  "wf_registry reg \<Longrightarrow>
   table_at (snd (release reg r i)) r' =
     (case release_table (table_at reg r) i of
        Some (_, t') \<Rightarrow> if r' = r then t' else table_at reg r'
      | None \<Rightarrow> table_at reg r')"
  by (auto simp: release_eq store_table_at[where reg = reg] release_table_wf[OF wf_table_at]
      split: option.splits prod.splits)

lemma release_all_wf:
  assumes "wf_registry reg"
  shows "wf_registry (release_all reg i)"
proof (rule wf_registryI)
  have "distinct (map fst (filter P (map (\<lambda>(r, t). (r, strip_holder i t)) (tables reg))))" for P
    using assms by (intro distinct_map_filter) (simp add: wf_registry_def case_prod_beta comp_def)
  then show "distinct (map fst (tables (release_all reg i)))"
    by (simp add: release_all_def Let_def)
next
  fix r t assume "map_of (tables (release_all reg i)) r = Some t"
  then show "wf_table t \<and> \<not> is_empty t"
    using assms wf_registry_table[OF assms]
    by (auto simp: release_all_def Let_def map_of_retain wf_registry_def strip_holder_wf
        split: option.splits if_splits)
qed

lemma release_all_table_at:
  assumes "wf_registry reg"
  shows "table_at (release_all reg i) r = strip_holder i (table_at reg r)"
proof -
  have "is_empty (strip_holder i t) \<Longrightarrow> default_table = strip_holder i t"
    if "map_of (tables reg) r = Some t" for t
    using wf_empty[OF strip_holder_wf, of t i] wf_registry_table[OF assms that] by simp
  moreover have "strip_holder i default_table = default_table"
    by (simp add: strip_holder_id empty_not_held)
  ultimately show ?thesis
    using assms by (auto simp: release_all_def table_at_def Let_def map_of_retain wf_registry_def
        split: option.splits)
qed

lemma release_all_released:
  "released (release_all reg i) =
     (if \<exists>(r, t) \<in> set (tables reg). held_by t i then released reg + 1 else released reg)"
  by (simp add: release_all_def Let_def list_ex_iff)

lemma new_registry_wf [simp]: "wf_registry new_registry"
  by (simp add: wf_registry_def new_registry_def)

lemma lock_step_wf: "lock_step i reg reg' \<Longrightarrow> wf_registry reg \<Longrightarrow> wf_registry reg'"
  by (erule lock_stepE) (metis snd_conv try_request_wf release_wf release_all_wf)+

lemma lock_run_wf: "lock_run who reg reg' \<Longrightarrow> wf_registry reg \<Longrightarrow> wf_registry reg'"
  by (induction rule: lock_run.induct) (auto dest: lock_step_wf)

lemma reachable_wf: "reachable_registry reg \<Longrightarrow> wf_registry reg"
  by (auto simp: reachable_registry_def dest: lock_run_wf)

section \<open>The contract of the registry\<close>

text \<open>
  What a front-end relies on: who holds what after each operation, that access is holding or
  freedom, and that an exclusive holder is alone. The facts below are proved from this contract
  only, and reach the registry through the interpretation that follows.
\<close>

locale lock_service =
  fixes inv :: "'s \<Rightarrow> bool"
    and acc :: "'s \<Rightarrow> 'r \<Rightarrow> 'h \<Rightarrow> bool"
    and hold :: "'s \<Rightarrow> 'r \<Rightarrow> 'h \<Rightarrow> bool"
    and excl :: "'s \<Rightarrow> 'r \<Rightarrow> 'h \<Rightarrow> bool"
    and acquire :: "'s \<Rightarrow> 'r \<Rightarrow> 'h \<Rightarrow> 'n \<Rightarrow> 'a option \<times> 's"
    and rel :: "'s \<Rightarrow> 'r \<Rightarrow> 'h \<Rightarrow> 'a \<times> 's"
    and rel_all :: "'s \<Rightarrow> 'h \<Rightarrow> 's"
    and exclusive_name :: 'n
  assumes acc_iff: "inv s \<Longrightarrow> acc s r i \<longleftrightarrow> hold s r i \<or> (\<forall>j. \<not> hold s r j)"
    and excl_hold: "excl s r i \<Longrightarrow> hold s r i"
    and excl_alone: "inv s \<Longrightarrow> excl s r i \<Longrightarrow> hold s r j \<Longrightarrow> j = i"
    and inv_acquire: "inv s \<Longrightarrow> inv (snd (acquire s r i n))"
    and inv_rel: "inv s \<Longrightarrow> inv (snd (rel s r i))"
    and inv_rel_all: "inv s \<Longrightarrow> inv (rel_all s i)"
    and hold_acquire: "inv s \<Longrightarrow>
      hold (snd (acquire s r i n)) r' j \<longleftrightarrow> hold s r' j \<or> (r' = r \<and> j = i \<and> fst (acquire s r i n) \<noteq> None)"
    and excl_acquire: "inv s \<Longrightarrow>
      excl (snd (acquire s r i n)) r' j \<longleftrightarrow>
        excl s r' j \<or> (r' = r \<and> j = i \<and> n = exclusive_name \<and> fst (acquire s r i n) \<noteq> None)"
    and hold_rel: "inv s \<Longrightarrow> j \<noteq> i \<or> r' \<noteq> r \<Longrightarrow> hold (snd (rel s r i)) r' j \<longleftrightarrow> hold s r' j"
    and excl_rel: "inv s \<Longrightarrow> j \<noteq> i \<or> r' \<noteq> r \<Longrightarrow> excl (snd (rel s r i)) r' j \<longleftrightarrow> excl s r' j"
    and hold_rel_all: "inv s \<Longrightarrow> hold (rel_all s i) r j \<longleftrightarrow> hold s r j \<and> j \<noteq> i"
    and excl_rel_all: "inv s \<Longrightarrow> excl (rel_all s i) r j \<longleftrightarrow> excl s r j \<and> j \<noteq> i"
begin

lemma excl_locks_out: "inv s \<Longrightarrow> excl s r i \<Longrightarrow> acc s r j \<longleftrightarrow> j = i"
  using acc_iff[of s r j] excl_hold[of s r i] excl_alone[of s r i j] by auto

lemma acquire_locks_out:
  "inv s \<Longrightarrow> fst (acquire s r i exclusive_name) \<noteq> None \<Longrightarrow>
   acc (snd (acquire s r i exclusive_name)) r j \<longleftrightarrow> j = i"
  using excl_locks_out[OF inv_acquire, of s r i exclusive_name r i j] excl_acquire[of s r i exclusive_name r i]
  by simp

lemma shared_refused: "inv s \<Longrightarrow> excl s r i \<Longrightarrow> j \<noteq> i \<Longrightarrow> fst (acquire s r j n) = None"
  using excl_alone[OF inv_acquire, of s r j n r i j] excl_acquire[of s r j n r i] hold_acquire[of s r j n r j]
  by blast

lemma exclusive_refused:
  assumes "inv s" "hold s r i" "j \<noteq> i"
  shows "fst (acquire s r j exclusive_name) = None"
proof (rule ccontr)
  assume granted: "fst (acquire s r j exclusive_name) \<noteq> None"
  then have "excl (snd (acquire s r j exclusive_name)) r j"
    using excl_acquire[OF assms(1), of r j exclusive_name r j] by simp
  moreover have "hold (snd (acquire s r j exclusive_name)) r i"
    using hold_acquire[OF assms(1), of r j exclusive_name r i] assms(2) by simp
  ultimately show False
    using excl_alone[OF inv_acquire[OF assms(1)]] assms(3) by blast
qed

lemma rel_all_frees: "inv s \<Longrightarrow> (\<forall>j. hold s r j \<longrightarrow> j = i) \<Longrightarrow> acc (rel_all s i) r k"
  using acc_iff[OF inv_rel_all, of s i r k] hold_rel_all[of s i r] by blast

lemma acc_acquire_other:
  "inv s \<Longrightarrow> j \<noteq> i \<Longrightarrow> acc (snd (acquire s r i n)) r' j \<Longrightarrow> acc s r' j"
  using acc_iff[of s r' j] acc_iff[OF inv_acquire, of s r i n r' j] hold_acquire[of s r i n r'] by blast

end

definition holds_exclusive :: "lock_registry \<Rightarrow> rstr \<Rightarrow> holder_id \<Rightarrow> bool" where
  "holds_exclusive reg r i \<longleftrightarrow> exclusive_by (table_at reg r) i"

lemma exclusive_alone: "wf_table t \<Longrightarrow> exclusive_by t i \<Longrightarrow> held_by t j \<Longrightarrow> j = i"
  by (auto simp: wf_table_def table_defs dest!: map_of_SomeD split: option.splits)

lemma try_table_exclusive:
  "exclusive_by (snd (try_table t i s)) j \<longleftrightarrow>
     exclusive_by t j \<or> (j = i \<and> s = [] \<and> fst (try_table t i s) \<noteq> None)"
  by (auto simp: try_table_def try_exclusive_def try_shared_def exclusive_elsewhere_def Let_def
      exclusive_by_def split: option.splits if_splits)

lemma release_table_exclusive:
  "release_table t i = Some (g, t') \<Longrightarrow> j \<noteq> i \<Longrightarrow> exclusive_by t' j \<longleftrightarrow> exclusive_by t j"
  by (auto simp: release_table_def release_shared_def exclusive_by_def split: option.splits if_splits)

lemma strip_holder_exclusive: "exclusive_by (strip_holder i t) j \<longleftrightarrow> exclusive_by t j \<and> j \<noteq> i"
  by (auto simp: strip_holder_def Let_def exclusive_by_def split: option.splits)

lemma has_access_iff: "wf_registry reg \<Longrightarrow> has_access reg r i \<longleftrightarrow> holds reg r i \<or> (\<forall>j. \<not> holds reg r j)"
  by (auto simp: has_access_table holds_table grants_access_alt
      dest: empty_not_held not_empty_held)

lemmas registry_ops = holds_table holds_exclusive_def try_request_fst try_request_table try_table_held
  try_table_exclusive release_table_at release_all_table_at strip_holder_held strip_holder_exclusive

interpretation registry: lock_service wf_registry has_access holds holds_exclusive try_request release
  release_all "[]"
proof (unfold_locales, goal_cases)
  case (1 s r i)
  then show ?case by (rule has_access_iff)
next
  case (2 s r i)
  then show ?case by (simp add: holds_exclusive_def holds_table held_by_def)
next
  case (3 s r i j)
  then show ?case using exclusive_alone[OF wf_table_at] by (simp add: holds_exclusive_def holds_table)
next
  case (9 s j i r' r)
  then show ?case
    using release_table_other by (auto simp: registry_ops split: option.splits)
next
  case (10 s j i r' r)
  then show ?case
    using release_table_exclusive by (auto simp: registry_ops split: option.splits)
qed (auto simp: try_request_wf release_wf release_all_wf registry_ops)

section \<open>Nesting\<close>

text \<open>The table a free resource has after \<open>n\<close> requests of one session.\<close>

definition nested_table :: "rstr \<Rightarrow> holder_id \<Rightarrow> nat \<Rightarrow> lock_table" where
  "nested_table s i n =
     (if n = 0 then default_table
      else if s = [] then default_table\<lparr>exclusive := Some (i, of_nat n)\<rparr>
      else default_table\<lparr>shared_name := Some s, shared := [(i, of_nat n)]\<rparr>)"

definition request_times :: "nat \<Rightarrow> rstr \<Rightarrow> holder_id \<Rightarrow> rstr \<Rightarrow> lock_registry \<Rightarrow> lock_registry" where
  "request_times n r i s = ((\<lambda>reg. snd (try_request reg r i s)) ^^ n)"

definition release_times :: "nat \<Rightarrow> rstr \<Rightarrow> holder_id \<Rightarrow> lock_registry \<Rightarrow> lock_registry" where
  "release_times n r i = ((\<lambda>reg. snd (release reg r i)) ^^ n)"

lemma nested_request: "snd (try_table (nested_table s i n) i s) = nested_table s i (Suc n)"
  by (simp add: nested_table_def try_table_def try_exclusive_def try_shared_def exclusive_elsewhere_def
      default_table_def Let_def add.commute)

lemma of_nat_u32_eq_0: "n < 2 ^ 32 \<Longrightarrow> (of_nat n :: u32) = 0 \<longleftrightarrow> n = 0"
  using of_nat_unat_len[of n, where 'a = 32] by (auto simp: unsigned_eq_0_iff)

lemma nested_release:
  assumes "Suc n < 2 ^ 32"
  shows "\<exists>g. release_table (nested_table s i (Suc n)) i = Some (g, nested_table s i n)"
  using of_nat_u32_eq_0[of n] assms
  by (auto simp: nested_table_def release_table_def release_shared_def drop_shared_def default_table_def
      Let_def)

lemma nested_held: "held_by (nested_table s i n) j \<longleftrightarrow> 0 < n \<and> j = i"
  by (auto simp: nested_table_def table_defs)

lemma request_times_table:
  "wf_registry reg \<Longrightarrow> table_at reg r = nested_table s i 0 \<Longrightarrow>
   wf_registry (request_times n r i s reg) \<and> table_at (request_times n r i s reg) r = nested_table s i n"
  by (induction n) (simp_all add: request_times_def try_request_wf try_request_table nested_request)

lemma release_times_table:
  assumes "wf_registry reg" "table_at reg r = nested_table s i n" "n < 2 ^ 32"
  shows "m \<le> n \<Longrightarrow> wf_registry (release_times m r i reg) \<and>
    table_at (release_times m r i reg) r = nested_table s i (n - m)"
proof (induction m)
  case (Suc m)
  then have "n - m = Suc (n - Suc m)" "Suc (n - Suc m) < 2 ^ 32"
    using assms(3) by linarith+
  with Suc nested_release[of "n - Suc m" s i] show ?case
    by (auto simp: release_times_def release_wf release_table_at)
qed (simp add: release_times_def assms)

section \<open>Runs\<close>

lemma lock_step_keeps_exclusive:
  assumes "lock_step k reg reg'" "k \<noteq> i" "wf_registry reg" "holds_exclusive reg r i"
  shows "holds_exclusive reg' r i"
  using assms(1)
proof cases
  case (step_request r' s g)
  then show ?thesis
    using registry.excl_acquire[OF assms(3), of r' k s r i] assms(4) by simp
next
  case (step_release r' g)
  then show ?thesis
    using registry.excl_rel[OF assms(3), of i k r r'] assms(2,4) by simp
next
  case step_release_all
  then show ?thesis
    using registry.excl_rel_all[OF assms(3), of k r i] assms(2,4) by simp
qed

lemma lock_run_keeps_exclusive:
  "lock_run who reg reg' \<Longrightarrow> (\<And>k. who k \<Longrightarrow> k \<noteq> i) \<Longrightarrow> wf_registry reg \<Longrightarrow> holds_exclusive reg r i \<Longrightarrow>
   wf_registry reg' \<and> holds_exclusive reg' r i"
  by (induction rule: lock_run.induct) (auto dest: lock_step_wf intro: lock_step_keeps_exclusive)

text \<open>A step that does not wake the waiters changes nothing a waiting session could be waiting
  for.\<close>

lemma release_all_quiet:
  assumes "wf_registry reg" "released (release_all reg k) = released reg"
  shows "table_at (release_all reg k) r = table_at reg r"
proof -
  have "\<forall>(r, t) \<in> set (tables reg). \<not> held_by t k"
    using assms(2) by (auto simp: release_all_released split: if_splits)
  then have "\<not> held_by (table_at reg r) k"
    by (auto simp: table_at_def empty_not_held dest!: map_of_SomeD split: option.splits)
  then show ?thesis
    by (simp add: release_all_table_at[OF assms(1)] strip_holder_id)
qed

lemma other_after_update: "k \<noteq> i \<Longrightarrow> list_ex (\<lambda>(h, _). h \<noteq> i) (AList.update k v al)"
  using map_of_SomeD[of "AList.update k v al" k v] by (auto simp: alist_simps list_ex_iff)

lemma try_table_still_refused:
  "fst (try_table t i s) = None \<Longrightarrow> k \<noteq> i \<Longrightarrow> fst (try_table (snd (try_table t k s')) i s) = None"
  by (auto simp: try_table_def try_exclusive_def try_shared_def exclusive_elsewhere_def Let_def
      other_after_update split: option.splits if_splits)

lemma lock_step_quiet:
  assumes "lock_step k reg reg'" "k \<noteq> i" "wf_registry reg" "released reg' = released reg"
  shows "has_access reg' r i \<longrightarrow> has_access reg r i"
    and "fst (try_request reg r i s) = None \<longrightarrow> fst (try_request reg' r i s) = None"
proof -
  have "(has_access reg' r i \<longrightarrow> has_access reg r i) \<and>
    (fst (try_request reg r i s) = None \<longrightarrow> fst (try_request reg' r i s) = None)"
    using assms(1)
  proof cases
    case (step_request r' s' g)
    then have "reg' = snd (try_request reg r' k s')" by simp
    then show ?thesis
      using registry.acc_acquire_other[OF assms(3) assms(2)[symmetric], of r' s' r]
        try_table_still_refused[of "table_at reg r" i s k s'] assms(2)
      by (auto simp: try_request_fst try_request_table[OF assms(3)])
  next
    case (step_release r' g)
    then have "reg' = reg"
      using assms(4) by (auto simp: release_eq split: option.splits)
    then show ?thesis by simp
  next
    case step_release_all
    then show ?thesis
      using release_all_quiet[OF assms(3), of k] assms(4)
      by (auto simp: has_access_table try_request_fst)
  qed
  then show "has_access reg' r i \<longrightarrow> has_access reg r i"
    and "fst (try_request reg r i s) = None \<longrightarrow> fst (try_request reg' r i s) = None" by auto
qed

lemma lock_step_released: "lock_step k reg reg' \<Longrightarrow> released reg \<le> released reg'"
  by (erule lock_stepE)
    (auto simp: try_request_eq release_eq release_all_released split: option.splits)

lemma lock_run_released: "lock_run who reg reg' \<Longrightarrow> released reg \<le> released reg'"
  by (induction rule: lock_run.induct) (auto dest: lock_step_released)

lemma lock_run_quiet:
  "lock_run who reg reg' \<Longrightarrow> (\<And>k. who k \<Longrightarrow> k \<noteq> i) \<Longrightarrow> wf_registry reg \<Longrightarrow> released reg' = released reg \<Longrightarrow>
   (has_access reg' r i \<longrightarrow> has_access reg r i) \<and>
   (fst (try_request reg r i s) = None \<longrightarrow> fst (try_request reg' r i s) = None)"
proof (induction rule: lock_run.induct)
  case (run_step who reg reg' k reg'')
  have "released reg' = released reg"
    using run_step.prems(3) lock_run_released[OF run_step.hyps(1)] lock_step_released[OF run_step.hyps(3)]
    by simp
  moreover have "wf_registry reg'"
    using run_step.hyps(1) run_step.prems(2) by (rule lock_run_wf)
  moreover have "k \<noteq> i"
    using run_step.hyps(2) run_step.prems(1) by blast
  ultimately show ?case
    using run_step.IH run_step.prems lock_step_quiet[OF run_step.hyps(3)] by simp
qed simp

lemma try_request_refused_again:
  "wf_registry reg \<Longrightarrow> fst (try_request reg r i s) = None \<Longrightarrow>
   fst (try_request (snd (try_request reg r i s)) r i s) = None"
  by (simp add: try_request_fst try_request_table try_table_None)

lemma request_loop_returns:
  assumes "wf_registry reg" "\<forall>(now, others) \<in> set sched. \<forall>g. wf_registry g \<longrightarrow> wf_registry (others g)"
    and "\<exists>(now, others) \<in> set sched. deadline \<le> now"
  shows "\<exists>g reg'. request_loop sched r i s deadline reg = Some (g, reg') \<and>
    (if g = Failure then fst (try_request reg' r i s) = None else is_success g \<and> holds reg' r i)"
  using assms
proof (induction sched arbitrary: reg)
  case (Cons a sched)
  obtain now others where a: "a = (now, others)" by (cases a)
  obtain g reg' where t: "try_request reg r i s = (g, reg')" by (cases "try_request reg r i s")
  have wf': "wf_registry reg'"
    using try_request_wf[OF Cons.prems(1), of r i s] t by simp
  show ?case
  proof (cases g)
    case None
    then have "fst (try_request reg' r i s) = None"
      using try_request_refused_again[OF Cons.prems(1), of r i s] t by simp
    moreover have "\<not> deadline \<le> now \<Longrightarrow> \<exists>(now, others) \<in> set sched. deadline \<le> now"
      using Cons.prems(3) a by auto
    ultimately show ?thesis
      using Cons.IH[of "others reg'"] Cons.prems(2) wf' t None a by auto
  next
    case (Some g')
    then have "g' = SuccessExclusive \<or> g' = SuccessShared"
      using t by (auto simp: try_request_eq try_table_def try_exclusive_def try_shared_def Let_def
          split: option.splits if_splits)
    moreover have "holds reg' r i"
      using registry.hold_acquire[OF Cons.prems(1), of r i s r i] t Some by simp
    ultimately show ?thesis
      using t Some a by (auto simp: is_success_def)
  qed
qed simp

lemma reachable_new: "reachable_registry new_registry"
  by (simp add: reachable_registry_def run_refl)

lemma reachable_request: "reachable_registry reg \<Longrightarrow> reachable_registry (snd (try_request reg r i s))"
  unfolding reachable_registry_def by (rule run_step[OF _ _ step_request[OF prod.collapse[symmetric]]]) auto

lemma lock_run_request: "who i \<Longrightarrow> lock_run who reg (snd (try_request reg r i s))"
  by (rule run_step[OF run_refl _ step_request[OF prod.collapse[symmetric]]])

lemma lock_run_release: "who i \<Longrightarrow> lock_run who reg (snd (release reg r i))"
  by (rule run_step[OF run_refl _ step_release[OF prod.collapse[symmetric]]])

section \<open>Properties\<close>

text \<open>C1. An exclusive lock excludes everyone else for as long as its holder keeps it: once session
  \<open>i\<close> has been granted the exclusive lock on \<open>r\<close>, whatever requests, releases and disconnects the
  other sessions perform afterwards, in any order and on any resource, \<open>i\<close> is the only session
  with access to \<open>r\<close>.\<close>

theorem exclusive_lock_excludes:
  assumes "reachable_registry reg"
    and "fst (try_request reg r i []) \<noteq> None"
    and "lock_run (\<lambda>k. k \<noteq> i) (snd (try_request reg r i [])) reg'"
  shows "has_access reg' r j \<longleftrightarrow> j = i"
proof -
  have "wf_registry (snd (try_request reg r i []))"
    using reachable_wf[OF assms(1)] by (rule try_request_wf)
  moreover have "holds_exclusive (snd (try_request reg r i [])) r i"
    using registry.excl_acquire[OF reachable_wf[OF assms(1)], of r i "[]" r i] assms(2) by simp
  ultimately have "wf_registry reg' \<and> holds_exclusive reg' r i"
    using lock_run_keeps_exclusive[OF assms(3)] by simp
  then show ?thesis
    using registry.excl_locks_out by blast
qed

theorem exclusive_lock_excludes_witness:
  "has_access (snd (try_request (snd (try_request new_registry [103] 1 [])) [103] 2 [107])) [103] 2 \<longleftrightarrow>
     (2 :: holder_id) = 1"
proof (rule exclusive_lock_excludes[OF reachable_new])
  show "fst (try_request new_registry [103] 1 []) \<noteq> None"
    by code_simp
  show "lock_run (\<lambda>k. k \<noteq> 1) (snd (try_request new_registry [103] 1 []))
      (snd (try_request (snd (try_request new_registry [103] 1 [])) [103] 2 [107]))"
    by (rule lock_run_request) simp
qed

text \<open>Locks nest: on a resource nobody holds, after \<open>n\<close> requests of one session (exclusive, or
  shared under one name) and \<open>m \<le> n\<close> releases, the session holds the lock exactly when \<open>m < n\<close>. The
  depth counter is a \<^verbatim>\<open>u32\<close>, so this is stated for \<open>n < 2\<^sup>3\<^sup>2\<close>.\<close>

theorem locks_nest:
  assumes "reachable_registry reg" and "\<forall>j. \<not> holds reg r j" and "n < 2 ^ 32" and "m \<le> n"
  shows "holds (release_times m r i (request_times n r i s reg)) r j \<longleftrightarrow> m < n \<and> j = i"
proof -
  note wf = reachable_wf[OF assms(1)]
  have "table_at reg r = nested_table s i 0"
    using assms(2) not_empty_held[of "table_at reg r"] wf_empty[OF wf_table_at[OF wf], of r]
    by (auto simp: holds_table nested_table_def)
  with request_times_table[OF wf, of r s i n]
  have "wf_registry (request_times n r i s reg)" "table_at (request_times n r i s reg) r = nested_table s i n"
    by blast+
  then show ?thesis
    using release_times_table[of "request_times n r i s reg" r s i n m] assms(3,4)
    by (simp add: holds_table nested_held)
qed

theorem locks_nest_witness:
  "holds (release_times 1 [103] 7 (request_times 2 [103] 7 [] new_registry)) [103] 7"
  using locks_nest[OF reachable_new, of "[103]" 2 1 7 "[]" 7] by (simp add: holds_def new_registry_def)

text \<open>A session that ends takes exactly its own locks with it: after \<^const>\<open>release_all\<close> the session
  holds nothing on any resource, every other session holds what it held, resources only that session
  held are open to everybody, and the waiters were woken if anything was freed.\<close>

theorem release_all_frees_exactly_own:
  assumes "reachable_registry reg"
  shows "(holds (release_all reg i) r j \<longleftrightarrow> holds reg r j \<and> j \<noteq> i) \<and>
    ((\<forall>k. holds reg r k \<longrightarrow> k = i) \<longrightarrow> has_access (release_all reg i) r j) \<and>
    (holds reg r i \<longrightarrow> released (release_all reg i) = released reg + 1)"
proof -
  note wf = reachable_wf[OF assms]
  have "holds reg r i \<longrightarrow> released (release_all reg i) = released reg + 1"
    by (auto simp: release_all_released holds_def split: option.splits dest!: map_of_SomeD)
  then show ?thesis
    using registry.hold_rel_all[OF wf] registry.rel_all_frees[OF wf] by blast
qed

theorem release_all_frees_exactly_own_witness:
  "\<not> holds (release_all (snd (try_request new_registry [103] 1 [])) 1) [103] 1 \<and>
   has_access (release_all (snd (try_request new_registry [103] 1 [])) 1) [103] 2 \<and>
   released (release_all (snd (try_request new_registry [103] 1 [])) 1) =
     released (snd (try_request new_registry [103] 1 [])) + 1"
proof -
  have own: "holds (snd (try_request new_registry [103] 1 [])) [103] 1"
    by code_simp
  have only: "\<forall>k. holds (snd (try_request new_registry [103] 1 [])) [103] k \<longrightarrow> k = 1"
    using registry.hold_acquire[OF new_registry_wf, of "[103]" 1 "[]" "[103]"]
    by (simp add: holds_def new_registry_def)
  show ?thesis
    using own only
      release_all_frees_exactly_own[OF reachable_request[OF reachable_new], of "[103]" 1 "[]" 1 "[103]" 1]
      release_all_frees_exactly_own[OF reachable_request[OF reachable_new], of "[103]" 1 "[]" 1 "[103]" 2]
    by blast
qed

text \<open>A lock request is answered: once some turn of its loop finds the clock at or past the
  deadline, the request has returned. The answer is a success, and then the session holds a lock,
  or a failure, and then the resource conflicts with the request at that moment. What the other
  sessions do in between is arbitrary as long as it keeps the registry well-formed.\<close>

theorem request_is_answered:
  assumes "reachable_registry reg"
    and "\<forall>(now, others) \<in> set sched. \<forall>g. wf_registry g \<longrightarrow> wf_registry (others g)"
    and "\<exists>(now, others) \<in> set sched. start + timeout \<le> now"
  shows "\<exists>g reg'. request sched start reg r i s timeout = Some (g, reg') \<and>
    (if g = Failure then fst (try_request reg' r i s) = None else is_success g \<and> holds reg' r i)"
  unfolding request_def using reachable_wf[OF assms(1)] assms(2,3) by (rule request_loop_returns)

theorem request_is_answered_witness:
  "\<exists>g reg'. request [(5, \<lambda>g. g), (10, \<lambda>g. g)] 0 new_registry [103] 1 [] 10 = Some (g, reg') \<and>
    (if g = Failure then fst (try_request reg' [103] 1 []) = None else is_success g \<and> holds reg' [103] 1)"
  by (rule request_is_answered[OF reachable_new]) simp_all

text \<open>C36. No wake-up is lost between sessions. A waiter subscribes before it tests; if the test
  fails, be it for access or for a lock, and the other sessions then change the registry so that
  the same test would succeed, \<^verbatim>\<open>notify_waiters\<close> has been called since the subscription.\<close>

theorem no_lost_wakeup:
  assumes "reachable_registry reg" and "lock_run (\<lambda>k. k \<noteq> i) reg reg'"
    and "\<not> has_access reg r i \<and> has_access reg' r i \<or>
      fst (try_request reg r i s) = None \<and> fst (try_request reg' r i s) \<noteq> None"
  shows "released reg < released reg'"
  using lock_run_quiet[OF assms(2) _ reachable_wf[OF assms(1)], of i r s] assms(3)
    lock_run_released[OF assms(2)]
  by (metis le_neq_implies_less)

theorem no_lost_wakeup_witness:
  "released (snd (try_request new_registry [103] 1 [])) <
   released (snd (release (snd (try_request new_registry [103] 1 [])) [103] 1))"
proof (rule no_lost_wakeup[where i = 2 and r = "[103]" and s = "[]", OF reachable_request[OF reachable_new]])
  show "lock_run (\<lambda>k. k \<noteq> 2) (snd (try_request new_registry [103] 1 []))
      (snd (release (snd (try_request new_registry [103] 1 [])) [103] 1))"
    by (rule lock_run_release) simp
qed code_simp

text \<open>A grant to a session does not wake that session's own parked I/O: when a session without
  access is granted a shared lock, it has access from then on, but the waiters are not notified, so
  a \<^const>\<open>wait_for_access\<close> of the same session stays asleep until some other lock is released.\<close>

theorem own_grant_wakes_nobody:
  assumes "reachable_registry reg" and "\<not> has_access reg r i" and "fst (try_request reg r i s) \<noteq> None"
  shows "has_access (snd (try_request reg r i s)) r i \<and>
    released (snd (try_request reg r i s)) = released reg"
proof -
  have "holds (snd (try_request reg r i s)) r i"
    using registry.hold_acquire[OF reachable_wf[OF assms(1)], of r i s r i] assms(3) by simp
  then show ?thesis
    using has_access_iff[OF try_request_wf[OF reachable_wf[OF assms(1)]]] by simp
qed

theorem own_grant_wakes_nobody_witness:
  "has_access (snd (try_request (snd (try_request new_registry [103] 1 [107])) [103] 2 [107])) [103] 2 \<and>
   released (snd (try_request (snd (try_request new_registry [103] 1 [107])) [103] 2 [107])) =
     released (snd (try_request new_registry [103] 1 [107]))"
  by (rule own_grant_wakes_nobody[OF reachable_request[OF reachable_new]]) code_simp+

lemma hislip_id_alt: "hislip_id a = push_bit 32 1 OR ucast a"
  by (simp add: hislip_id_def)

lemma vxi11_id_alt: "vxi11_id a = push_bit 33 1 OR ucast a"
  by (simp add: vxi11_id_def)

lemma ucast_hislip_id: "ucast (hislip_id a) = a"
  unfolding hislip_id_alt by (rule bit_word_eqI) (simp only: bit_simps, auto)

lemma ucast_vxi11_id: "ucast (vxi11_id a) = a"
  unfolding vxi11_id_alt by (rule bit_word_eqI) (simp only: bit_simps, auto)

lemma hislip_id_inject [simp]: "hislip_id a = hislip_id b \<longleftrightarrow> a = b"
  by (metis ucast_hislip_id)

lemma vxi11_id_inject [simp]: "vxi11_id a = vxi11_id b \<longleftrightarrow> a = b"
  by (metis ucast_vxi11_id)

lemma hislip_not_vxi11 [simp]: "hislip_id a \<noteq> vxi11_id b" "vxi11_id b \<noteq> hislip_id a"
proof -
  have "\<not> bit (hislip_id a) 33" "bit (vxi11_id b) 33"
    unfolding hislip_id_alt vxi11_id_alt by (auto simp: bit_simps dest: bit_imp_le_length)
  then show "hislip_id a \<noteq> vxi11_id b" "vxi11_id b \<noteq> hislip_id a"
    by metis+
qed

text \<open>The identities the two front-ends use never collide, and each names one session or
  link.\<close>

theorem holder_ids_disjoint:
  "hislip_id sid \<noteq> vxi11_id lid \<and> (hislip_id sid = hislip_id sid' \<longleftrightarrow> sid = sid') \<and>
   (vxi11_id lid = vxi11_id lid' \<longleftrightarrow> lid = lid')"
  by simp

end
