(* ===== verification/Xdr.thy ===== *)
theory Xdr
  imports Prelude
begin

text \<open>
  The XDR subset of \<^verbatim>\<open>src/src/vxi11/xdr.rs\<close>: the \<^verbatim>\<open>put_*\<close> writers and the strict \<^verbatim>\<open>Cursor\<close> reader.
  A reader method that advances the cursor returns the value and the new cursor.
\<close>

section \<open>Writers\<close>

datatype xdr_error = Truncated | TooLong (too_len: u32) (too_max: u32) | BadBool u32

definition pad_of :: "nat \<Rightarrow> nat" where
  "pad_of len = (4 - len mod 4) mod 4"

definition put_u32 :: "bytes \<Rightarrow> u32 \<Rightarrow> bytes" where
  "put_u32 buf v = buf @ be32 v"

definition put_i32 :: "bytes \<Rightarrow> i32 \<Rightarrow> bytes" where
  "put_i32 buf v = buf @ be32 v"

definition put_bool :: "bytes \<Rightarrow> bool \<Rightarrow> bytes" where
  "put_bool buf v = put_u32 buf (if v then 1 else 0)"

definition put_opaque :: "bytes \<Rightarrow> bytes \<Rightarrow> bytes" where
  "put_opaque buf d = put_u32 buf (of_nat (length d)) @ d @ replicate (pad_of (length d)) 0"

section \<open>The cursor\<close>

text \<open>\<open>cur_data\<close> is the borrowed slice and \<open>cur_pos\<close> the read position. A slice is never longer than
  \<^verbatim>\<open>usize::MAX\<close>, so the overflow that \<^verbatim>\<open>checked_add\<close> guards against in \<^verbatim>\<open>take\<close> is one of the cases
  in which the end lies beyond the slice, and both give the same error.\<close>

record cursor =
  cur_data :: bytes
  cur_pos :: nat

definition new_cursor :: "bytes \<Rightarrow> cursor" where
  "new_cursor d = \<lparr>cur_data = d, cur_pos = 0\<rparr>"

definition cur_take :: "nat \<Rightarrow> cursor \<Rightarrow> (xdr_error, bytes \<times> cursor) result" where
  "cur_take n c =
     (let e = cur_pos c + n
      in if e > length (cur_data c) then Inl Truncated
         else Inr (take n (drop (cur_pos c) (cur_data c)), c\<lparr>cur_pos := e\<rparr>))"

definition cur_u32 :: "cursor \<Rightarrow> (xdr_error, u32 \<times> cursor) result" where
  "cur_u32 c = rbind (cur_take 4 c) (\<lambda>(b, c). Inr (of_be b, c))"

definition cur_i32 :: "cursor \<Rightarrow> (xdr_error, i32 \<times> cursor) result" where
  "cur_i32 c = rbind (cur_take 4 c) (\<lambda>(b, c). Inr (of_be b, c))"

definition cur_bool :: "cursor \<Rightarrow> (xdr_error, bool \<times> cursor) result" where
  "cur_bool c = rbind (cur_u32 c) (\<lambda>(v, c).
     if v = 0 then Inr (False, c) else if v = 1 then Inr (True, c) else Inl (BadBool v))"

definition cur_opaque :: "u32 \<Rightarrow> cursor \<Rightarrow> (xdr_error, bytes \<times> cursor) result" where
  "cur_opaque max_len c = rbind (cur_u32 c) (\<lambda>(len, c).
     if len > max_len then Inl (TooLong len max_len)
     else rbind (cur_take (unat len) c) (\<lambda>(d, c).
       rbind (cur_take (pad_of (unat len)) c) (\<lambda>(_, c). Inr (d, c))))"

definition cur_remaining :: "cursor \<Rightarrow> nat" where
  "cur_remaining c = length (cur_data c) - cur_pos c"

definition cur_rest :: "cursor \<Rightarrow> bytes \<times> cursor" where
  "cur_rest c = (drop (cur_pos c) (cur_data c), c\<lparr>cur_pos := length (cur_data c)\<rparr>)"

section \<open>Cursors as split inputs\<close>

text \<open>A cursor that has read \<open>pre\<close> and has \<open>suf\<close> before it; every cursor the decoders reach is one.\<close>

definition cur :: "bytes \<Rightarrow> bytes \<Rightarrow> cursor" where
  "cur pre suf = \<lparr>cur_data = pre @ suf, cur_pos = length pre\<rparr>"

definition opaque_bytes :: "bytes \<Rightarrow> bytes" where
  "opaque_bytes d = be32 (of_nat (length d)) @ d @ replicate (pad_of (length d)) 0"

lemma new_cursor_cur: "new_cursor d = cur [] d"
  by (simp add: new_cursor_def cur_def)

lemma cur_take_cur:
  "cur_take n (cur pre suf) =
     (if n > length suf then Inl Truncated else Inr (take n suf, cur (pre @ take n suf) (drop n suf)))"
  by (auto simp: cur_take_def cur_def)

lemma cur_take_append [wire]:
  "n = length d \<Longrightarrow> cur_take n (cur pre (d @ suf)) = Inr (d, cur (pre @ d) suf)"
  by (simp add: cur_take_cur)

lemma cur_u32_append [wire]: "cur_u32 (cur pre (be32 v @ suf)) = Inr (v, cur (pre @ be32 v) suf)"
  by (simp add: cur_u32_def cur_take_append)

lemma cur_i32_append [wire]: "cur_i32 (cur pre (be32 v @ suf)) = Inr (v, cur (pre @ be32 v) suf)"
  by (simp add: cur_i32_def cur_take_append)

lemma cur_u32_end [wire]: "cur_u32 (cur pre (be32 v)) = Inr (v, cur (pre @ be32 v) [])"
  using cur_u32_append[of pre v "[]"] by simp

lemma cur_i32_end [wire]: "cur_i32 (cur pre (be32 v)) = Inr (v, cur (pre @ be32 v) [])"
  using cur_i32_append[of pre v "[]"] by simp

lemma cur_bool_append [wire]:
  "cur_bool (cur pre (be32 (if v then 1 else 0) @ suf)) = Inr (v, cur (pre @ be32 (if v then 1 else 0)) suf)"
  by (simp add: cur_bool_def cur_u32_append)

lemma cur_rest_cur [wire]: "cur_rest (cur pre suf) = (suf, cur (pre @ suf) [])"
  by (simp add: cur_rest_def cur_def)

lemma cur_remaining_cur: "cur_remaining (cur pre suf) = length suf"
  by (simp add: cur_remaining_def cur_def)

lemma pad_of_less: "pad_of n < 4"
  by (simp add: pad_of_def)

lemma pad_of_align [wire_len]: "(n + pad_of n) mod 4 = 0"
proof -
  have "pad_of n = (if n mod 4 = 0 then 0 else 4 - n mod 4)"
    by (simp add: pad_of_def)
  then show ?thesis
    using mod_less_divisor[of 4 n] mult_div_mod_eq[of 4 n] by (auto simp: mod_eq_0_iff_dvd) presburger
qed

lemma length_opaque_bytes [wire_len]: "length (opaque_bytes d) = 4 + length d + pad_of (length d)"
  by (simp add: opaque_bytes_def)

lemma opaque_bytes_align [wire_len]: "length (opaque_bytes d) mod 4 = 0"
proof -
  have "(4 + length d + pad_of (length d)) mod 4 = (length d + pad_of (length d)) mod 4"
    by presburger
  then show ?thesis
    by (simp add: length_opaque_bytes pad_of_align)
qed

text \<open>The reader on an opaque whose padding is any bytes at all.\<close>

lemma cur_opaque_padded:
  assumes "length d \<le> unat m" "length pad = pad_of (length d)"
  shows "cur_opaque m (cur pre (be32 (of_nat (length d)) @ d @ pad @ suf)) =
    Inr (d, cur (pre @ be32 (of_nat (length d)) @ d @ pad) suf)"
proof -
  have "length d < 2 ^ 32"
    using assms(1) unsigned_less[of m, where 'a = nat] by simp
  then have u: "unat (of_nat (length d) :: u32) = length d"
    using of_nat_unat_len[where 'a = 32] by simp
  then have "\<not> (of_nat (length d) :: u32) > m"
    using assms(1) by (simp add: word_less_nat_alt)
  then show ?thesis
    using assms(2) u by (simp add: cur_opaque_def cur_u32_append cur_take_append)
qed

lemma cur_opaque_append [wire]:
  "length d \<le> unat m \<Longrightarrow>
   cur_opaque m (cur pre (opaque_bytes d @ suf)) = Inr (d, cur (pre @ opaque_bytes d) suf)"
  using cur_opaque_padded[of d m "replicate (pad_of (length d)) 0" pre suf]
  by (simp add: opaque_bytes_def)

lemma cur_opaque_end [wire]:
  "length d \<le> unat m \<Longrightarrow>
   cur_opaque m (cur pre (opaque_bytes d)) = Inr (d, cur (pre @ opaque_bytes d) [])"
  using cur_opaque_append[of d m pre "[]"] by simp

lemma put_opaque_bytes: "put_opaque buf d = buf @ opaque_bytes d"
  by (simp add: put_opaque_def put_u32_def opaque_bytes_def)

lemmas put_simps = put_u32_def put_i32_def put_bool_def put_opaque_bytes

section \<open>What a successful read says about the input\<close>

definition input :: "cursor \<Rightarrow> bytes" where
  "input c = drop (cur_pos c) (cur_data c)"

lemma input_new [simp]: "input (new_cursor d) = d"
  by (simp add: input_def new_cursor_def)

lemma cur_take_input:
  assumes "cur_take n c = Inr (d, c')"
  shows "input c = d @ input c' \<and> length d = n"
proof -
  from assms have c': "c' = c\<lparr>cur_pos := cur_pos c + n\<rparr>" and d: "d = take n (input c)"
    and n: "cur_pos c + n \<le> length (cur_data c)"
    by (auto simp: cur_take_def input_def Let_def split: if_splits)
  have "input c' = drop n (input c)"
    by (simp add: c' input_def add.commute)
  then have "input c = d @ input c'"
    by (simp add: d)
  moreover have "length d = n"
    using n by (simp add: d input_def)
  ultimately show ?thesis ..
qed

lemma cur_u32_input:
  assumes "cur_u32 c = Inr (v, c')"
  shows "input c = be32 v @ input c'"
proof -
  from assms obtain b where "cur_take 4 c = Inr (b, c')" "v = of_be b"
    by (auto simp: cur_u32_def rbind_Inr_iff)
  then show ?thesis
    using cur_take_input[of 4 c b c'] to_be_of_be[of b, where 'a = 32] by auto
qed

lemma cur_opaque_input:
  assumes "cur_opaque m c = Inr (d, c')"
  shows "\<exists>pad. length pad = pad_of (length d) \<and> length d \<le> unat m \<and>
     input c = be32 (of_nat (length d)) @ d @ pad @ input c'"
proof -
  from assms obtain len c1 c2 pad where r: "cur_u32 c = Inr (len, c1)" "cur_take (unat len) c1 = Inr (d, c2)"
      "cur_take (pad_of (unat len)) c2 = Inr (pad, c')" and "len \<le> m"
    by (auto simp: cur_opaque_def rbind_Inr_iff split: if_splits)
  with cur_u32_input[OF r(1)] cur_take_input[OF r(2)] cur_take_input[OF r(3)] show ?thesis
    by (auto simp: word_le_nat_alt)
qed

end
