(* ===== verification/Byte_Stream.thy ===== *)
theory Byte_Stream
  imports Prelude
begin

text \<open>
  A TCP connection as its reader sees it: the bytes that are still to come and how the stream ends,
  with \<^verbatim>\<open>read_exact\<close> as the standard runtime defines it. The peer either closes the connection in an
  orderly way, which a short read reports as \<^verbatim>\<open>UnexpectedEof\<close>, or the connection breaks with an error.
\<close>

datatype io_error = UnexpectedEof | InvalidData | InvalidInput | OtherIo nat

record stream =
  pending :: bytes
  broken :: "io_error option"

definition end_error :: "stream \<Rightarrow> io_error" where
  "end_error s = (case broken s of None \<Rightarrow> UnexpectedEof | Some e \<Rightarrow> e)"

definition read_exact :: "nat \<Rightarrow> stream \<Rightarrow> (io_error, bytes \<times> stream) result" where
  "read_exact n s =
     (if n \<le> length (pending s) then Inr (take n (pending s), s\<lparr>pending := drop n (pending s)\<rparr>)
      else Inl (end_error s))"

text \<open>The stream that has \<open>bs\<close> in front of \<open>s\<close>.\<close>

text \<open>What is at the other end of a connection, as a client sees it: it takes the bytes that were just written and what the
  client had not read yet, and gives what the client can then read, or \<^const>\<open>None\<close> while the answer does not come.
  Nothing more to read is the end of the stream.\<close>

type_synonym 'p peer = "bytes \<Rightarrow> stream \<Rightarrow> 'p \<Rightarrow> (io_error, stream \<times> 'p) result option"

definition feed :: "bytes \<Rightarrow> stream \<Rightarrow> stream" where
  "feed bs s = s\<lparr>pending := bs @ pending s\<rparr>"

lemma feed_Nil [simp]: "feed [] s = s"
  by (simp add: feed_def)

lemma feed_append [simp]: "feed (a @ b) s = feed a (feed b s)"
  by (simp add: feed_def)

lemma pending_feed [simp]: "pending (feed bs s) = bs @ pending s"
  by (simp add: feed_def)

lemma broken_feed [simp]: "broken (feed bs s) = broken s"
  by (simp add: feed_def)

lemma read_exact_feed [wire]: "n = length bs \<Longrightarrow> read_exact n (feed bs s) = Inr (bs, s)"
  by (simp add: read_exact_def feed_def)

lemma read_exact_0 [simp]: "read_exact 0 s = Inr ([], s)"
  by (simp add: read_exact_def)

lemma read_exact_shrinks:
  "read_exact n s = Inr (bs, s') \<Longrightarrow> length (pending s) = n + length (pending s') \<and> length bs = n"
  by (auto simp: read_exact_def split: if_splits)

lemma read_exact_split: "read_exact n s = Inr (bs, s') \<Longrightarrow> s = feed bs s'"
  by (auto simp: read_exact_def feed_def split: if_splits)

lemma read_exact_short:
  "length (pending s) < n \<Longrightarrow> read_exact n s = Inl (end_error s)"
  by (simp add: read_exact_def)

section \<open>Framed streams\<close>

text \<open>
  The contract of a message framing: reading what was written gives it back and leaves the rest of
  the stream alone. From it follows that any sequence of messages is read back in order, and that no
  two sequences of the same length share a byte stream.
\<close>

locale framing =
  fixes ok :: "'p \<Rightarrow> bool"
    and emit :: "'p \<Rightarrow> bytes"
    and recv :: "stream \<Rightarrow> ('e, 'p \<times> stream) result"
  assumes recv_emit: "ok p \<Longrightarrow> recv (feed (emit p) s) = Inr (p, s)"
begin

primrec recv_n :: "nat \<Rightarrow> stream \<Rightarrow> ('e, 'p list \<times> stream) result" where
  "recv_n 0 s = Inr ([], s)"
| "recv_n (Suc n) s = rbind (recv s) (\<lambda>(p, s). rbind (recv_n n s) (\<lambda>(ps, s). Inr (p # ps, s)))"

lemma recv_all_emitted: "list_all ok ps \<Longrightarrow> recv_n (length ps) (feed (concat (map emit ps)) s) = Inr (ps, s)"
  by (induction ps) (simp_all add: recv_emit)

lemma emit_prefix_free: "ok p \<Longrightarrow> ok q \<Longrightarrow> emit p @ bs = emit q @ cs \<Longrightarrow> p = q \<and> bs = cs"
proof -
  assume "ok p" "ok q" and eq: "emit p @ bs = emit q @ cs"
  let ?s = "\<lambda>bs. \<lparr>pending = bs, broken = None\<rparr>"
  have "recv (?s (emit p @ bs)) = Inr (p, ?s bs)"
    using recv_emit[OF \<open>ok p\<close>, of "?s bs"] by (simp add: feed_def)
  moreover have "recv (?s (emit q @ cs)) = Inr (q, ?s cs)"
    using recv_emit[OF \<open>ok q\<close>, of "?s cs"] by (simp add: feed_def)
  ultimately have "(p, ?s bs) = (q, ?s cs)"
    by (simp only: eq sum.inject)
  then show ?thesis
    by simp
qed

end

end
