(* ===== verification/Rpc.thy ===== *)
theory Rpc
  imports Xdr Byte_Stream
begin

text \<open>
  ONC RPC version 2 as \<^verbatim>\<open>src/src/vxi11/rpc.rs\<close> implements it: call and reply messages in both
  directions, and the record marking that frames them on TCP.
\<close>

section \<open>Constants and data\<close>

abbreviation RPC_VERSION :: u32 where "RPC_VERSION \<equiv> 2"
abbreviation AUTH_BODY_MAX :: u32 where "AUTH_BODY_MAX \<equiv> 400"
abbreviation CALL :: u32 where "CALL \<equiv> 0"
abbreviation REPLY :: u32 where "REPLY \<equiv> 1"
abbreviation MSG_ACCEPTED :: u32 where "MSG_ACCEPTED \<equiv> 0"
abbreviation MSG_DENIED :: u32 where "MSG_DENIED \<equiv> 1"
abbreviation SUCCESS :: u32 where "SUCCESS \<equiv> 0"
abbreviation PROG_UNAVAIL :: u32 where "PROG_UNAVAIL \<equiv> 1"
abbreviation PROG_MISMATCH :: u32 where "PROG_MISMATCH \<equiv> 2"
abbreviation PROC_UNAVAIL :: u32 where "PROC_UNAVAIL \<equiv> 3"
abbreviation GARBAGE_ARGS :: u32 where "GARBAGE_ARGS \<equiv> 4"
abbreviation SYSTEM_ERR :: u32 where "SYSTEM_ERR \<equiv> 5"
abbreviation RPC_MISMATCH :: u32 where "RPC_MISMATCH \<equiv> 0"
abbreviation AUTH_NONE :: u32 where "AUTH_NONE \<equiv> 0"
definition RECORD_MAX :: nat where "RECORD_MAX = 32 * 1024 * 1024"

record call_header =
  ch_xid :: u32
  ch_prog :: u32
  ch_vers :: u32
  ch_proc :: u32

datatype call_error = Garbled xdr_error | NotACall u32 | RpcVersion u32 u32

datatype reply_body = Success bytes | Accepted u32 | Denied u32

datatype reply_error = ReplyGarbled xdr_error | WrongXid u32 u32 | NotAReply u32

section \<open>Calls\<close>

definition skip_auth :: "cursor \<Rightarrow> (xdr_error, cursor) result" where
  "skip_auth c = rbind (cur_u32 c) (\<lambda>(_, c). rbind (cur_opaque AUTH_BODY_MAX c) (\<lambda>(_, c). Inr c))"

definition decode_call_rest :: "u32 \<Rightarrow> cursor \<Rightarrow> (xdr_error, call_header \<times> cursor) result" where
  "decode_call_rest xid c =
     rbind (cur_u32 c) (\<lambda>(prog, c). rbind (cur_u32 c) (\<lambda>(vers, c). rbind (cur_u32 c) (\<lambda>(proc, c).
       rbind (skip_auth c) (\<lambda>c. rbind (skip_auth c) (\<lambda>c.
         Inr (\<lparr>ch_xid = xid, ch_prog = prog, ch_vers = vers, ch_proc = proc\<rparr>, c))))))"

definition decode_call :: "bytes \<Rightarrow> (call_error, call_header \<times> bytes) result" where
  "decode_call rec =
     rbind (map_err Garbled (cur_u32 (new_cursor rec))) (\<lambda>(xid, c).
     rbind (map_err Garbled (cur_u32 c)) (\<lambda>(mtype, c).
       if mtype \<noteq> CALL then Inl (NotACall xid)
       else rbind (map_err Garbled (cur_u32 c)) (\<lambda>(rpcvers, c).
         if rpcvers \<noteq> RPC_VERSION then Inl (RpcVersion xid rpcvers)
         else (case decode_call_rest xid c of
                 Inr (header, c) \<Rightarrow> Inr (header, fst (cur_rest c))
               | Inl e \<Rightarrow> Inl (Garbled e)))))"

definition put_auth_none :: "bytes \<Rightarrow> bytes" where
  "put_auth_none buf = put_opaque (put_u32 buf AUTH_NONE) []"

definition encode_call :: "u32 \<Rightarrow> u32 \<Rightarrow> u32 \<Rightarrow> u32 \<Rightarrow> bytes \<Rightarrow> bytes" where
  "encode_call xid prog vers proc args =
     put_auth_none (put_auth_none
       (put_u32 (put_u32 (put_u32 (put_u32 (put_u32 (put_u32 [] xid) CALL) RPC_VERSION) prog) vers) proc))
     @ args"

section \<open>Replies\<close>

definition accepted :: "u32 \<Rightarrow> u32 \<Rightarrow> bytes" where
  "accepted xid stat =
     put_u32 (put_opaque (put_u32 (put_u32 (put_u32 (put_u32 [] xid) REPLY) MSG_ACCEPTED) AUTH_NONE) []) stat"

definition reply_success :: "u32 \<Rightarrow> bytes \<Rightarrow> bytes" where
  "reply_success xid results = accepted xid SUCCESS @ results"

definition reply_prog_unavail :: "u32 \<Rightarrow> bytes" where
  "reply_prog_unavail xid = accepted xid PROG_UNAVAIL"

definition reply_prog_mismatch :: "u32 \<Rightarrow> u32 \<Rightarrow> u32 \<Rightarrow> bytes" where
  "reply_prog_mismatch xid low high = put_u32 (put_u32 (accepted xid PROG_MISMATCH) low) high"

definition reply_proc_unavail :: "u32 \<Rightarrow> bytes" where
  "reply_proc_unavail xid = accepted xid PROC_UNAVAIL"

definition reply_garbage_args :: "u32 \<Rightarrow> bytes" where
  "reply_garbage_args xid = accepted xid GARBAGE_ARGS"

definition reply_system_err :: "u32 \<Rightarrow> bytes" where
  "reply_system_err xid = accepted xid SYSTEM_ERR"

definition reply_rpc_mismatch :: "u32 \<Rightarrow> bytes" where
  "reply_rpc_mismatch xid =
     put_u32 (put_u32 (put_u32 (put_u32 (put_u32 (put_u32 [] xid) REPLY) MSG_DENIED) RPC_MISMATCH)
       RPC_VERSION) RPC_VERSION"

definition decode_reply :: "bytes \<Rightarrow> u32 \<Rightarrow> (reply_error, reply_body) result" where
  "decode_reply rec expect_xid =
     rbind (map_err ReplyGarbled (cur_u32 (new_cursor rec))) (\<lambda>(xid, c).
       if xid \<noteq> expect_xid then Inl (WrongXid xid expect_xid)
       else rbind (map_err ReplyGarbled (cur_u32 c)) (\<lambda>(mtype, c).
         if mtype \<noteq> REPLY then Inl (NotAReply mtype)
         else rbind (map_err ReplyGarbled (cur_u32 c)) (\<lambda>(stat, c).
           if stat = MSG_ACCEPTED then
             rbind (map_err ReplyGarbled (cur_u32 c)) (\<lambda>(_, c).
             rbind (map_err ReplyGarbled (cur_opaque AUTH_BODY_MAX c)) (\<lambda>(_, c).
             rbind (map_err ReplyGarbled (cur_u32 c)) (\<lambda>(stat, c).
               if stat = SUCCESS then Inr (Success (fst (cur_rest c))) else Inr (Accepted stat))))
           else if stat = MSG_DENIED then
             rbind (map_err ReplyGarbled (cur_u32 c)) (\<lambda>(stat, c). Inr (Denied stat))
           else Inl (NotAReply stat))))"

section \<open>Record marking\<close>

text \<open>One turn of the loop of \<^verbatim>\<open>read_record\<close> reads one fragment and takes at least its four header
  bytes off the stream. \<^const>\<open>None\<close> is the end of the connection.\<close>

function read_fragments ::
    "nat \<Rightarrow> bytes \<Rightarrow> stream \<Rightarrow> (io_error, bytes option \<times> stream) result" where
  "read_fragments max_len rec rd =
     (case read_exact 4 rd of
        Inl e \<Rightarrow> if e = UnexpectedEof \<and> rec = [] then Inr (None, rd) else Inl e
      | Inr (header, rd1) \<Rightarrow>
          let word = of_be header :: u32;
              last_fragment = has_flag word 0x80000000;
              len = unat (word AND 0x7FFFFFFF)
          in if min (length rec + len) usize_max > max_len then Inl InvalidData
             else (case read_exact len rd1 of
                     Inl e \<Rightarrow> Inl e
                   | Inr (d, rd2) \<Rightarrow>
                       if last_fragment then Inr (Some (rec @ d), rd2)
                       else read_fragments max_len (rec @ d) rd2))"
  by pat_completeness auto
termination
  by (relation "measure (\<lambda>(_, _, rd). length (pending rd))") (auto dest!: read_exact_shrinks)

declare read_fragments.simps [simp del]

definition read_record :: "nat \<Rightarrow> stream \<Rightarrow> (io_error, bytes option \<times> stream) result" where
  "read_record max_len rd = read_fragments max_len [] rd"

definition write_record :: "bytes \<Rightarrow> (io_error, bytes) result" where
  "write_record payload =
     (if length payload > 0x7FFFFFFF then Inl InvalidInput
      else Inr (be32 (0x80000000 OR of_nat (length payload)) @ payload))"

section \<open>Laws of calls and replies\<close>

lemma opaque_bytes_Nil: "opaque_bytes [] = be32 0"
  by (simp add: opaque_bytes_def pad_of_def)

lemma skip_auth_append [wire]:
  "length body \<le> 400 \<Longrightarrow>
   skip_auth (cur pre (be32 flavor @ opaque_bytes body @ suf)) =
     Inr (cur (pre @ be32 flavor @ opaque_bytes body) suf)"
  by (simp add: skip_auth_def wire)

lemma encode_call_bytes:
  "encode_call xid prog vers proc args =
     be32 xid @ be32 CALL @ be32 RPC_VERSION @ be32 prog @ be32 vers @ be32 proc @
     be32 AUTH_NONE @ opaque_bytes [] @ be32 AUTH_NONE @ opaque_bytes [] @ args"
  by (simp add: encode_call_def put_auth_none_def put_simps)

lemma decode_call_append [wire]:
  "length cred \<le> 400 \<Longrightarrow> length verf \<le> 400 \<Longrightarrow>
   decode_call (be32 xid @ be32 CALL @ be32 RPC_VERSION @ be32 prog @ be32 vers @ be32 proc @
     be32 f1 @ opaque_bytes cred @ be32 f2 @ opaque_bytes verf @ args) =
   Inr (\<lparr>ch_xid = xid, ch_prog = prog, ch_vers = vers, ch_proc = proc\<rparr>, args)"
  by (simp add: decode_call_def decode_call_rest_def new_cursor_cur wire)

lemma decode_call_rest_Inr:
  "decode_call_rest xid c = Inr (h, c') \<Longrightarrow>
   \<exists>c1 c2 c3 c4. cur_u32 c = Inr (ch_prog h, c1) \<and> cur_u32 c1 = Inr (ch_vers h, c2) \<and>
     cur_u32 c2 = Inr (ch_proc h, c3) \<and> skip_auth c3 = Inr c4 \<and> skip_auth c4 = Inr c' \<and> ch_xid h = xid"
  by (auto simp: decode_call_rest_def rbind_Inr_iff)

lemma case_garbled:
  "(case r of Inr (h, c) \<Rightarrow> Inr (f h c) | Inl e \<Rightarrow> Inl (g e)) = rbind (map_err g r) (\<lambda>(h, c). Inr (f h c))"
  by (auto split: sum.split)

lemma decode_call_Inr:
  "decode_call rec = Inr (h, args) \<Longrightarrow>
   \<exists>c1 c2 c3 c4. cur_u32 (new_cursor rec) = Inr (ch_xid h, c1) \<and> cur_u32 c1 = Inr (CALL, c2) \<and>
     cur_u32 c2 = Inr (RPC_VERSION, c3) \<and> decode_call_rest (ch_xid h) c3 = Inr (h, c4) \<and> args = input c4"
  unfolding decode_call_def case_garbled
  by (auto simp: rbind_Inr_iff map_err_Inr_iff cur_rest_def input_def
      dest: decode_call_rest_Inr split: if_split_asm)

lemma accepted_bytes:
  "accepted xid stat = be32 xid @ be32 REPLY @ be32 MSG_ACCEPTED @ be32 AUTH_NONE @ opaque_bytes [] @ be32 stat"
  by (simp add: accepted_def put_simps)

lemma decode_reply_accepted [wire]:
  "decode_reply (accepted xid stat @ suf) xid = Inr (if stat = SUCCESS then Success suf else Accepted stat)"
  by (simp add: accepted_bytes decode_reply_def new_cursor_cur wire)

lemma skip_auth_input:
  assumes "skip_auth c = Inr c'"
  shows "\<exists>a. input c = a @ input c' \<and> 8 \<le> length a \<and> length a mod 4 = 0"
proof -
  from assms obtain f b c1 where r: "cur_u32 c = Inr (f, c1)" "cur_opaque AUTH_BODY_MAX c1 = Inr (b, c')"
    by (auto simp: skip_auth_def rbind_Inr_iff)
  from cur_opaque_input[OF r(2)] obtain pad where pad: "length pad = pad_of (length b)"
      "input c1 = be32 (of_nat (length b)) @ b @ pad @ input c'" by blast
  have "(8 + length b + pad_of (length b)) mod 4 = (length b + pad_of (length b)) mod 4"
    by presburger
  then show ?thesis
    using cur_u32_input[OF r(1)] pad pad_of_align[of "length b"]
    by (intro exI[of _ "be32 f @ be32 (of_nat (length b)) @ b @ pad"]) (simp add: add.assoc)
qed

section \<open>Laws of record marking\<close>

text \<open>The header of a fragment of \<open>n\<close> bytes.\<close>

definition fragment :: "bool \<Rightarrow> bytes \<Rightarrow> bytes" where
  "fragment final d = be32 ((if final then 0x80000000 else 0) OR of_nat (length d)) @ d"

lemma header_len:
  assumes "n < 2 ^ 31"
  shows "unat (((if final then 0x80000000 else 0) OR of_nat n) AND 0x7FFFFFFF :: u32) = n"
proof -
  have m: "(0x7FFFFFFF :: u32) = mask 31" and h: "(0x80000000 :: u32) = push_bit 31 1"
    by (simp_all add: mask_eq_exp_minus_1)
  have "((if final then 0x80000000 else 0) OR of_nat n) AND 0x7FFFFFFF = (of_nat n :: u32)"
    unfolding m h using bit_of_nat_less[OF assms, where 'a = 32]
    by (intro bit_word_eqI) (cases final; simp only: bit_simps if_True if_False; auto simp: bit_simps)
  then show ?thesis
    using assms of_nat_unat_len[of n, where 'a = 32] by simp
qed

lemma header_flag:
  assumes "n < 2 ^ 31"
  shows "has_flag ((if final then 0x80000000 else 0) OR of_nat n :: u32) 0x80000000 \<longleftrightarrow> final"
proof -
  have "\<not> bit (of_nat n :: u32) 31"
    using bit_of_nat_less[OF assms, of 31] by auto
  moreover have "bit (0x80000000 :: u32) 31"
    by simp
  ultimately show ?thesis
    using has_flag_power[of _ 31, where 'a = 32] by (simp add: bit_or_iff)
qed

lemma read_fragments_step:
  assumes "length d < 2 ^ 31" "length rec + length d \<le> max_len"
  shows "read_fragments max_len rec (feed (fragment final d) s) =
    (if final then Inr (Some (rec @ d), s) else read_fragments max_len (rec @ d) s)"
  using assms header_len[OF assms(1), of final] header_flag[OF assms(1), of final]
  by (subst read_fragments.simps) (simp add: fragment_def read_exact_feed Let_def)

lemma read_fragments_all:
  "\<forall>f \<in> set fs. length f < 2 ^ 31 \<Longrightarrow> length l < 2 ^ 31 \<Longrightarrow>
   length rec + length (concat fs) + length l \<le> max_len \<Longrightarrow>
   read_fragments max_len rec (feed (concat (map (fragment False) fs) @ fragment True l) s) =
     Inr (Some (rec @ concat fs @ l), s)"
  by (induction fs arbitrary: rec) (simp_all add: read_fragments_step)

lemma read_fragments_Some:
  assumes "read_fragments m rec rd = Inr (Some r, rd')"
  obtains header rd1 d rd2 where "read_exact 4 rd = Inr (header, rd1)"
    and "read_exact (unat ((of_be header :: u32) AND 0x7FFFFFFF)) rd1 = Inr (d, rd2)"
    and "min (length (rec @ d)) usize_max \<le> m"
    and "r = rec @ d \<and> rd' = rd2 \<or> read_fragments m (rec @ d) rd2 = Inr (Some r, rd')"
proof -
  from assms obtain header rd1 where h: "read_exact 4 rd = Inr (header, rd1)"
    by (subst (asm) read_fragments.simps) (auto split: sum.splits if_splits)
  from assms h obtain d rd2 where d: "read_exact (unat ((of_be header :: u32) AND 0x7FFFFFFF)) rd1 = Inr (d, rd2)"
    by (subst (asm) read_fragments.simps) (auto simp: Let_def split: sum.splits if_splits)
  have len: "unat ((of_be header :: u32) AND 0x7FFFFFFF) = length d"
    using read_exact_shrinks[OF d] by simp
  have "min (length (rec @ d)) usize_max \<le> m \<and>
    (r = rec @ d \<and> rd' = rd2 \<or> read_fragments m (rec @ d) rd2 = Inr (Some r, rd'))"
    using assms h d[unfolded len]
    by (subst (asm) read_fragments.simps) (auto simp: Let_def len split: if_split_asm)
  then show thesis
    using that[OF h d] by simp
qed

lemma read_fragments_induct:
  assumes "read_fragments m rec rd = Inr (Some r, rd')"
    and "\<And>rec rd d rd2. length (pending rd2) < length (pending rd) \<Longrightarrow> min (length (rec @ d)) usize_max \<le> m \<Longrightarrow>
      r = rec @ d \<and> rd' = rd2 \<or> P (rec @ d) rd2 \<Longrightarrow> P rec rd"
  shows "P rec rd"
  using assms(1)
proof (induction "length (pending rd)" arbitrary: rec rd rule: less_induct)
  case less
  from less.prems show ?case
  proof (rule read_fragments_Some)
    fix header rd1 d rd2
    assume r: "read_exact 4 rd = Inr (header, rd1)"
      "read_exact (unat ((of_be header :: u32) AND 0x7FFFFFFF)) rd1 = Inr (d, rd2)"
      "min (length (rec @ d)) usize_max \<le> m"
      "r = rec @ d \<and> rd' = rd2 \<or> read_fragments m (rec @ d) rd2 = Inr (Some r, rd')"
    have shrinks: "length (pending rd2) < length (pending rd)"
      using read_exact_shrinks[OF r(1)] read_exact_shrinks[OF r(2)] by simp
    then have "r = rec @ d \<and> rd' = rd2 \<or> P (rec @ d) rd2"
      using less.hyps[OF shrinks] r(4) by auto
    then show ?thesis
      by (rule assms(2)[OF shrinks r(3)])
  qed
qed

lemma read_fragments_bounded:
  "read_fragments m rec rd = Inr (Some r, rd') \<Longrightarrow> m < usize_max \<Longrightarrow> length r \<le> m"
  by (erule read_fragments_induct) auto

lemma read_fragments_shrinks:
  "read_fragments m rec rd = Inr (Some r, rd') \<Longrightarrow> length (pending rd') < length (pending rd)"
  by (erule read_fragments_induct) auto

lemma read_record_shrinks:
  "read_record m rd = Inr (Some r, rd') \<Longrightarrow> length (pending rd') < length (pending rd)"
  by (simp add: read_record_def read_fragments_shrinks)

lemma write_record_fragment:
  "length p \<le> 0x7FFFFFFF \<Longrightarrow> write_record p = Inr (fragment True p)"
  by (simp add: write_record_def fragment_def)

text \<open>Records as a framed stream: the next record of a connection that is still open.\<close>

definition next_record :: "stream \<Rightarrow> (io_error, bytes \<times> stream) result" where
  "next_record rd = rbind (read_record RECORD_MAX rd) (\<lambda>(r, rd).
     case r of Some p \<Rightarrow> Inr (p, rd) | None \<Rightarrow> Inl UnexpectedEof)"

lemma next_record_fragment:
  "length p \<le> RECORD_MAX \<Longrightarrow> next_record (feed (fragment True p) s) = Inr (p, s)"
  by (simp add: next_record_def read_record_def read_fragments_step RECORD_MAX_def)

interpretation rpc_records: framing "\<lambda>p. length p \<le> RECORD_MAX" "fragment True" next_record
  by unfold_locales (rule next_record_fragment)

section \<open>Properties\<close>

text \<open>Calls survive the wire: what \<^const>\<open>encode_call\<close> writes, \<^const>\<open>decode_call\<close> reads back as the
  same header with the argument bytes untouched, and a decoded call has exactly the layout of RFC
  5531: fixed header words, two credential fields of whole words, then the arguments. \<close>

theorem call_roundtrip:
  "decode_call (encode_call xid prog vers proc args) =
     Inr (\<lparr>ch_xid = xid, ch_prog = prog, ch_vers = vers, ch_proc = proc\<rparr>, args) \<and>
   (decode_call rec = Inr (h, args') \<longrightarrow>
     (\<exists>auth. rec = be32 (ch_xid h) @ be32 0 @ be32 2 @ be32 (ch_prog h) @ be32 (ch_vers h) @
        be32 (ch_proc h) @ auth @ args' \<and> 16 \<le> length auth \<and> length auth mod 4 = 0))"
proof (intro conjI impI)
  show "decode_call (encode_call xid prog vers proc args) =
     Inr (\<lparr>ch_xid = xid, ch_prog = prog, ch_vers = vers, ch_proc = proc\<rparr>, args)"
    using decode_call_append[of "[]" "[]"] by (simp add: encode_call_bytes)
next
  assume "decode_call rec = Inr (h, args')"
  then obtain c1 c2 c3 c4 c5 c6 c7 c8 where
    r: "cur_u32 (new_cursor rec) = Inr (ch_xid h, c1)" "cur_u32 c1 = Inr (0, c2)" "cur_u32 c2 = Inr (2, c3)"
      "cur_u32 c3 = Inr (ch_prog h, c4)" "cur_u32 c4 = Inr (ch_vers h, c5)" "cur_u32 c5 = Inr (ch_proc h, c6)"
      "skip_auth c6 = Inr c7" "skip_auth c7 = Inr c8" and a: "args' = input c8"
    by (auto dest!: decode_call_Inr decode_call_rest_Inr)
  from skip_auth_input[OF r(7)] skip_auth_input[OF r(8)] obtain a1 a2 where
    "input c6 = a1 @ a2 @ input c8" "8 \<le> length a1" "8 \<le> length a2" "length a1 mod 4 = 0" "length a2 mod 4 = 0"
    by auto
  moreover from this have "length (a1 @ a2) mod 4 = 0"
    by (metis add_0 length_append mod_0 mod_add_eq)
  ultimately show "\<exists>auth. rec = be32 (ch_xid h) @ be32 0 @ be32 2 @ be32 (ch_prog h) @ be32 (ch_vers h) @
        be32 (ch_proc h) @ auth @ args' \<and> 16 \<le> length auth \<and> length auth mod 4 = 0"
    using r(1-6)[THEN cur_u32_input] a by (intro exI[of _ "a1 @ a2"]) simp
qed

theorem call_roundtrip_witness:
  "decode_call (encode_call 7 0x0607AF 1 10 [1, 2]) =
     Inr (\<lparr>ch_xid = 7, ch_prog = 0x0607AF, ch_vers = 1, ch_proc = 10\<rparr>, [1, 2]) \<and>
   (\<exists>auth. encode_call 7 0x0607AF 1 10 [1, 2] = be32 7 @ be32 0 @ be32 2 @ be32 0x0607AF @ be32 1 @
      be32 10 @ auth @ [1, 2] \<and> 16 \<le> length auth \<and> length auth mod 4 = 0)"
  using call_roundtrip[of 7 "0x0607AF" 1 10 "[1, 2]" "encode_call 7 0x0607AF 1 10 [1, 2]"
      "\<lparr>ch_xid = 7, ch_prog = 0x0607AF, ch_vers = 1, ch_proc = 10\<rparr>" "[1, 2]"]
  by simp

text \<open>Every reply the server can send is understood by the client decoder as what was meant: the
  results of a success, the accept status of each failure, and the denial of a foreign RPC version.
  A reply to another call is refused.\<close>

theorem reply_roundtrip:
  "decode_reply (reply_success xid results) xid = Inr (Success results) \<and>
   decode_reply (reply_prog_unavail xid) xid = Inr (Accepted PROG_UNAVAIL) \<and>
   decode_reply (reply_prog_mismatch xid low high) xid = Inr (Accepted PROG_MISMATCH) \<and>
   decode_reply (reply_proc_unavail xid) xid = Inr (Accepted PROC_UNAVAIL) \<and>
   decode_reply (reply_garbage_args xid) xid = Inr (Accepted GARBAGE_ARGS) \<and>
   decode_reply (reply_system_err xid) xid = Inr (Accepted SYSTEM_ERR) \<and>
   decode_reply (reply_rpc_mismatch xid) xid = Inr (Denied RPC_MISMATCH) \<and>
   (other \<noteq> xid \<longrightarrow> decode_reply (reply_success xid results) other = Inl (WrongXid xid other))"
proof -
  have acc: "decode_reply (accepted xid stat) xid = Inr (if stat = SUCCESS then Success [] else Accepted stat)" for stat
    using decode_reply_accepted[of xid stat "[]"] by simp
  have "decode_reply (reply_rpc_mismatch xid) xid = Inr (Denied RPC_MISMATCH)"
    by (simp add: reply_rpc_mismatch_def put_simps decode_reply_def new_cursor_cur wire)
  moreover have "decode_reply (reply_prog_mismatch xid low high) xid = Inr (Accepted PROG_MISMATCH)"
    using decode_reply_accepted[of xid PROG_MISMATCH "be32 low @ be32 high"]
    by (simp add: reply_prog_mismatch_def put_u32_def)
  moreover have "other \<noteq> xid \<Longrightarrow> decode_reply (reply_success xid results) other = Inl (WrongXid xid other)"
    by (simp add: reply_success_def accepted_bytes decode_reply_def new_cursor_cur wire)
  ultimately show ?thesis
    using decode_reply_accepted[of xid SUCCESS results] acc
    by (simp add: reply_success_def reply_prog_unavail_def reply_proc_unavail_def reply_garbage_args_def
        reply_system_err_def)
qed

theorem reply_roundtrip_witness:
  "decode_reply (reply_success 7 [1]) 8 = Inl (WrongXid 7 8)"
  using reply_roundtrip[of 7 "[1]" 0 0 8] by simp

text \<open>A record is reassembled from any fragmentation: whatever non-final fragments (empty ones
  included) precede the final one, as long as the total stays within the limit, the reader returns
  their concatenation and leaves the stream right behind the final fragment. A record it returns is
  never longer than the limit.\<close>

theorem record_reassembly:
  "((\<forall>f \<in> set (l # fs). length f < 2 ^ 31) \<and> length (concat fs @ l) \<le> max_len \<longrightarrow>
     read_record max_len (feed (concat (map (fragment False) fs) @ fragment True l) s) =
       Inr (Some (concat fs @ l), s)) \<and>
   (read_record max_len rd = Inr (Some r, rd') \<and> max_len < usize_max \<longrightarrow> length r \<le> max_len)"
  using read_fragments_all[of fs l "[]" max_len s] read_fragments_bounded[of max_len "[]" rd r rd']
  by (auto simp: read_record_def)

theorem record_reassembly_witness:
  "read_record 8 (feed (concat (map (fragment False) [[1], [], [2, 3]]) @ fragment True [4])
      \<lparr>pending = [9], broken = None\<rparr>) = Inr (Some [1, 2, 3, 4], \<lparr>pending = [9], broken = None\<rparr>) \<and>
   length [1, 2, 3, 4 :: u8] \<le> 8"
proof -
  let ?rd = "feed (concat (map (fragment False) [[1], [], [2, 3]]) @ fragment True [4])
      \<lparr>pending = [9], broken = None\<rparr>"
  have "read_record 8 ?rd = Inr (Some (concat [[1], [], [2, 3]] @ [4]), \<lparr>pending = [9], broken = None\<rparr>)"
    by (rule record_reassembly[THEN conjunct1, THEN mp]) simp
  moreover from this have "length (concat [[1], [], [2, 3]] @ [4 :: u8]) \<le> 8"
    by (intro record_reassembly[THEN conjunct2, THEN mp, of 8 ?rd]) (simp add: usize_max_def)
  ultimately show ?thesis
    by simp
qed

text \<open>The end of the connection is reported as an orderly hang-up not only between two records:
  a connection that ends inside the four header bytes of the first fragment, or after empty
  non-final fragments, is not told apart from it.\<close>

theorem hangup_inside_header:
  "broken rd = None \<and> length (pending rd) < 4 \<longrightarrow>
   (\<exists>rd'. read_record max_len (feed (concat (replicate n (fragment False []))) rd) = Inr (None, rd'))"
proof
  assume "broken rd = None \<and> length (pending rd) < 4"
  then have base: "read_fragments max_len [] rd = Inr (None, rd)"
    by (subst read_fragments.simps) (simp add: read_exact_short end_error_def)
  show "\<exists>rd'. read_record max_len (feed (concat (replicate n (fragment False []))) rd) = Inr (None, rd')"
    by (induction n) (simp_all add: read_record_def read_fragments_step base)
qed

theorem hangup_inside_header_witness:
  "\<exists>rd'. read_record 100 (feed (concat (replicate 1 (fragment False []))) \<lparr>pending = [0x80, 0], broken = None\<rparr>) =
     Inr (None, rd')"
  by (rule hangup_inside_header[THEN mp]) simp

end
