(* ===== verification/Vxi11_Messages.thy ===== *)
theory Vxi11_Messages
  imports Rpc
begin

text \<open>
  The VXI-11 argument and result structures of \<^verbatim>\<open>src/src/vxi11/messages.rs\<close>, each with its encoder and
  its decoder. Field names carry a prefix per structure, since the structures share names. A
  \<^verbatim>\<open>char\<close>, \<^verbatim>\<open>u8\<close> or \<^verbatim>\<open>u16\<close> field rides in a full word.
\<close>

abbreviation SRQ_HANDLE_MAX :: u32 where "SRQ_HANDLE_MAX \<equiv> 40"
abbreviation DEVICE_NAME_MAX :: u32 where "DEVICE_NAME_MAX \<equiv> 1024"
abbreviation DATA_MAX :: u32 where "DATA_MAX \<equiv> 4096"

section \<open>Structures\<close>

record create_link_parms =
  clp_client_id :: i32
  clp_lock_device :: bool
  clp_lock_timeout_ms :: u32
  clp_device :: bytes

definition encode_create_link_parms :: "create_link_parms \<Rightarrow> bytes \<Rightarrow> bytes" where
  "encode_create_link_parms p buf =
     put_opaque (put_u32 (put_bool (put_i32 buf (clp_client_id p)) (clp_lock_device p))
     (clp_lock_timeout_ms p)) (clp_device p)"

definition decode_create_link_parms :: "bytes \<Rightarrow> (xdr_error, create_link_parms) result" where
  "decode_create_link_parms d =
     rbind (cur_i32 (new_cursor d)) (\<lambda>(client_id, c).
     rbind (cur_bool c) (\<lambda>(lock_device, c).
     rbind (cur_u32 c) (\<lambda>(lock_timeout_ms, c).
     rbind (cur_opaque DEVICE_NAME_MAX c) (\<lambda>(device, c).
       Inr \<lparr>clp_client_id = client_id, clp_lock_device = lock_device, clp_lock_timeout_ms =
       lock_timeout_ms, clp_device = device\<rparr>))))"

record create_link_resp =
  clr_error :: u32
  clr_lid :: i32
  clr_abort_port :: u16
  clr_max_recv_size :: u32

definition encode_create_link_resp :: "create_link_resp \<Rightarrow> bytes" where
  "encode_create_link_resp p =
     put_u32 (put_u32 (put_i32 (put_u32 [] (clr_error p)) (clr_lid p)) (ucast (clr_abort_port p)))
     (clr_max_recv_size p)"

definition decode_create_link_resp :: "bytes \<Rightarrow> (xdr_error, create_link_resp) result" where
  "decode_create_link_resp d =
     rbind (cur_u32 (new_cursor d)) (\<lambda>(error, c).
     rbind (cur_i32 c) (\<lambda>(lid, c).
     rbind (cur_u32 c) (\<lambda>(abort_port, c).
     rbind (cur_u32 c) (\<lambda>(max_recv_size, c).
       Inr \<lparr>clr_error = error, clr_lid = lid, clr_abort_port = ucast abort_port,
       clr_max_recv_size = max_recv_size\<rparr>))))"

record device_write_parms =
  dwp_lid :: i32
  dwp_io_timeout_ms :: u32
  dwp_lock_timeout_ms :: u32
  dwp_flags :: u32
  dwp_data :: bytes

definition encode_device_write_parms :: "device_write_parms \<Rightarrow> bytes \<Rightarrow> bytes" where
  "encode_device_write_parms p buf =
     put_opaque (put_u32 (put_u32 (put_u32 (put_i32 buf (dwp_lid p)) (dwp_io_timeout_ms p))
     (dwp_lock_timeout_ms p)) (dwp_flags p)) (dwp_data p)"

definition decode_device_write_parms :: "bytes \<Rightarrow> u32 \<Rightarrow> (xdr_error, device_write_parms) result" where
  "decode_device_write_parms d max_data =
     rbind (cur_i32 (new_cursor d)) (\<lambda>(lid, c).
     rbind (cur_u32 c) (\<lambda>(io_timeout_ms, c).
     rbind (cur_u32 c) (\<lambda>(lock_timeout_ms, c).
     rbind (cur_u32 c) (\<lambda>(flags, c).
     rbind (cur_opaque max_data c) (\<lambda>(data, c).
       Inr \<lparr>dwp_lid = lid, dwp_io_timeout_ms = io_timeout_ms, dwp_lock_timeout_ms =
       lock_timeout_ms, dwp_flags = flags, dwp_data = data\<rparr>)))))"

record device_write_resp =
  dwr_error :: u32
  dwr_size :: u32

definition encode_device_write_resp :: "device_write_resp \<Rightarrow> bytes" where
  "encode_device_write_resp p =
     put_u32 (put_u32 [] (dwr_error p)) (dwr_size p)"

definition decode_device_write_resp :: "bytes \<Rightarrow> (xdr_error, device_write_resp) result" where
  "decode_device_write_resp d =
     rbind (cur_u32 (new_cursor d)) (\<lambda>(error, c).
     rbind (cur_u32 c) (\<lambda>(size, c).
       Inr \<lparr>dwr_error = error, dwr_size = size\<rparr>))"

record device_read_parms =
  drp_lid :: i32
  drp_request_size :: u32
  drp_io_timeout_ms :: u32
  drp_lock_timeout_ms :: u32
  drp_flags :: u32
  drp_term_char :: i32

definition encode_device_read_parms :: "device_read_parms \<Rightarrow> bytes \<Rightarrow> bytes" where
  "encode_device_read_parms p buf =
     put_i32 (put_u32 (put_u32 (put_u32 (put_u32 (put_i32 buf (drp_lid p)) (drp_request_size p))
     (drp_io_timeout_ms p)) (drp_lock_timeout_ms p)) (drp_flags p)) (drp_term_char p)"

definition decode_device_read_parms :: "bytes \<Rightarrow> (xdr_error, device_read_parms) result" where
  "decode_device_read_parms d =
     rbind (cur_i32 (new_cursor d)) (\<lambda>(lid, c).
     rbind (cur_u32 c) (\<lambda>(request_size, c).
     rbind (cur_u32 c) (\<lambda>(io_timeout_ms, c).
     rbind (cur_u32 c) (\<lambda>(lock_timeout_ms, c).
     rbind (cur_u32 c) (\<lambda>(flags, c).
     rbind (cur_i32 c) (\<lambda>(term_char, c).
       Inr \<lparr>drp_lid = lid, drp_request_size = request_size, drp_io_timeout_ms =
       io_timeout_ms, drp_lock_timeout_ms = lock_timeout_ms, drp_flags = flags, drp_term_char =
       term_char\<rparr>))))))"

record device_read_resp =
  drr_error :: u32
  drr_reason :: u32
  drr_data :: bytes

definition encode_device_read_resp :: "device_read_resp \<Rightarrow> bytes" where
  "encode_device_read_resp p =
     put_opaque (put_u32 (put_u32 [] (drr_error p)) (drr_reason p)) (drr_data p)"

definition decode_device_read_resp :: "bytes \<Rightarrow> u32 \<Rightarrow> (xdr_error, device_read_resp) result" where
  "decode_device_read_resp d max_data =
     rbind (cur_u32 (new_cursor d)) (\<lambda>(error, c).
     rbind (cur_u32 c) (\<lambda>(reason, c).
     rbind (cur_opaque max_data c) (\<lambda>(data, c).
       Inr \<lparr>drr_error = error, drr_reason = reason, drr_data = data\<rparr>)))"

record device_generic_parms =
  dgp_lid :: i32
  dgp_flags :: u32
  dgp_lock_timeout_ms :: u32
  dgp_io_timeout_ms :: u32

definition encode_device_generic_parms :: "device_generic_parms \<Rightarrow> bytes \<Rightarrow> bytes" where
  "encode_device_generic_parms p buf =
     put_u32 (put_u32 (put_u32 (put_i32 buf (dgp_lid p)) (dgp_flags p)) (dgp_lock_timeout_ms p))
     (dgp_io_timeout_ms p)"

definition decode_device_generic_parms :: "bytes \<Rightarrow> (xdr_error, device_generic_parms) result" where
  "decode_device_generic_parms d =
     rbind (cur_i32 (new_cursor d)) (\<lambda>(lid, c).
     rbind (cur_u32 c) (\<lambda>(flags, c).
     rbind (cur_u32 c) (\<lambda>(lock_timeout_ms, c).
     rbind (cur_u32 c) (\<lambda>(io_timeout_ms, c).
       Inr \<lparr>dgp_lid = lid, dgp_flags = flags, dgp_lock_timeout_ms = lock_timeout_ms,
       dgp_io_timeout_ms = io_timeout_ms\<rparr>))))"

record device_read_stb_resp =
  dsr_error :: u32
  dsr_stb :: u8

definition encode_device_read_stb_resp :: "device_read_stb_resp \<Rightarrow> bytes" where
  "encode_device_read_stb_resp p =
     put_u32 (put_u32 [] (dsr_error p)) (ucast (dsr_stb p))"

definition decode_device_read_stb_resp :: "bytes \<Rightarrow> (xdr_error, device_read_stb_resp) result" where
  "decode_device_read_stb_resp d =
     rbind (cur_u32 (new_cursor d)) (\<lambda>(error, c).
     rbind (cur_u32 c) (\<lambda>(stb, c).
       Inr \<lparr>dsr_error = error, dsr_stb = ucast stb\<rparr>))"

record device_lock_parms =
  dlp_lid :: i32
  dlp_flags :: u32
  dlp_lock_timeout_ms :: u32

definition encode_device_lock_parms :: "device_lock_parms \<Rightarrow> bytes \<Rightarrow> bytes" where
  "encode_device_lock_parms p buf =
     put_u32 (put_u32 (put_i32 buf (dlp_lid p)) (dlp_flags p)) (dlp_lock_timeout_ms p)"

definition decode_device_lock_parms :: "bytes \<Rightarrow> (xdr_error, device_lock_parms) result" where
  "decode_device_lock_parms d =
     rbind (cur_i32 (new_cursor d)) (\<lambda>(lid, c).
     rbind (cur_u32 c) (\<lambda>(flags, c).
     rbind (cur_u32 c) (\<lambda>(lock_timeout_ms, c).
       Inr \<lparr>dlp_lid = lid, dlp_flags = flags, dlp_lock_timeout_ms = lock_timeout_ms\<rparr>)))"

record device_enable_srq_parms =
  dep_lid :: i32
  dep_enable :: bool
  dep_handle :: bytes

definition encode_device_enable_srq_parms :: "device_enable_srq_parms \<Rightarrow> bytes \<Rightarrow> bytes" where
  "encode_device_enable_srq_parms p buf =
     put_opaque (put_bool (put_i32 buf (dep_lid p)) (dep_enable p)) (dep_handle p)"

definition decode_device_enable_srq_parms :: "bytes \<Rightarrow> (xdr_error, device_enable_srq_parms) result" where
  "decode_device_enable_srq_parms d =
     rbind (cur_i32 (new_cursor d)) (\<lambda>(lid, c).
     rbind (cur_bool c) (\<lambda>(enable, c).
     rbind (cur_opaque SRQ_HANDLE_MAX c) (\<lambda>(handle, c).
       Inr \<lparr>dep_lid = lid, dep_enable = enable, dep_handle = handle\<rparr>)))"

record device_remote_func =
  drf_host_addr :: u32
  drf_host_port :: u16
  drf_prog_num :: u32
  drf_prog_vers :: u32
  drf_prog_family :: u32

definition encode_device_remote_func :: "device_remote_func \<Rightarrow> bytes \<Rightarrow> bytes" where
  "encode_device_remote_func p buf =
     put_u32 (put_u32 (put_u32 (put_u32 (put_u32 buf (drf_host_addr p)) (ucast (drf_host_port p)))
     (drf_prog_num p)) (drf_prog_vers p)) (drf_prog_family p)"

definition decode_device_remote_func :: "bytes \<Rightarrow> (xdr_error, device_remote_func) result" where
  "decode_device_remote_func d =
     rbind (cur_u32 (new_cursor d)) (\<lambda>(host_addr, c).
     rbind (cur_u32 c) (\<lambda>(host_port, c).
     rbind (cur_u32 c) (\<lambda>(prog_num, c).
     rbind (cur_u32 c) (\<lambda>(prog_vers, c).
     rbind (cur_u32 c) (\<lambda>(prog_family, c).
       Inr \<lparr>drf_host_addr = host_addr, drf_host_port = ucast host_port, drf_prog_num =
       prog_num, drf_prog_vers = prog_vers, drf_prog_family = prog_family\<rparr>)))))"

record device_srq_parms =
  dsp_handle :: bytes

definition encode_device_srq_parms :: "device_srq_parms \<Rightarrow> bytes" where
  "encode_device_srq_parms p =
     put_opaque [] (dsp_handle p)"

definition decode_device_srq_parms :: "bytes \<Rightarrow> (xdr_error, device_srq_parms) result" where
  "decode_device_srq_parms d =
     rbind (cur_opaque SRQ_HANDLE_MAX (new_cursor d)) (\<lambda>(handle, c).
       Inr \<lparr>dsp_handle = handle\<rparr>)"

record device_docmd_parms =
  ddp_lid :: i32
  ddp_flags :: u32
  ddp_io_timeout_ms :: u32
  ddp_lock_timeout_ms :: u32
  ddp_cmd :: i32
  ddp_network_order :: bool
  ddp_datasize :: i32
  ddp_data_in :: bytes

definition encode_device_docmd_parms :: "device_docmd_parms \<Rightarrow> bytes \<Rightarrow> bytes" where
  "encode_device_docmd_parms p buf =
     put_opaque (put_i32 (put_bool (put_i32 (put_u32 (put_u32 (put_u32 (put_i32 buf (ddp_lid p))
     (ddp_flags p)) (ddp_io_timeout_ms p)) (ddp_lock_timeout_ms p)) (ddp_cmd p)) (ddp_network_order
     p)) (ddp_datasize p)) (ddp_data_in p)"

definition decode_device_docmd_parms :: "bytes \<Rightarrow> (xdr_error, device_docmd_parms) result" where
  "decode_device_docmd_parms d =
     rbind (cur_i32 (new_cursor d)) (\<lambda>(lid, c).
     rbind (cur_u32 c) (\<lambda>(flags, c).
     rbind (cur_u32 c) (\<lambda>(io_timeout_ms, c).
     rbind (cur_u32 c) (\<lambda>(lock_timeout_ms, c).
     rbind (cur_i32 c) (\<lambda>(cmd, c).
     rbind (cur_bool c) (\<lambda>(network_order, c).
     rbind (cur_i32 c) (\<lambda>(datasize, c).
     rbind (cur_opaque DATA_MAX c) (\<lambda>(data_in, c).
       Inr \<lparr>ddp_lid = lid, ddp_flags = flags, ddp_io_timeout_ms = io_timeout_ms,
       ddp_lock_timeout_ms = lock_timeout_ms, ddp_cmd = cmd, ddp_network_order = network_order,
       ddp_datasize = datasize, ddp_data_in = data_in\<rparr>))))))))"

record device_docmd_resp =
  ddr_error :: u32
  ddr_data_out :: bytes

definition encode_device_docmd_resp :: "device_docmd_resp \<Rightarrow> bytes" where
  "encode_device_docmd_resp p =
     put_opaque (put_u32 [] (ddr_error p)) (ddr_data_out p)"

definition decode_device_docmd_resp :: "bytes \<Rightarrow> (xdr_error, device_docmd_resp) result" where
  "decode_device_docmd_resp d =
     rbind (cur_u32 (new_cursor d)) (\<lambda>(error, c).
     rbind (cur_opaque DATA_MAX c) (\<lambda>(data_out, c).
       Inr \<lparr>ddr_error = error, ddr_data_out = data_out\<rparr>))"

definition encode_device_error :: "u32 \<Rightarrow> bytes" where
  "encode_device_error e = put_u32 [] e"

definition decode_device_error :: "bytes \<Rightarrow> (xdr_error, u32) result" where
  "decode_device_error d = rbind (cur_u32 (new_cursor d)) (\<lambda>(e, c). Inr e)"

section \<open>The contract of a structure\<close>

text \<open>
  A structure is written so that its decoder finds it again at the front of any input, and in whole
  words. So no encoding is a prefix of another one, and the structure survives the trip through an
  RPC call or reply.
\<close>

locale struct_codec =
  fixes ok :: "'m \<Rightarrow> bool"
    and enc :: "'m \<Rightarrow> bytes"
    and dec :: "bytes \<Rightarrow> (xdr_error, 'm) result"
  assumes dec_enc: "ok m \<Longrightarrow> dec (enc m @ suf) = Inr m"
    and enc_words: "4 dvd length (enc m)"
begin

lemma dec_exact: "ok m \<Longrightarrow> dec (enc m) = Inr m"
  using dec_enc[of m "[]"] by simp

lemma enc_prefix_free: "ok m \<Longrightarrow> ok n \<Longrightarrow> enc m @ s = enc n @ t \<Longrightarrow> m = n \<and> s = t"
  using dec_enc[of m s] dec_enc[of n t] by simp

lemma call_delivers:
  "ok m \<Longrightarrow> rbind (map_err (\<lambda>_. Truncated) (decode_call (encode_call xid prog vers proc (enc m))))
     (\<lambda>(h, args). dec args) = Inr m"
  using decode_call_append[of "[]" "[]"] by (simp add: encode_call_bytes dec_exact)

lemma reply_delivers:
  "ok m \<Longrightarrow> \<exists>r. decode_reply (reply_success xid (enc m)) xid = Inr (Success r) \<and> dec r = Inr m"
  by (simp add: reply_success_def decode_reply_accepted dec_exact)

end

lemma dvd_length_opaque [simp]: "4 dvd length (opaque_bytes d)"
  using opaque_bytes_align by (simp add: mod_eq_0_iff_dvd)

lemma ucast_ucast_up [simp]:
  "ucast (ucast (v :: u16) :: u32) = v" "ucast (ucast (b :: u8) :: u32) = b"
  by (simp_all add: unsigned_ucast_eq take_bit_word_eq_self)

lemmas codec_simps = new_cursor_cur put_simps wire

interpretation create_link_parms_codec: struct_codec "\<lambda>p. length (clp_device p) \<le> unat DEVICE_NAME_MAX"
  "\<lambda>p. encode_create_link_parms p []" decode_create_link_parms
  by unfold_locales (simp_all add: encode_create_link_parms_def decode_create_link_parms_def codec_simps)

interpretation create_link_resp_codec: struct_codec "\<lambda>_. True"
  encode_create_link_resp decode_create_link_resp
  by unfold_locales (simp_all add: encode_create_link_resp_def decode_create_link_resp_def codec_simps)

interpretation device_write_parms_codec: struct_codec "\<lambda>p. length (dwp_data p) \<le> unat max_data"
  "\<lambda>p. encode_device_write_parms p []" "\<lambda>d. decode_device_write_parms d max_data" for max_data
  by unfold_locales (simp_all add: encode_device_write_parms_def decode_device_write_parms_def codec_simps)

interpretation device_write_resp_codec: struct_codec "\<lambda>_. True"
  encode_device_write_resp decode_device_write_resp
  by unfold_locales (simp_all add: encode_device_write_resp_def decode_device_write_resp_def codec_simps)

interpretation device_read_parms_codec: struct_codec "\<lambda>_. True"
  "\<lambda>p. encode_device_read_parms p []" decode_device_read_parms
  by unfold_locales (simp_all add: encode_device_read_parms_def decode_device_read_parms_def codec_simps)

interpretation device_read_resp_codec: struct_codec "\<lambda>p. length (drr_data p) \<le> unat max_data"
  encode_device_read_resp "\<lambda>d. decode_device_read_resp d max_data" for max_data
  by unfold_locales (simp_all add: encode_device_read_resp_def decode_device_read_resp_def codec_simps)

interpretation device_generic_parms_codec: struct_codec "\<lambda>_. True"
  "\<lambda>p. encode_device_generic_parms p []" decode_device_generic_parms
  by unfold_locales (simp_all add: encode_device_generic_parms_def decode_device_generic_parms_def codec_simps)

interpretation device_read_stb_resp_codec: struct_codec "\<lambda>_. True"
  encode_device_read_stb_resp decode_device_read_stb_resp
  by unfold_locales (simp_all add: encode_device_read_stb_resp_def decode_device_read_stb_resp_def codec_simps)

interpretation device_lock_parms_codec: struct_codec "\<lambda>_. True"
  "\<lambda>p. encode_device_lock_parms p []" decode_device_lock_parms
  by unfold_locales (simp_all add: encode_device_lock_parms_def decode_device_lock_parms_def codec_simps)

interpretation device_enable_srq_parms_codec: struct_codec "\<lambda>p. length (dep_handle p) \<le> unat SRQ_HANDLE_MAX"
  "\<lambda>p. encode_device_enable_srq_parms p []" decode_device_enable_srq_parms
  by unfold_locales (simp_all add: encode_device_enable_srq_parms_def decode_device_enable_srq_parms_def codec_simps)

interpretation device_remote_func_codec: struct_codec "\<lambda>_. True"
  "\<lambda>p. encode_device_remote_func p []" decode_device_remote_func
  by unfold_locales (simp_all add: encode_device_remote_func_def decode_device_remote_func_def codec_simps)

interpretation device_srq_parms_codec: struct_codec "\<lambda>p. length (dsp_handle p) \<le> unat SRQ_HANDLE_MAX"
  encode_device_srq_parms decode_device_srq_parms
  by unfold_locales (simp_all add: encode_device_srq_parms_def decode_device_srq_parms_def codec_simps)

interpretation device_docmd_parms_codec: struct_codec "\<lambda>p. length (ddp_data_in p) \<le> unat DATA_MAX"
  "\<lambda>p. encode_device_docmd_parms p []" decode_device_docmd_parms
  by unfold_locales (simp_all add: encode_device_docmd_parms_def decode_device_docmd_parms_def codec_simps)

interpretation device_docmd_resp_codec: struct_codec "\<lambda>p. length (ddr_data_out p) \<le> unat DATA_MAX"
  encode_device_docmd_resp decode_device_docmd_resp
  by unfold_locales (simp_all add: encode_device_docmd_resp_def decode_device_docmd_resp_def codec_simps)

section \<open>Properties\<close>

text \<open>The argument structures have the field order of the VXI-11 interface definition (write and
  read carry the I/O timeout before the lock timeout and the flags, the generic parameters the flags
  first and the I/O timeout last), and the decoder finds a structure again whatever follows it, as
  long as its variable part is within the limit of the protocol.\<close>

theorem request_layouts:
  "(encode_create_link_parms clp [] = be32 (clp_client_id clp) @ be32 (if clp_lock_device clp then 1
   else 0) @ be32 (clp_lock_timeout_ms clp) @ opaque_bytes (clp_device clp) \<and>
    (length (clp_device clp) \<le> unat DEVICE_NAME_MAX \<longrightarrow> decode_create_link_parms
    (encode_create_link_parms clp [] @ suf) = Inr clp)) \<and>
   (encode_device_write_parms dwp [] = be32 (dwp_lid dwp) @ be32 (dwp_io_timeout_ms dwp) @ be32
   (dwp_lock_timeout_ms dwp) @ be32 (dwp_flags dwp) @ opaque_bytes (dwp_data dwp) \<and>
    (length (dwp_data dwp) \<le> unat max_data \<longrightarrow> decode_device_write_parms
    (encode_device_write_parms dwp [] @ suf) max_data = Inr dwp)) \<and>
   (encode_device_read_parms drp [] = be32 (drp_lid drp) @ be32 (drp_request_size drp) @ be32
   (drp_io_timeout_ms drp) @ be32 (drp_lock_timeout_ms drp) @ be32 (drp_flags drp) @ be32
   (drp_term_char drp) \<and>
    (decode_device_read_parms (encode_device_read_parms drp [] @ suf) = Inr drp)) \<and>
   (encode_device_generic_parms dgp [] = be32 (dgp_lid dgp) @ be32 (dgp_flags dgp) @ be32
   (dgp_lock_timeout_ms dgp) @ be32 (dgp_io_timeout_ms dgp) \<and>
    (decode_device_generic_parms (encode_device_generic_parms dgp [] @ suf) = Inr dgp)) \<and>
   (encode_device_lock_parms dlp [] = be32 (dlp_lid dlp) @ be32 (dlp_flags dlp) @ be32
   (dlp_lock_timeout_ms dlp) \<and>
    (decode_device_lock_parms (encode_device_lock_parms dlp [] @ suf) = Inr dlp)) \<and>
   (encode_device_enable_srq_parms dep [] = be32 (dep_lid dep) @ be32 (if dep_enable dep then 1 else 0)
   @ opaque_bytes (dep_handle dep) \<and>
    (length (dep_handle dep) \<le> unat SRQ_HANDLE_MAX \<longrightarrow> decode_device_enable_srq_parms
    (encode_device_enable_srq_parms dep [] @ suf) = Inr dep)) \<and>
   (encode_device_remote_func drf [] = be32 (drf_host_addr drf) @ be32 (ucast (drf_host_port drf)) @
   be32 (drf_prog_num drf) @ be32 (drf_prog_vers drf) @ be32 (drf_prog_family drf) \<and>
    (decode_device_remote_func (encode_device_remote_func drf [] @ suf) = Inr drf)) \<and>
   (encode_device_docmd_parms ddp [] = be32 (ddp_lid ddp) @ be32 (ddp_flags ddp) @ be32
   (ddp_io_timeout_ms ddp) @ be32 (ddp_lock_timeout_ms ddp) @ be32 (ddp_cmd ddp) @ be32 (if
   ddp_network_order ddp then 1 else 0) @ be32 (ddp_datasize ddp) @ opaque_bytes (ddp_data_in ddp)
   \<and>
    (length (ddp_data_in ddp) \<le> unat DATA_MAX \<longrightarrow> decode_device_docmd_parms
    (encode_device_docmd_parms ddp [] @ suf) = Inr ddp))"
proof (intro conjI)
qed ((intro impI)?, simp add: encode_create_link_parms_def decode_create_link_parms_def
    encode_device_write_parms_def decode_device_write_parms_def
    encode_device_read_parms_def decode_device_read_parms_def
    encode_device_generic_parms_def decode_device_generic_parms_def
    encode_device_lock_parms_def decode_device_lock_parms_def
    encode_device_enable_srq_parms_def decode_device_enable_srq_parms_def
    encode_device_remote_func_def decode_device_remote_func_def
    encode_device_docmd_parms_def decode_device_docmd_parms_def
    codec_simps)+

theorem request_layouts_witness:
  "decode_create_link_parms (encode_create_link_parms \<lparr>clp_client_id = 1, clp_lock_device =
   True, clp_lock_timeout_ms = 3, clp_device = [42, 73]\<rparr> [] @ [9]) = Inr \<lparr>clp_client_id =
   1, clp_lock_device = True, clp_lock_timeout_ms = 3, clp_device = [42, 73]\<rparr> \<and>
   decode_device_write_parms (encode_device_write_parms \<lparr>dwp_lid = 1, dwp_io_timeout_ms = 2,
   dwp_lock_timeout_ms = 3, dwp_flags = 4, dwp_data = [42, 73]\<rparr> [] @ [9]) 16 = Inr
   \<lparr>dwp_lid = 1, dwp_io_timeout_ms = 2, dwp_lock_timeout_ms = 3, dwp_flags = 4, dwp_data = [42,
   73]\<rparr> \<and>
   decode_device_enable_srq_parms (encode_device_enable_srq_parms \<lparr>dep_lid = 1, dep_enable =
   True, dep_handle = [42, 73]\<rparr> [] @ [9]) = Inr \<lparr>dep_lid = 1, dep_enable = True,
   dep_handle = [42, 73]\<rparr> \<and>
   decode_device_docmd_parms (encode_device_docmd_parms \<lparr>ddp_lid = 1, ddp_flags = 2,
   ddp_io_timeout_ms = 3, ddp_lock_timeout_ms = 4, ddp_cmd = 5, ddp_network_order = True, ddp_datasize
   = 7, ddp_data_in = [42, 73]\<rparr> [] @ [9]) = Inr \<lparr>ddp_lid = 1, ddp_flags = 2,
   ddp_io_timeout_ms = 3, ddp_lock_timeout_ms = 4, ddp_cmd = 5, ddp_network_order = True, ddp_datasize
   = 7, ddp_data_in = [42, 73]\<rparr>"
  using request_layouts[where suf = "[9]" and max_data = 16
      and clp = "\<lparr>clp_client_id = 1, clp_lock_device = True, clp_lock_timeout_ms = 3, clp_device
      = [42, 73]\<rparr>"
      and dwp = "\<lparr>dwp_lid = 1, dwp_io_timeout_ms = 2, dwp_lock_timeout_ms = 3, dwp_flags = 4,
      dwp_data = [42, 73]\<rparr>"
      and drp = "\<lparr>drp_lid = 1, drp_request_size = 2, drp_io_timeout_ms = 3, drp_lock_timeout_ms
      = 4, drp_flags = 5, drp_term_char = 6\<rparr>"
      and dgp = "\<lparr>dgp_lid = 1, dgp_flags = 2, dgp_lock_timeout_ms = 3, dgp_io_timeout_ms =
      4\<rparr>"
      and dlp = "\<lparr>dlp_lid = 1, dlp_flags = 2, dlp_lock_timeout_ms = 3\<rparr>"
      and dep = "\<lparr>dep_lid = 1, dep_enable = True, dep_handle = [42, 73]\<rparr>"
      and drf = "\<lparr>drf_host_addr = 1, drf_host_port = 2, drf_prog_num = 3, drf_prog_vers = 4,
      drf_prog_family = 5\<rparr>"
      and ddp = "\<lparr>ddp_lid = 1, ddp_flags = 2, ddp_io_timeout_ms = 3, ddp_lock_timeout_ms = 4,
      ddp_cmd = 5, ddp_network_order = True, ddp_datasize = 7, ddp_data_in = [42, 73]\<rparr>"]
  by clarsimp

text \<open>The result structures, and the argument of the service-request callback, have the field order
  of the interface definition and are decoded back by the client half.\<close>

theorem response_layouts:
  "(encode_create_link_resp clr = be32 (clr_error clr) @ be32 (clr_lid clr) @ be32 (ucast
   (clr_abort_port clr)) @ be32 (clr_max_recv_size clr) \<and>
    (decode_create_link_resp (encode_create_link_resp clr @ suf) = Inr clr)) \<and>
   (encode_device_write_resp dwr = be32 (dwr_error dwr) @ be32 (dwr_size dwr) \<and>
    (decode_device_write_resp (encode_device_write_resp dwr @ suf) = Inr dwr)) \<and>
   (encode_device_read_resp drr = be32 (drr_error drr) @ be32 (drr_reason drr) @ opaque_bytes (drr_data
   drr) \<and>
    (length (drr_data drr) \<le> unat max_data \<longrightarrow> decode_device_read_resp
    (encode_device_read_resp drr @ suf) max_data = Inr drr)) \<and>
   (encode_device_read_stb_resp dsr = be32 (dsr_error dsr) @ be32 (ucast (dsr_stb dsr)) \<and>
    (decode_device_read_stb_resp (encode_device_read_stb_resp dsr @ suf) = Inr dsr)) \<and>
   (encode_device_srq_parms dsp = opaque_bytes (dsp_handle dsp) \<and>
    (length (dsp_handle dsp) \<le> unat SRQ_HANDLE_MAX \<longrightarrow> decode_device_srq_parms
    (encode_device_srq_parms dsp @ suf) = Inr dsp)) \<and>
   (encode_device_docmd_resp ddr = be32 (ddr_error ddr) @ opaque_bytes (ddr_data_out ddr) \<and>
    (length (ddr_data_out ddr) \<le> unat DATA_MAX \<longrightarrow> decode_device_docmd_resp
    (encode_device_docmd_resp ddr @ suf) = Inr ddr))"
proof (intro conjI)
qed ((intro impI)?, simp add: encode_create_link_resp_def decode_create_link_resp_def
    encode_device_write_resp_def decode_device_write_resp_def
    encode_device_read_resp_def decode_device_read_resp_def
    encode_device_read_stb_resp_def decode_device_read_stb_resp_def
    encode_device_srq_parms_def decode_device_srq_parms_def
    encode_device_docmd_resp_def decode_device_docmd_resp_def
    codec_simps)+

theorem response_layouts_witness:
  "decode_device_read_resp (encode_device_read_resp \<lparr>drr_error = 1, drr_reason = 2, drr_data =
   [42, 73]\<rparr> @ [9]) 16 = Inr \<lparr>drr_error = 1, drr_reason = 2, drr_data = [42, 73]\<rparr> \<and>
   decode_device_srq_parms (encode_device_srq_parms \<lparr>dsp_handle = [42, 73]\<rparr> @ [9]) = Inr
   \<lparr>dsp_handle = [42, 73]\<rparr> \<and>
   decode_device_docmd_resp (encode_device_docmd_resp \<lparr>ddr_error = 1, ddr_data_out = [42,
   73]\<rparr> @ [9]) = Inr \<lparr>ddr_error = 1, ddr_data_out = [42, 73]\<rparr>"
  using response_layouts[where suf = "[9]" and max_data = 16
      and clr = "\<lparr>clr_error = 1, clr_lid = 2, clr_abort_port = 3, clr_max_recv_size = 4\<rparr>"
      and dwr = "\<lparr>dwr_error = 1, dwr_size = 2\<rparr>"
      and drr = "\<lparr>drr_error = 1, drr_reason = 2, drr_data = [42, 73]\<rparr>"
      and dsr = "\<lparr>dsr_error = 1, dsr_stb = 2\<rparr>"
      and dsp = "\<lparr>dsp_handle = [42, 73]\<rparr>"
      and ddr = "\<lparr>ddr_error = 1, ddr_data_out = [42, 73]\<rparr>"]
  by clarsimp

end
