(* ===== verification/Portmap.thy ===== *)
theory Portmap
  imports Vxi11_Messages
begin

text \<open>
  The portmapper of \<^verbatim>\<open>src/src/vxi11/portmap.rs\<close>: the version 2 codec, the responder with its fixed
  table over TCP and UDP, and the client that registers a mapping with another portmapper.
\<close>

section \<open>Codec\<close>

abbreviation PMAP_PROG :: u32 where "PMAP_PROG \<equiv> 100000"
abbreviation PMAP_VERS :: u32 where "PMAP_VERS \<equiv> 2"
abbreviation PMAPPROC_NULL :: u32 where "PMAPPROC_NULL \<equiv> 0"
abbreviation PMAPPROC_SET :: u32 where "PMAPPROC_SET \<equiv> 1"
abbreviation PMAPPROC_UNSET :: u32 where "PMAPPROC_UNSET \<equiv> 2"
abbreviation PMAPPROC_GETPORT :: u32 where "PMAPPROC_GETPORT \<equiv> 3"
abbreviation PMAPPROC_DUMP :: u32 where "PMAPPROC_DUMP \<equiv> 4"
abbreviation PMAPPROC_CALLIT :: u32 where "PMAPPROC_CALLIT \<equiv> 5"

record pmapping =
  pm_prog :: u32
  pm_vers :: u32
  pm_prot :: u32
  pm_port :: u32

definition encode_mapping :: "pmapping \<Rightarrow> bytes \<Rightarrow> bytes" where
  "encode_mapping m buf =
     put_u32 (put_u32 (put_u32 (put_u32 buf (pm_prog m)) (pm_vers m)) (pm_prot m)) (pm_port m)"

definition decode_mapping :: "cursor \<Rightarrow> (xdr_error, pmapping \<times> cursor) result" where
  "decode_mapping c =
     rbind (cur_u32 c) (\<lambda>(prog, c). rbind (cur_u32 c) (\<lambda>(vers, c). rbind (cur_u32 c) (\<lambda>(prot, c).
     rbind (cur_u32 c) (\<lambda>(port, c).
       Inr (\<lparr>pm_prog = prog, pm_vers = vers, pm_prot = prot, pm_port = port\<rparr>, c)))))"

definition encode_getport_reply :: "u32 \<Rightarrow> bytes" where
  "encode_getport_reply port = put_u32 [] port"

definition encode_dump_reply :: "pmapping list \<Rightarrow> bytes" where
  "encode_dump_reply mappings =
     put_bool (fold (\<lambda>m buf. encode_mapping m (put_bool buf True)) mappings []) False"

text \<open>The loop of \<^verbatim>\<open>decode_dump_reply\<close> ends: each turn consumes the word of the flag.\<close>

lemma cur_take_remaining: "cur_take n c = Inr (d, c') \<Longrightarrow> cur_remaining c' + n = cur_remaining c"
  by (auto simp: cur_take_def cur_remaining_def Let_def split: if_splits)

lemma cur_u32_remaining: "cur_u32 c = Inr (v, c') \<Longrightarrow> cur_remaining c' + 4 = cur_remaining c"
  by (auto simp: cur_u32_def rbind_Inr_iff dest: cur_take_remaining)

lemma cur_bool_remaining: "cur_bool c = Inr (b, c') \<Longrightarrow> cur_remaining c' + 4 = cur_remaining c"
  by (auto simp: cur_bool_def rbind_Inr_iff dest: cur_u32_remaining split: if_splits)

lemma decode_mapping_remaining: "decode_mapping c = Inr (m, c') \<Longrightarrow> cur_remaining c' + 16 = cur_remaining c"
  by (auto simp: decode_mapping_def rbind_Inr_iff dest!: cur_u32_remaining)

function decode_dump_loop :: "cursor \<Rightarrow> pmapping list \<Rightarrow> (xdr_error, pmapping list) result" where
  "decode_dump_loop c mappings =
     (case cur_bool c of
        Inl e \<Rightarrow> Inl e
      | Inr (another, c1) \<Rightarrow>
          if another then
            (case decode_mapping c1 of
               Inl e \<Rightarrow> Inl e
             | Inr (m, c2) \<Rightarrow> decode_dump_loop c2 (mappings @ [m]))
          else Inr mappings)"
  by pat_completeness auto
termination
  by (relation "measure (\<lambda>(c, _). cur_remaining c)")
    (auto dest!: cur_bool_remaining decode_mapping_remaining)

declare decode_dump_loop.simps [simp del]

definition decode_dump_reply :: "bytes \<Rightarrow> (xdr_error, pmapping list) result" where
  "decode_dump_reply d = decode_dump_loop (new_cursor d) []"

section \<open>The responder\<close>

definition find_port :: "pmapping list \<Rightarrow> pmapping \<Rightarrow> u32" where
  "find_port mappings wanted =
     (case find (\<lambda>m. pm_prog m = pm_prog wanted \<and> pm_vers m = pm_vers wanted \<and> pm_prot m = pm_prot wanted)
        mappings of
        Some m \<Rightarrow> pm_port m
      | None \<Rightarrow> 0)"

definition dispatch :: "bytes \<Rightarrow> pmapping list \<Rightarrow> bytes option" where
  "dispatch rec mappings =
     (case decode_call rec of
        Inl (RpcVersion xid _) \<Rightarrow> Some (reply_rpc_mismatch xid)
      | Inl _ \<Rightarrow> None
      | Inr (header, args) \<Rightarrow>
          let xid = ch_xid header; proc = ch_proc header
          in if ch_prog header \<noteq> PMAP_PROG then Some (reply_prog_unavail xid)
             else if ch_vers header \<noteq> PMAP_VERS then Some (reply_prog_mismatch xid PMAP_VERS PMAP_VERS)
             else if proc = PMAPPROC_NULL then Some (reply_success xid [])
             else if proc = PMAPPROC_GETPORT then
               (case decode_mapping (new_cursor args) of
                  Inl _ \<Rightarrow> Some (reply_garbage_args xid)
                | Inr (wanted, _) \<Rightarrow>
                    Some (reply_success xid (encode_getport_reply (find_port mappings wanted))))
             else if proc = PMAPPROC_DUMP then Some (reply_success xid (encode_dump_reply mappings))
             else if proc = PMAPPROC_SET \<or> proc = PMAPPROC_UNSET then
               Some (reply_success xid (put_bool [] False))
             else if proc = PMAPPROC_CALLIT then None
             else Some (reply_proc_unavail xid))"

text \<open>The UDP loop: a failed receive is skipped, a datagram is cut to the buffer and answered when
  there is an answer. One element of the list is one receive.\<close>

definition udp_step :: "pmapping list \<Rightarrow> (io_error, bytes) result \<Rightarrow> bytes option" where
  "udp_step mappings ev = (case ev of Inl _ \<Rightarrow> None | Inr datagram \<Rightarrow> dispatch (take 4096 datagram) mappings)"

definition udp_task :: "pmapping list \<Rightarrow> (io_error, bytes) result list \<Rightarrow> bytes list" where
  "udp_task mappings evs = List.map_filter (udp_step mappings) evs"

text \<open>One TCP connection: the replies it gets, until the stream ends, a call has no answer, or a write
  fails. \<open>writes\<close> is how many writes the peer accepts before it is gone.\<close>

function tcp_session :: "pmapping list \<Rightarrow> nat \<Rightarrow> stream \<Rightarrow> bytes list" where
  "tcp_session mappings writes rd =
     (case read_record 4096 rd of
        Inr (Some rec, rd') \<Rightarrow>
          (case dispatch rec mappings of
             Some reply \<Rightarrow>
               (case write_record reply of
                  Inl _ \<Rightarrow> []
                | Inr frame \<Rightarrow>
                    if writes = 0 then [] else frame # tcp_session mappings (writes - 1) rd')
           | None \<Rightarrow> [])
      | _ \<Rightarrow> [])"
  by pat_completeness auto
termination
  by (relation "measure (\<lambda>(_, _, rd). length (pending rd))")
    (auto dest: read_record_shrinks)

declare tcp_session.simps [simp del]

section \<open>Registering with a portmapper\<close>

datatype reg_error = RegIo io_error | RegXdr xdr_error | RegAnswered reply_body | RegBadReply reply_error
  | RegNoAnswer

definition registration_call :: "pmapping \<Rightarrow> bool \<Rightarrow> bytes" where
  "registration_call mapping register =
     encode_call 1 PMAP_PROG PMAP_VERS (if register then PMAPPROC_SET else PMAPPROC_UNSET)
       (encode_mapping mapping [])"

definition registration_answer :: "bytes \<Rightarrow> (reg_error, bool) result" where
  "registration_answer datagram =
     (case decode_reply (take 512 datagram) 1 of
        Inr (Success body) \<Rightarrow> map_err RegXdr (rbind (cur_bool (new_cursor body)) (\<lambda>(b, c). Inr b))
      | Inr other \<Rightarrow> Inl (RegAnswered other)
      | Inl e \<Rightarrow> Inl (RegBadReply e))"

text \<open>What the network does with one attempt: the send fails, nothing comes back within the second,
  the receive fails, or a datagram arrives.\<close>

datatype attempt = SendFails io_error | Silence | RecvFails io_error | Datagram bytes

fun registration_loop :: "attempt list \<Rightarrow> (reg_error, bool) result" where
  "registration_loop [] = Inl RegNoAnswer"
| "registration_loop (SendFails e # _) = Inl (RegIo e)"
| "registration_loop (Silence # rest) = registration_loop rest"
| "registration_loop (RecvFails e # _) = Inl (RegIo e)"
| "registration_loop (Datagram d # _) = registration_answer d"

definition set_registration :: "io_error option \<Rightarrow> attempt list \<Rightarrow> (reg_error, bool) result" where
  "set_registration sock attempts =
     (case sock of Some e \<Rightarrow> Inl (RegIo e) | None \<Rightarrow> registration_loop (take 3 attempts))"

section \<open>Laws\<close>

definition mapping_bytes :: "pmapping \<Rightarrow> bytes" where
  "mapping_bytes m = be32 (pm_prog m) @ be32 (pm_vers m) @ be32 (pm_prot m) @ be32 (pm_port m)"

lemma encode_mapping_bytes: "encode_mapping m buf = buf @ mapping_bytes m"
  by (simp add: encode_mapping_def mapping_bytes_def put_u32_def)

lemma decode_mapping_append [wire]:
  "decode_mapping (cur pre (mapping_bytes m @ suf)) = Inr (m, cur (pre @ mapping_bytes m) suf)"
  by (simp add: decode_mapping_def mapping_bytes_def wire)

lemma decode_mapping_end: "decode_mapping (cur pre (mapping_bytes m)) = Inr (m, cur (pre @ mapping_bytes m) [])"
  using decode_mapping_append[of pre m "[]"] by simp

lemma encode_dump_bytes:
  "encode_dump_reply ms = concat (map (\<lambda>m. be32 1 @ mapping_bytes m) ms) @ be32 0"
proof -
  have "fold (\<lambda>m buf. encode_mapping m (put_bool buf True)) ms buf =
      buf @ concat (map (\<lambda>m. be32 1 @ mapping_bytes m) ms)" for buf
    by (induction ms arbitrary: buf) (simp_all add: encode_mapping_bytes put_simps)
  then show ?thesis
    by (simp add: encode_dump_reply_def put_simps)
qed

lemma decode_dump_loop_bytes:
  "decode_dump_loop (cur pre (concat (map (\<lambda>m. be32 1 @ mapping_bytes m) ms) @ be32 0)) acc = Inr (acc @ ms)"
proof (induction ms arbitrary: pre acc)
  case Nil
  show ?case
    using cur_bool_append[of pre False "[]"] by (subst decode_dump_loop.simps) simp
next
  case (Cons m ms)
  show ?case
    using cur_bool_append[of pre True] Cons
    by (subst decode_dump_loop.simps) (simp add: decode_mapping_append)
qed

lemma decode_call_encode [wire]:
  "decode_call (encode_call xid prog vers proc args) =
     Inr (\<lparr>ch_xid = xid, ch_prog = prog, ch_vers = vers, ch_proc = proc\<rparr>, args)"
  using decode_call_append[of "[]" "[]"] by (simp add: encode_call_bytes)

lemma decode_reply_success [wire]: "decode_reply (reply_success xid r) xid = Inr (Success r)"
  using decode_reply_accepted[of xid SUCCESS r] by (simp add: reply_success_def)

lemma accepted_length: "length (accepted xid stat) = 24"
  by (simp add: accepted_bytes opaque_bytes_Nil)

lemma length_encode_call: "length (encode_call xid prog vers proc args) = 40 + length args"
  by (simp add: encode_call_bytes opaque_bytes_Nil)

lemma dispatch_call:
  "dispatch (encode_call xid PMAP_PROG PMAP_VERS proc args) mappings =
     (if proc = 0 then Some (reply_success xid [])
      else if proc = 3 then
        (case decode_mapping (new_cursor args) of
           Inl _ \<Rightarrow> Some (reply_garbage_args xid)
         | Inr (wanted, _) \<Rightarrow> Some (reply_success xid (encode_getport_reply (find_port mappings wanted))))
      else if proc = 4 then Some (reply_success xid (encode_dump_reply mappings))
      else if proc = 1 \<or> proc = 2 then Some (reply_success xid (put_bool [] False))
      else if proc = 5 then None
      else Some (reply_proc_unavail xid))"
  unfolding dispatch_def decode_call_encode by simp

section \<open>Properties\<close>

text \<open>A portmap lookup over the wire gives the port of the first registration with the wanted
  program, version and protocol, and 0 when there is none; the port the caller put into its query
  plays no role.\<close>

theorem getport_lookup:
  "\<exists>r. dispatch (encode_call xid PMAP_PROG PMAP_VERS PMAPPROC_GETPORT (encode_mapping wanted [])) mappings = Some r \<and>
     decode_reply r xid = Inr (Success (be32 (find_port mappings wanted))) \<and>
     find_port mappings wanted = find_port mappings (wanted\<lparr>pm_port := any\<rparr>) \<and>
     ((\<forall>m \<in> set mappings. (pm_prog m, pm_vers m, pm_prot m) \<noteq> (pm_prog wanted, pm_vers wanted, pm_prot wanted)) \<longrightarrow>
        find_port mappings wanted = 0)"
proof -
  have "find_port mappings wanted = 0"
    if "\<forall>m \<in> set mappings. (pm_prog m, pm_vers m, pm_prot m) \<noteq> (pm_prog wanted, pm_vers wanted, pm_prot wanted)"
    using that by (auto simp: find_port_def find_Some_iff split: option.split)
  moreover have "find_port mappings wanted = find_port mappings (wanted\<lparr>pm_port := any\<rparr>)"
    by (simp add: find_port_def)
  ultimately show ?thesis
    by (auto simp: dispatch_call new_cursor_cur encode_mapping_bytes decode_mapping_end
        decode_reply_success encode_getport_reply_def put_u32_def)
qed

theorem getport_lookup_witness:
  "find_port [\<lparr>pm_prog = 395183, pm_vers = 1, pm_prot = 6, pm_port = 9010\<rparr>]
     \<lparr>pm_prog = 395184, pm_vers = 1, pm_prot = 6, pm_port = 5\<rparr> = 0"
  using getport_lookup[where xid = 1 and any = 0
      and mappings = "[\<lparr>pm_prog = 395183, pm_vers = 1, pm_prot = 6, pm_port = 9010\<rparr>]"
      and wanted = "\<lparr>pm_prog = 395184, pm_vers = 1, pm_prot = 6, pm_port = 5\<rparr>"]
  by auto

text \<open>A DUMP call is answered with a list the client half decodes to exactly the registered
  table, in order.\<close>

theorem dump_roundtrip:
  "\<exists>r body. dispatch (encode_call xid PMAP_PROG PMAP_VERS PMAPPROC_DUMP args) mappings = Some r \<and>
     decode_reply r xid = Inr (Success body) \<and> decode_dump_reply body = Inr mappings"
  using decode_dump_loop_bytes[of "[]" mappings "[]"]
  by (simp add: dispatch_call decode_reply_success decode_dump_reply_def new_cursor_cur
      encode_dump_bytes)

text \<open>Registering with this responder is refused, not failed: whatever the mapping, a SET or UNSET
  call sent by the registration client is answered with the boolean FALSE, also when up to two
  earlier attempts went unanswered, and three silent attempts give up.\<close>

theorem registration_refused:
  "\<exists>r. dispatch (registration_call mapping register) mappings = Some r \<and>
     (n \<le> 2 \<longrightarrow> set_registration None (replicate n Silence @ [Datagram r] @ rest) = Inr False) \<and>
     set_registration None (replicate 3 Silence @ rest) = Inl RegNoAnswer"
proof -
  obtain r where r: "dispatch (registration_call mapping register) mappings = Some r"
    and eq: "r = reply_success 1 (be32 0)"
    by (auto simp: registration_call_def dispatch_call put_simps)
  have len: "length r = 28"
    by (simp add: eq reply_success_def accepted_length)
  have "cur_bool (cur [] (be32 0)) = Inr (False, cur (be32 0) [])"
    using cur_bool_append[of "[]" False "[]"] by simp
  then have answer: "registration_answer r = Inr False"
    by (simp add: registration_answer_def len take_all) (simp add: eq decode_reply_success new_cursor_cur)
  have "registration_loop (replicate k Silence @ rest) = registration_loop rest" for k rest
    by (induction k) simp_all
  moreover have "take 3 (replicate n Silence @ [Datagram r] @ rest) =
      replicate n Silence @ Datagram r # take (2 - n) rest" if "n \<le> 2"
    using that by (simp add: min_def Suc_diff_le numeral_3_eq_3 numeral_2_eq_2)
  ultimately have "n \<le> 2 \<longrightarrow> set_registration None (replicate n Silence @ [Datagram r] @ rest) = Inr False"
    using answer by (auto simp: set_registration_def)
  moreover have "set_registration None (replicate 3 Silence @ rest) = Inl RegNoAnswer"
    by (simp add: set_registration_def numeral_3_eq_3)
  ultimately show ?thesis
    using r by blast
qed

theorem registration_refused_witness:
  "\<exists>r. dispatch (registration_call \<lparr>pm_prog = 1, pm_vers = 1, pm_prot = 6, pm_port = 9\<rparr> True) [] = Some r \<and>
     set_registration None (replicate 2 Silence @ [Datagram r] @ []) = Inr False"
  using registration_refused[of "\<lparr>pm_prog = 1, pm_vers = 1, pm_prot = 6, pm_port = 9\<rparr>" True "[]" 2 "[]"]
  by auto

text \<open>Calls pipelined on one TCP connection are answered in order, one framed reply each.\<close>

theorem tcp_answers_in_order:
  assumes "list_all2 (\<lambda>c r. dispatch c mappings = Some r \<and> length c \<le> 4096 \<and> length r \<le> 0x7FFFFFFF) calls replies"
    and "length calls \<le> writes"
  shows "tcp_session mappings writes (feed (concat (map (fragment True) calls)) \<lparr>pending = [], broken = None\<rparr>) =
    map (fragment True) replies"
  using assms
proof (induction arbitrary: writes rule: list_all2_induct)
  case Nil
  show ?case
    by (subst tcp_session.simps)
      (simp add: read_record_def read_fragments.simps read_exact_short end_error_def)
next
  case (Cons c calls r replies)
  then have "read_record 4096 (feed (fragment True c) s) = Inr (Some c, s)" for s
    by (simp add: read_record_def read_fragments_step)
  with Cons show ?case
    by (subst tcp_session.simps) (simp add: write_record_fragment)
qed

theorem tcp_answers_in_order_witness:
  "tcp_session [] 2 (feed (concat (map (fragment True) [encode_call 1 PMAP_PROG PMAP_VERS 0 [],
      encode_call 2 PMAP_PROG PMAP_VERS 0 []])) \<lparr>pending = [], broken = None\<rparr>) =
    map (fragment True) [reply_success 1 [], reply_success 2 []]"
  by (rule tcp_answers_in_order)
    (simp_all add: dispatch_call reply_success_def accepted_length length_encode_call)

end
