(* ===== verification/Rust_Str.thy ===== *)
theory Rust_Str
  imports Prelude "HOL-Library.Sublist"
begin

text \<open>
  The string operations of the Rust standard library the sources use, on strings as lists of Unicode
  code points: literals, ASCII case, trimming, splitting, searching, integer parsing and printing,
  UTF-8 encoding, and the lossy UTF-8 decoding with its replacement characters.
\<close>

section \<open>Literals, case, trimming, searching\<close>

definition lit :: "string \<Rightarrow> rstr" where
  "lit s = map of_char s"

definition to_ascii_lowercase :: "rstr \<Rightarrow> rstr" where
  "to_ascii_lowercase s = map (\<lambda>c. if 65 \<le> c \<and> c \<le> 90 then c + 32 else c) s"

text \<open>\<^verbatim>\<open>char::is_whitespace\<close>: the Unicode property White_Space.\<close>

definition is_whitespace :: "nat \<Rightarrow> bool" where
  "is_whitespace c \<longleftrightarrow> (9 \<le> c \<and> c \<le> 13) \<or> (0x2000 \<le> c \<and> c \<le> 0x200A) \<or>
     c \<in> {0x20, 0x85, 0xA0, 0x1680, 0x2028, 0x2029, 0x202F, 0x205F, 0x3000}"

definition trim_start :: "rstr \<Rightarrow> rstr" where
  "trim_start s = dropWhile is_whitespace s"

definition trim :: "rstr \<Rightarrow> rstr" where
  "trim s = rev (dropWhile is_whitespace (rev (trim_start s)))"

definition trim_end_matches :: "nat list \<Rightarrow> rstr \<Rightarrow> rstr" where
  "trim_end_matches cs s = rev (dropWhile (\<lambda>c. c \<in> set cs) (rev s))"

text \<open>\<^verbatim>\<open>split_once(char::is_whitespace)\<close>: around the first white space character, if there is one.\<close>

definition split_once_whitespace :: "rstr \<Rightarrow> (rstr \<times> rstr) option" where
  "split_once_whitespace s =
     (case dropWhile (\<lambda>c. \<not> is_whitespace c) s of
        [] \<Rightarrow> None
      | _ # rest \<Rightarrow> Some (takeWhile (\<lambda>c. \<not> is_whitespace c) s, rest))"

definition strip_prefix :: "rstr \<Rightarrow> rstr \<Rightarrow> rstr option" where
  "strip_prefix p s = (if take (length p) s = p then Some (drop (length p) s) else None)"

fun split_on :: "nat \<Rightarrow> rstr \<Rightarrow> rstr list" where
  "split_on sep [] = [[]]"
| "split_on sep (c # s) =
     (if c = sep then [] # split_on sep s
      else case split_on sep s of p # ps \<Rightarrow> (c # p) # ps | [] \<Rightarrow> [[c]])"

text \<open>\<^verbatim>\<open>lines\<close>: the pieces that line feeds end, each without the line feed and a carriage return before it,
  and what is left after the last line feed unless it is empty.\<close>

definition strip_cr :: "rstr \<Rightarrow> rstr" where
  "strip_cr s = (if s \<noteq> [] \<and> last s = 13 then butlast s else s)"

definition text_lines :: "rstr \<Rightarrow> rstr list" where
  "text_lines s =
     (let ps = split_on 10 s
      in map strip_cr (butlast ps) @ (if last ps = [] then [] else [last ps]))"

fun contains :: "rstr \<Rightarrow> rstr \<Rightarrow> bool" where
  "contains pat [] \<longleftrightarrow> pat = []"
| "contains pat (c # s) \<longleftrightarrow> take (length pat) (c # s) = pat \<or> contains pat s"

text \<open>\<^verbatim>\<open>split_whitespace\<close>: the maximal non-empty runs without white space.\<close>

function split_whitespace :: "rstr \<Rightarrow> rstr list" where
  "split_whitespace s =
     (let t = trim_start s
      in if t = [] then []
         else takeWhile (\<lambda>c. \<not> is_whitespace c) t # split_whitespace (dropWhile (\<lambda>c. \<not> is_whitespace c) t))"
  by pat_completeness auto
termination
proof (relation "measure length")
  fix s t :: rstr
  assume t: "t = trim_start s" "\<not> t = []"
  then obtain c u where cu: "t = c # u" "\<not> is_whitespace c"
    by (metis hd_dropWhile list.exhaust_sel trim_start_def)
  then have "length (dropWhile (\<lambda>c. \<not> is_whitespace c) t) \<le> length u"
    by (simp add: length_dropWhile_le)
  moreover have "length t \<le> length s"
    by (simp add: t(1) trim_start_def length_dropWhile_le)
  ultimately show "(dropWhile (\<lambda>c. \<not> is_whitespace c) t, s) \<in> measure length"
    using cu by simp
qed simp

declare split_whitespace.simps [simp del]

section \<open>Integers\<close>

definition digit_of :: "nat \<Rightarrow> nat option" where
  "digit_of c = (if 48 \<le> c \<and> c \<le> 57 then Some (c - 48) else None)"

fun digits_value :: "nat \<Rightarrow> rstr \<Rightarrow> nat option" where
  "digits_value acc [] = Some acc"
| "digits_value acc (c # s) =
     (case digit_of c of Some d \<Rightarrow> digits_value (acc * 10 + d) s | None \<Rightarrow> None)"

text \<open>\<^verbatim>\<open>str::parse\<close> for an unsigned type with the given largest value: a leading plus is skipped, an
  empty string or digit string, any other character and an overflow are errors.\<close>

definition parse_uint :: "nat \<Rightarrow> rstr \<Rightarrow> nat option" where
  "parse_uint max_value s =
     (let ds = (case s of c # r \<Rightarrow> if c = 43 then r else s | [] \<Rightarrow> [])
      in if ds = [] then None
         else case digits_value 0 ds of
                Some v \<Rightarrow> if v \<le> max_value then Some v else None
              | None \<Rightarrow> None)"

definition parse_u8 :: "rstr \<Rightarrow> u8 option" where
  "parse_u8 s = map_option of_nat (parse_uint 255 s)"

definition parse_u16 :: "rstr \<Rightarrow> u16 option" where
  "parse_u16 s = map_option of_nat (parse_uint 65535 s)"

definition parse_u32 :: "rstr \<Rightarrow> u32 option" where
  "parse_u32 s = map_option of_nat (parse_uint 4294967295 s)"

text \<open>\<^verbatim>\<open>from_str_radix(s, 16)\<close> for an unsigned type with the given largest value: an optional plus sign,
  then at least one digit of either case.\<close>

definition hex_digit_value :: "nat \<Rightarrow> nat option" where
  "hex_digit_value c =
     (if 48 \<le> c \<and> c \<le> 57 then Some (c - 48) else if 97 \<le> c \<and> c \<le> 102 then Some (c - 87)
      else if 65 \<le> c \<and> c \<le> 70 then Some (c - 55) else None)"

fun hex_digits_value :: "nat \<Rightarrow> rstr \<Rightarrow> nat option" where
  "hex_digits_value acc [] = Some acc"
| "hex_digits_value acc (c # cs) =
     (case hex_digit_value c of None \<Rightarrow> None | Some d \<Rightarrow> hex_digits_value (acc * 16 + d) cs)"

definition from_hex :: "nat \<Rightarrow> rstr \<Rightarrow> nat option" where
  "from_hex limit s =
     (let t = (case s of c # r \<Rightarrow> if c = 43 then r else s | [] \<Rightarrow> [])
      in if t = [] then None
         else case hex_digits_value 0 t of None \<Rightarrow> None | Some n \<Rightarrow> if n \<le> limit then Some n else None)"

text \<open>Decimal printing.\<close>

fun dec :: "nat \<Rightarrow> rstr" where
  "dec n = (if n < 10 then [48 + n] else dec (n div 10) @ [48 + n mod 10])"

declare dec.simps [simp del]

definition hex_digit :: "nat \<Rightarrow> nat" where
  "hex_digit d = (if d < 10 then 48 + d else 87 + d)"

section \<open>UTF-8\<close>

definition utf8_char :: "nat \<Rightarrow> bytes" where
  "utf8_char c =
     (if c < 0x80 then [of_nat c]
      else if c < 0x800 then [of_nat (0xC0 + c div 64), of_nat (0x80 + c mod 64)]
      else if c < 0x10000 then
        [of_nat (0xE0 + c div 4096), of_nat (0x80 + c div 64 mod 64), of_nat (0x80 + c mod 64)]
      else [of_nat (0xF0 + c div 262144), of_nat (0x80 + c div 4096 mod 64),
            of_nat (0x80 + c div 64 mod 64), of_nat (0x80 + c mod 64)])"

definition as_bytes :: "rstr \<Rightarrow> bytes" where
  "as_bytes s = concat (map utf8_char s)"

text \<open>One step of \<^verbatim>\<open>from_utf8_lossy\<close>: the next character and how many bytes it took, where a maximal
  ill-formed piece counts as one replacement character. The second byte is restricted for the lead
  bytes E0, ED, F0 and F4.\<close>

definition cont_byte :: "nat \<Rightarrow> bool" where
  "cont_byte b \<longleftrightarrow> 0x80 \<le> b \<and> b \<le> 0xBF"

definition second_ok :: "nat \<Rightarrow> nat \<Rightarrow> bool" where
  "second_ok b0 b1 \<longleftrightarrow>
     (if b0 = 0xE0 then 0xA0 \<le> b1 \<and> b1 \<le> 0xBF
      else if b0 = 0xED then 0x80 \<le> b1 \<and> b1 \<le> 0x9F
      else if b0 = 0xF0 then 0x90 \<le> b1 \<and> b1 \<le> 0xBF
      else if b0 = 0xF4 then 0x80 \<le> b1 \<and> b1 \<le> 0x8F
      else cont_byte b1)"

definition nth_byte :: "nat \<Rightarrow> bytes \<Rightarrow> nat" where
  "nth_byte i bs = (if i < length bs then unat (bs ! i) else 0)"

definition utf8_step :: "bytes \<Rightarrow> nat \<times> nat" where
  "utf8_step bs =
     (let b0 = nth_byte 0 bs; b1 = nth_byte 1 bs; b2 = nth_byte 2 bs; b3 = nth_byte 3 bs
      in if b0 < 0x80 then (b0, 1)
         else if 0xC2 \<le> b0 \<and> b0 \<le> 0xDF then
           if cont_byte b1 then ((b0 - 0xC0) * 64 + (b1 - 0x80), 2) else (0xFFFD, 1)
         else if 0xE0 \<le> b0 \<and> b0 \<le> 0xEF then
           if \<not> second_ok b0 b1 then (0xFFFD, 1)
           else if \<not> cont_byte b2 then (0xFFFD, 2)
           else ((b0 - 0xE0) * 4096 + (b1 - 0x80) * 64 + (b2 - 0x80), 3)
         else if 0xF0 \<le> b0 \<and> b0 \<le> 0xF4 then
           if \<not> second_ok b0 b1 then (0xFFFD, 1)
           else if \<not> cont_byte b2 then (0xFFFD, 2)
           else if \<not> cont_byte b3 then (0xFFFD, 3)
           else ((b0 - 0xF0) * 262144 + (b1 - 0x80) * 4096 + (b2 - 0x80) * 64 + (b3 - 0x80), 4)
         else (0xFFFD, 1))"

lemma utf8_step_pos: "0 < snd (utf8_step bs)"
  by (simp add: utf8_step_def Let_def)

function from_utf8_lossy :: "bytes \<Rightarrow> rstr" where
  "from_utf8_lossy bs =
     (if bs = [] then [] else fst (utf8_step bs) # from_utf8_lossy (drop (snd (utf8_step bs)) bs))"
  by pat_completeness auto
termination
  by (relation "measure length") (auto simp: utf8_step_pos)

declare from_utf8_lossy.simps [simp del]

text \<open>\<^verbatim>\<open>String::from_utf8\<close>: the lossy decoding, accepted only when nothing was replaced.\<close>

definition from_utf8 :: "bytes \<Rightarrow> rstr option" where
  "from_utf8 bs = (let s = from_utf8_lossy bs in if as_bytes s = bs then Some s else None)"

section \<open>Laws\<close>

lemma digits_value_snoc:
  "d < 10 \<Longrightarrow> digits_value acc (s @ [48 + d]) = map_option (\<lambda>v. v * 10 + d) (digits_value acc s)"
  by (induction s arbitrary: acc) (simp_all add: digit_of_def split: option.split)

lemma digits_value_dec: "digits_value 0 (dec n) = Some n"
proof (induction n rule: dec.induct)
  case (1 n)
  show ?case
  proof (cases "n < 10")
    case True
    then show ?thesis by (simp add: dec.simps[of n] digit_of_def)
  next
    case False
    with 1 show ?thesis
      using digits_value_snoc[of "n mod 10" 0 "dec (n div 10)"] by (simp add: dec.simps[of n])
  qed
qed

lemma dec_digits: "c \<in> set (dec n) \<Longrightarrow> 48 \<le> c \<and> c \<le> 57"
proof (induction n rule: dec.induct)
  case (1 n)
  then show ?case
  proof (cases "n < 10")
    case False
    with 1 show ?thesis by (auto simp: dec.simps[of n])
  qed (use 1 in \<open>auto simp: dec.simps[of n]\<close>)
qed

lemma dec_not_Nil [simp]: "dec n \<noteq> []"
  by (subst dec.simps) simp

lemma parse_uint_dec: "parse_uint m (dec n) = (if n \<le> m then Some n else None)"
proof -
  obtain c r where cr: "dec n = c # r"
    by (cases "dec n") simp_all
  then have "c \<noteq> 43"
    using dec_digits[of c n] by auto
  then have "(case dec n of c # r \<Rightarrow> if c = 43 then r else dec n | [] \<Rightarrow> []) = dec n"
    by (simp add: cr)
  then show ?thesis
    by (simp add: parse_uint_def digits_value_dec)
qed

lemma parse_u8_dec: "parse_u8 (dec (unat b)) = Some b"
proof -
  have "unat b \<le> 255"
    using unsigned_less[of b, where 'a = nat] by simp
  then show ?thesis
    by (simp add: parse_u8_def parse_uint_dec)
qed

lemma split_on_none: "sep \<notin> set s \<Longrightarrow> split_on sep s = [s]"
  by (induction s) auto

lemma split_on_append: "sep \<notin> set a \<Longrightarrow> split_on sep (a @ sep # b) = a # split_on sep b"
  by (induction a) (auto split: list.split)

lemma split_on_not_Nil [simp]: "split_on sep s \<noteq> []"
  by (induction s) (auto split: list.split)

lemma dec_no_char: "c < 48 \<or> 57 < c \<Longrightarrow> c \<notin> set (dec n)"
  using dec_digits by fastforce

lemma from_utf8_lossy_ascii: "list_all (\<lambda>b. b < 0x80) bs \<Longrightarrow> from_utf8_lossy bs = map unat bs"
proof (induction bs)
  case Nil
  show ?case by (subst from_utf8_lossy.simps) simp
next
  case (Cons b bs)
  have "unat b < 0x80"
    using Cons.prems by (simp add: word_less_nat_alt)
  then have "utf8_step (b # bs) = (unat b, 1)"
    by (simp add: utf8_step_def nth_byte_def Let_def)
  with Cons show ?case
    by (subst from_utf8_lossy.simps) simp
qed

lemma as_bytes_ascii: "list_all (\<lambda>c. c < 0x80) s \<Longrightarrow> as_bytes s = map of_nat s"
  by (induction s) (simp_all add: as_bytes_def utf8_char_def)

lemma lossy_as_bytes_ascii:
  assumes "list_all (\<lambda>c. c < 0x80) s"
  shows "from_utf8_lossy (as_bytes s) = s"
proof -
  have small: "unat (of_nat c :: u8) = c" if "c < 0x80" for c
    using that of_nat_unat_len[of c, where 'a = 8] by simp
  have "list_all (\<lambda>b. b < 0x80) (map of_nat s :: bytes)"
    using assms small by (auto simp: list_all_iff word_less_nat_alt)
  moreover have "map (unat \<circ> (of_nat :: nat \<Rightarrow> u8)) s = s"
    using assms small by (induction s) auto
  ultimately show ?thesis
    by (simp add: as_bytes_ascii[OF assms] from_utf8_lossy_ascii)
qed

end
