(* ===== verification/Backend.thy ===== *)
theory Backend
  imports Rust_Str
begin

text \<open>
  The adapter abstraction of \<^verbatim>\<open>src/src/backend/mod.rs\<close> and the instrument handle of
  \<^verbatim>\<open>src/src/frontend/instrument.rs\<close>. The trait object \<^verbatim>\<open>dyn GpibBackend\<close> is a record of operations over
  the state \<open>'b\<close> of the adapter and its bus: an operation returns its result and the next state. An
  \<^verbatim>\<open>anyhow\<close> error is the text its alternate format prints, since that text is what the front-ends
  inspect.
\<close>

section \<open>Bus lines\<close>

record bus_lines =
  bl_ren :: bool
  bl_ifc :: bool
  bl_srq :: bool
  bl_eoi :: bool
  bl_nrfd :: bool
  bl_ndac :: bool
  bl_dav :: bool
  bl_atn :: bool
  bl_raw :: u8

definition from_bsr :: "u8 \<Rightarrow> bus_lines" where
  "from_bsr raw =
     \<lparr>bl_ren = has_flag raw 0x01, bl_ifc = has_flag raw 0x02, bl_srq = has_flag raw 0x04,
      bl_eoi = has_flag raw 0x08, bl_nrfd = has_flag raw 0x10, bl_ndac = has_flag raw 0x20,
      bl_dav = has_flag raw 0x40, bl_atn = has_flag raw 0x80, bl_raw = raw\<rparr>"

definition show_bus_lines :: "bus_lines \<Rightarrow> rstr" where
  "show_bus_lines l =
     lit ''0x'' @ [hex_digit (unat (bl_raw l) div 16), hex_digit (unat (bl_raw l) mod 16)] @
     concat (map (\<lambda>(on, name). if on then lit '' '' @ lit name else [])
       [(bl_atn l, ''ATN''), (bl_dav l, ''DAV''), (bl_ndac l, ''NDAC''), (bl_nrfd l, ''NRFD''),
        (bl_eoi l, ''EOI''), (bl_srq l, ''SRQ''), (bl_ifc l, ''IFC''), (bl_ren l, ''REN'')]) @
     (if bl_raw l = 0 then lit '' (none asserted)'' else [])"

section \<open>The trait\<close>

type_synonym 'a io = "(rstr, 'a) result"

record 'b backend_ops =
  op_write :: "u8 \<Rightarrow> bytes \<Rightarrow> bool \<Rightarrow> 'b \<Rightarrow> unit io \<times> 'b"
  op_read :: "u8 \<Rightarrow> nat \<Rightarrow> 'b \<Rightarrow> (bytes \<times> bool) io \<times> 'b"
  op_device_clear :: "u8 \<Rightarrow> 'b \<Rightarrow> unit io \<times> 'b"
  op_trigger :: "u8 \<Rightarrow> 'b \<Rightarrow> unit io \<times> 'b"
  op_ifc :: "'b \<Rightarrow> unit io \<times> 'b"
  op_ren :: "bool \<Rightarrow> 'b \<Rightarrow> unit io \<times> 'b"
  op_go_to_remote :: "u8 \<Rightarrow> 'b \<Rightarrow> unit io \<times> 'b"
  op_go_to_local :: "u8 \<Rightarrow> 'b \<Rightarrow> unit io \<times> 'b"
  op_local_lockout :: "'b \<Rightarrow> unit io \<times> 'b"
  op_serial_poll :: "u8 \<Rightarrow> 'b \<Rightarrow> u8 io \<times> 'b"
  op_srq_asserted :: "'b \<Rightarrow> bool io \<times> 'b"
  op_bus_lines :: "'b \<Rightarrow> bus_lines io \<times> 'b"
  op_set_listen_only :: "bool \<Rightarrow> 'b \<Rightarrow> unit io \<times> 'b"
  op_listen_only :: "'b \<Rightarrow> bool"
  op_set_device_mode :: "u8 option \<Rightarrow> 'b \<Rightarrow> unit io \<times> 'b"
  op_device_address :: "'b \<Rightarrow> u8 option"
  op_can_subscribe_srq :: "'b \<Rightarrow> bool"
  op_send_bus_command :: "bytes \<Rightarrow> 'b \<Rightarrow> unit io \<times> 'b"
  op_set_atn :: "bool \<Rightarrow> 'b \<Rightarrow> unit io \<times> 'b"
  op_controller_pad :: "'b \<Rightarrow> u8"
  op_set_controller_pad :: "u8 \<Rightarrow> 'b \<Rightarrow> unit io \<times> 'b"
  op_send_data_unaddressed :: "bytes \<Rightarrow> bool \<Rightarrow> 'b \<Rightarrow> unit io \<times> 'b"
  op_read_unaddressed :: "nat \<Rightarrow> 'b \<Rightarrow> (bytes \<times> bool) io \<times> 'b"
  op_set_eos :: "u8 \<Rightarrow> bool \<Rightarrow> 'b \<Rightarrow> 'b"
  op_eos :: "'b \<Rightarrow> u8 \<times> bool"
  op_set_timeout :: "u32 \<Rightarrow> 'b \<Rightarrow> 'b"
  op_read_slice_ms :: "'b \<Rightarrow> u32 option"

text \<open>The default methods of the trait refuse, naming the adapter.\<close>

definition refuse_op :: "rstr \<Rightarrow> string \<Rightarrow> 'b \<Rightarrow> 'a io \<times> 'b" where
  "refuse_op name what b = (Inl (name @ lit what), b)"

abbreviation default_srq_asserted :: "rstr \<Rightarrow> 'b \<Rightarrow> bool io \<times> 'b" where
  "default_srq_asserted name \<equiv> refuse_op name '' cannot read the SRQ line''"

abbreviation default_bus_lines :: "rstr \<Rightarrow> 'b \<Rightarrow> bus_lines io \<times> 'b" where
  "default_bus_lines name \<equiv> refuse_op name '' cannot read the GPIB control lines''"

abbreviation default_set_listen_only :: "rstr \<Rightarrow> bool \<Rightarrow> 'b \<Rightarrow> unit io \<times> 'b" where
  "default_set_listen_only name enable \<equiv> refuse_op name '' cannot enter listen-only mode''"

abbreviation default_set_device_mode :: "rstr \<Rightarrow> u8 option \<Rightarrow> 'b \<Rightarrow> unit io \<times> 'b" where
  "default_set_device_mode name address \<equiv> refuse_op name '' cannot act as a GPIB device''"

abbreviation default_send_bus_command :: "rstr \<Rightarrow> bytes \<Rightarrow> 'b \<Rightarrow> unit io \<times> 'b" where
  "default_send_bus_command name cmds \<equiv> refuse_op name '' cannot send raw bus commands''"

abbreviation default_set_atn :: "rstr \<Rightarrow> bool \<Rightarrow> 'b \<Rightarrow> unit io \<times> 'b" where
  "default_set_atn name assert_it \<equiv> refuse_op name '' cannot drive ATN directly''"

abbreviation default_listen_only :: "'b \<Rightarrow> bool" where "default_listen_only b \<equiv> False"
abbreviation default_device_address :: "'b \<Rightarrow> u8 option" where "default_device_address b \<equiv> None"
abbreviation default_subscribe_srq :: "'b \<Rightarrow> bool" where "default_subscribe_srq b \<equiv> False"
abbreviation default_read_slice_ms :: "'b \<Rightarrow> u32 option" where "default_read_slice_ms b \<equiv> None"

section \<open>Instruments\<close>

text \<open>
  An \<^verbatim>\<open>Instrument\<close> is a primary address on the shared bus. The bus itself is behind one mutex, so a
  tenure (\<^verbatim>\<open>hold\<close>) is a piece of the model that threads the adapter state through without giving it
  away. Only the two read operations add anything to the trait: they clamp the length.
\<close>

abbreviation MAX_READ :: nat where "MAX_READ \<equiv> 65536"

definition resource_key :: "u8 \<Rightarrow> rstr" where
  "resource_key pad = lit ''gpib'' @ dec (unat pad)"

definition held_read :: "'b backend_ops \<Rightarrow> u8 \<Rightarrow> nat \<Rightarrow> 'b \<Rightarrow> (bytes \<times> bool) io \<times> 'b" where
  "held_read ops pad max_len b = op_read ops pad (min max_len MAX_READ) b"

definition held_read_unaddressed :: "'b backend_ops \<Rightarrow> nat \<Rightarrow> 'b \<Rightarrow> (bytes \<times> bool) io \<times> 'b" where
  "held_read_unaddressed ops max_len b = op_read_unaddressed ops (min max_len MAX_READ) b"

section \<open>What the front-ends rely on\<close>

text \<open>
  The part of the trait's contract every adapter keeps: the end-of-string setting is what was last
  set, the timeout likewise (\<open>tmo\<close> reads it; the trait has no getter), and no data operation changes
  either.
\<close>

locale gpib_backend =
  fixes ops :: "'b backend_ops"
    and tmo :: "'b \<Rightarrow> u32"
  assumes eos_set_eos: "op_eos ops (op_set_eos ops c e b) = (c, e)"
    and eos_set_timeout: "op_eos ops (op_set_timeout ops t b) = op_eos ops b"
    and tmo_set_timeout: "tmo (op_set_timeout ops t b) = t"
    and tmo_set_eos: "tmo (op_set_eos ops c e b) = tmo b"
    and eos_write: "op_eos ops (snd (op_write ops pad d eoi b)) = op_eos ops b"
    and eos_send: "op_eos ops (snd (op_send_data_unaddressed ops d eoi b)) = op_eos ops b"
    and eos_read: "op_eos ops (snd (op_read ops pad n b)) = op_eos ops b"
    and eos_read_unaddressed: "op_eos ops (snd (op_read_unaddressed ops n b)) = op_eos ops b"
    and tmo_read: "tmo (snd (op_read ops pad n b)) = tmo b"
    and tmo_read_unaddressed: "tmo (snd (op_read_unaddressed ops n b)) = tmo b"
    and tmo_write: "tmo (snd (op_write ops pad d eoi b)) = tmo b"
    and tmo_send: "tmo (snd (op_send_data_unaddressed ops d eoi b)) = tmo b"

text \<open>The rest of the contract depends on the device as well: a read returns no more than was asked for.\<close>

definition reads_fit :: "'b backend_ops \<Rightarrow> bool" where
  "reads_fit ops \<longleftrightarrow>
     (\<forall>pad n b. case fst (op_read ops pad n b) of Inl _ \<Rightarrow> True | Inr (d, _) \<Rightarrow> length d \<le> n) \<and>
     (\<forall>n b. case fst (op_read_unaddressed ops n b) of Inl _ \<Rightarrow> True | Inr (d, _) \<Rightarrow> length d \<le> n)"

section \<open>Laws\<close>

lemma resource_key_inject: "resource_key p = resource_key q \<longleftrightarrow> p = q"
proof
  assume "resource_key p = resource_key q"
  then have "parse_u8 (dec (unat p)) = parse_u8 (dec (unat q))"
    by (simp add: resource_key_def)
  then show "p = q"
    by (simp add: parse_u8_dec)
qed simp

lemma flag_bits:
  "has_flag (w :: u8) 0x01 \<longleftrightarrow> bit w 0" "has_flag w 0x02 \<longleftrightarrow> bit w 1" "has_flag w 0x04 \<longleftrightarrow> bit w 2"
  "has_flag w 0x08 \<longleftrightarrow> bit w 3" "has_flag w 0x10 \<longleftrightarrow> bit w 4" "has_flag w 0x20 \<longleftrightarrow> bit w 5"
  "has_flag w 0x40 \<longleftrightarrow> bit w 6" "has_flag w 0x80 \<longleftrightarrow> bit w 7"
  using has_flag_power[of w 0] has_flag_power[of w 1] has_flag_power[of w 2] has_flag_power[of w 3]
    has_flag_power[of w 4] has_flag_power[of w 5] has_flag_power[of w 6] has_flag_power[of w 7]
  by simp_all

section \<open>Properties\<close>

text \<open>The bus status register is decoded without loss: the eight lines of a reading are the eight
  bits of its raw byte, so two readings with the same lines come from the same byte, and the raw
  byte is kept.\<close>

theorem bus_lines_faithful:
  "bl_raw (from_bsr r) = r \<and>
   ((bl_ren (from_bsr r), bl_ifc (from_bsr r), bl_srq (from_bsr r), bl_eoi (from_bsr r),
     bl_nrfd (from_bsr r), bl_ndac (from_bsr r), bl_dav (from_bsr r), bl_atn (from_bsr r)) =
    (bl_ren (from_bsr s), bl_ifc (from_bsr s), bl_srq (from_bsr s), bl_eoi (from_bsr s),
     bl_nrfd (from_bsr s), bl_ndac (from_bsr s), bl_dav (from_bsr s), bl_atn (from_bsr s)) \<longleftrightarrow> r = s)"
proof -
  have "r = s" if eq: "bit r 0 = bit s 0" "bit r 1 = bit s 1" "bit r 2 = bit s 2" "bit r 3 = bit s 3"
    "bit r 4 = bit s 4" "bit r 5 = bit s 5" "bit r 6 = bit s 6" "bit r 7 = bit s 7"
  proof (rule bit_word_eqI)
    fix n assume "n < LENGTH(8)"
    then have "n = 0 \<or> n = 1 \<or> n = 2 \<or> n = 3 \<or> n = 4 \<or> n = 5 \<or> n = 6 \<or> n = 7"
      by auto
    with eq show "bit r n = bit s n"
      by blast
  qed
  then show ?thesis
    unfolding from_bsr_def flag_bits by auto
qed

end
