(* ===== verification/Vxi11_Server.thy ===== *)
theory Vxi11_Server
  imports Portmap Lock_Registry Backend
begin

text \<open>
  The VXI-11 server of \<^verbatim>\<open>src/src/vxi11/server.rs\<close> with the constants of \<^verbatim>\<open>src/src/vxi11/mod.rs\<close>: device names,
  links, the lock gate, the device operations, the abort channel, the interrupt channel with its
  service-request forwarder, the dispatcher and the connection loop.

  Handlers are functions from the server state to a reply and the next state. Time is in nanoseconds.
  What a handler cannot know in advance comes in as lists of observations: a loop that looks at the
  clock and at the abort flag in every turn takes one pair per turn, and gives \<^const>\<open>None\<close> when the list
  ends before the loop does. Waits on the lock registry take the schedules of \<^const>\<open>request\<close>.
\<close>

section \<open>Constants\<close>

abbreviation DEVICE_CORE_PROG :: u32 where "DEVICE_CORE_PROG \<equiv> 0x0607AF"
abbreviation DEVICE_CORE_VERS :: u32 where "DEVICE_CORE_VERS \<equiv> 1"
abbreviation DEVICE_ASYNC_PROG :: u32 where "DEVICE_ASYNC_PROG \<equiv> 0x0607B0"
abbreviation DEVICE_ASYNC_VERS :: u32 where "DEVICE_ASYNC_VERS \<equiv> 1"
abbreviation DEVICE_INTR_PROG :: u32 where "DEVICE_INTR_PROG \<equiv> 0x0607B1"
abbreviation DEVICE_INTR_VERS :: u32 where "DEVICE_INTR_VERS \<equiv> 1"
abbreviation CREATE_LINK :: u32 where "CREATE_LINK \<equiv> 10"
abbreviation DEVICE_WRITE :: u32 where "DEVICE_WRITE \<equiv> 11"
abbreviation DEVICE_READ :: u32 where "DEVICE_READ \<equiv> 12"
abbreviation DEVICE_READSTB :: u32 where "DEVICE_READSTB \<equiv> 13"
abbreviation DEVICE_TRIGGER :: u32 where "DEVICE_TRIGGER \<equiv> 14"
abbreviation DEVICE_CLEAR :: u32 where "DEVICE_CLEAR \<equiv> 15"
abbreviation DEVICE_REMOTE :: u32 where "DEVICE_REMOTE \<equiv> 16"
abbreviation DEVICE_LOCAL :: u32 where "DEVICE_LOCAL \<equiv> 17"
abbreviation DEVICE_LOCK :: u32 where "DEVICE_LOCK \<equiv> 18"
abbreviation DEVICE_UNLOCK :: u32 where "DEVICE_UNLOCK \<equiv> 19"
abbreviation DEVICE_ENABLE_SRQ :: u32 where "DEVICE_ENABLE_SRQ \<equiv> 20"
abbreviation DEVICE_DOCMD :: u32 where "DEVICE_DOCMD \<equiv> 22"
abbreviation DESTROY_LINK :: u32 where "DESTROY_LINK \<equiv> 23"
abbreviation CREATE_INTR_CHAN :: u32 where "CREATE_INTR_CHAN \<equiv> 25"
abbreviation DESTROY_INTR_CHAN :: u32 where "DESTROY_INTR_CHAN \<equiv> 26"
abbreviation DEVICE_ABORT :: u32 where "DEVICE_ABORT \<equiv> 1"
abbreviation DEVICE_INTR_SRQ :: u32 where "DEVICE_INTR_SRQ \<equiv> 30"
abbreviation OP_FLAG_WAITLOCK :: u32 where "OP_FLAG_WAITLOCK \<equiv> 1"
abbreviation OP_FLAG_END :: u32 where "OP_FLAG_END \<equiv> 8"
abbreviation OP_FLAG_TERMCHRSET :: u32 where "OP_FLAG_TERMCHRSET \<equiv> 128"
abbreviation RX_REQCNT :: u32 where "RX_REQCNT \<equiv> 1"
abbreviation RX_CHR :: u32 where "RX_CHR \<equiv> 2"
abbreviation RX_END :: u32 where "RX_END \<equiv> 4"
abbreviation DEVICE_TCP :: u32 where "DEVICE_TCP \<equiv> 0"

datatype error_code = NoError | SyntaxError | DeviceNotAccessible | InvalidLinkIdentifier
  | ParameterError | ChannelNotEstablished | OperationNotSupported | OutOfResources
  | DeviceLockedByAnotherLink | NoLockHeldByThisLink | IoTimeout | IoError | InvalidAddress
  | AbortError | ChannelAlreadyEstablished

fun as_u32 :: "error_code \<Rightarrow> u32" where
  "as_u32 NoError = 0"
| "as_u32 SyntaxError = 1"
| "as_u32 DeviceNotAccessible = 3"
| "as_u32 InvalidLinkIdentifier = 4"
| "as_u32 ParameterError = 5"
| "as_u32 ChannelNotEstablished = 6"
| "as_u32 OperationNotSupported = 8"
| "as_u32 OutOfResources = 9"
| "as_u32 DeviceLockedByAnotherLink = 11"
| "as_u32 NoLockHeldByThisLink = 12"
| "as_u32 IoTimeout = 15"
| "as_u32 IoError = 17"
| "as_u32 InvalidAddress = 21"
| "as_u32 AbortError = 23"
| "as_u32 ChannelAlreadyEstablished = 29"

section \<open>Device names\<close>

datatype device_addr = Pad u8 | Interface

definition parse_device_name :: "rstr \<Rightarrow> u8 \<Rightarrow> (error_code, device_addr) result" where
  "parse_device_name name0 default_pad =
     (let name = to_ascii_lowercase (trim name0)
      in if name = lit ''inst0'' then Inr (Pad default_pad)
         else if name = lit ''gpib0'' then Inr Interface
         else case strip_prefix (lit ''gpib'') name of
                None \<Rightarrow> Inl SyntaxError
              | Some rest \<Rightarrow>
                  let parts = split_on 44 rest
                  in case parse_u8 (hd parts) of
                       None \<Rightarrow> Inl SyntaxError
                     | Some interface_no \<Rightarrow>
                         if interface_no \<noteq> 0 then Inl DeviceNotAccessible
                         else case tl parts of
                                [] \<Rightarrow> Inl SyntaxError
                              | pad_str # more_parts \<Rightarrow>
                                  (case parse_u8 pad_str of
                                     None \<Rightarrow> Inl SyntaxError
                                   | Some pad \<Rightarrow>
                                       if pad > 30 then Inl InvalidAddress
                                       else case more_parts of
                                              _ # _ \<Rightarrow> Inl InvalidAddress
                                            | [] \<Rightarrow> Inr (Pad pad)))"

section \<open>State\<close>

record config =
  cf_max_recv_size :: u32
  cf_max_links :: nat
  cf_default_io_timeout_ms :: u32
  cf_default_pad :: u8

definition default_config :: config where
  "default_config = \<lparr>cf_max_recv_size = 65536, cf_max_links = 64, cf_default_io_timeout_ms = 3000,
     cf_default_pad = 0\<rparr>"

record link =
  lk_lid :: i32
  lk_kind :: device_addr
  lk_pad :: u8
  lk_in_flight :: bool
  lk_aborted :: bool
  lk_notified :: bool
  lk_srq_handle :: "bytes option"
  lk_consumed_stb :: "u8 option"

record 'b shared =
  sh_config :: config
  sh_links :: "(i32 \<times> link) list"
  sh_next_lid :: i32
  sh_abort_port :: u16
  sh_locks :: lock_registry
  sh_bus :: 'b

text \<open>A connection: its links, the handles sent into its interrupt channel while there is one (the
  queue behind \<^verbatim>\<open>tx\<close>, oldest first), and the address it came from.\<close>

record conn_state =
  cs_owned :: "i32 list"
  cs_intr :: "bytes list option"
  cs_peer :: u32

definition holder :: "link \<Rightarrow> holder_id" where
  "holder l = vxi11_id (lk_lid l)"

definition resource :: "link \<Rightarrow> rstr" where
  "resource l = (case lk_kind l of Interface \<Rightarrow> lit ''gpib0:intf'' | Pad _ \<Rightarrow> resource_key (lk_pad l))"

abbreviation is_interface :: "link \<Rightarrow> bool" where
  "is_interface l \<equiv> lk_kind l = Interface"

definition link_for :: "'b shared \<Rightarrow> i32 \<Rightarrow> link option" where
  "link_for sh lid = map_of (sh_links sh) lid"

text \<open>The link objects are shared by reference: an update reaches the table's entry.\<close>

definition set_link :: "i32 \<Rightarrow> (link \<Rightarrow> link) \<Rightarrow> 'b shared \<Rightarrow> 'b shared" where
  "set_link lid f sh = sh\<lparr>sh_links := map (\<lambda>(k, l). (k, if k = lid then f l else l)) (sh_links sh)\<rparr>"

text \<open>The window of an abortable operation (\<^verbatim>\<open>OpWindow\<close>): opening, consuming an abort, dropping.\<close>

definition window_open :: "link \<Rightarrow> link" where
  "window_open l = l\<lparr>lk_in_flight := True\<rparr>"

definition take_abort :: "link \<Rightarrow> bool \<times> link" where
  "take_abort l = (lk_aborted l, l\<lparr>lk_aborted := False\<rparr>)"

definition window_drop :: "link \<Rightarrow> link" where
  "window_drop l = l\<lparr>lk_aborted := False, lk_in_flight := False\<rparr>"

definition effective_timeout :: "config \<Rightarrow> u32 \<Rightarrow> u32" where
  "effective_timeout cf io_timeout_ms =
     (if io_timeout_ms = 0 then cf_default_io_timeout_ms cf else io_timeout_ms)"

definition deadline_after :: "nat \<Rightarrow> u32 \<Rightarrow> nat" where
  "deadline_after now ms = now + unat ms * 1000000"

section \<open>The abort channel\<close>

definition abort_link :: "link \<Rightarrow> link" where
  "abort_link l = (if lk_in_flight l then l\<lparr>lk_aborted := True, lk_notified := True\<rparr> else l)"

definition abort_dispatch :: "'b shared \<Rightarrow> call_header \<Rightarrow> bytes \<Rightarrow> bytes \<times> 'b shared" where
  "abort_dispatch sh header args =
     (let xid = ch_xid header
      in if ch_prog header \<noteq> DEVICE_ASYNC_PROG then (reply_prog_unavail xid, sh)
         else if ch_vers header \<noteq> DEVICE_ASYNC_VERS then
           (reply_prog_mismatch xid DEVICE_ASYNC_VERS DEVICE_ASYNC_VERS, sh)
         else if ch_proc header \<noteq> DEVICE_ABORT then (reply_proc_unavail xid, sh)
         else case cur_i32 (new_cursor args) of
                Inl _ \<Rightarrow> (reply_garbage_args xid, sh)
              | Inr (lid, _) \<Rightarrow>
                  (case link_for sh lid of
                     Some _ \<Rightarrow> (reply_success xid (encode_device_error (as_u32 NoError)),
                               set_link lid abort_link sh)
                   | None \<Rightarrow> (reply_success xid (encode_device_error (as_u32 InvalidLinkIdentifier)), sh)))"

text \<open>One connection to the abort channel: \<open>writes\<close> is how many replies the peer accepts. Every way out of
  the loop just ends the connection.\<close>

function abort_session :: "nat \<Rightarrow> stream \<Rightarrow> 'b shared \<Rightarrow> bytes list \<times> 'b shared" where
  "abort_session writes rd sh =
     (case read_record 4096 rd of
        Inr (Some rec, rd') \<Rightarrow>
          (case (case decode_call rec of
                   Inr (header, args) \<Rightarrow> Some (abort_dispatch sh header args)
                 | Inl (RpcVersion xid _) \<Rightarrow> Some (reply_rpc_mismatch xid, sh)
                 | Inl _ \<Rightarrow> None) of
             None \<Rightarrow> ([], sh)
           | Some (reply, sh') \<Rightarrow>
               (case write_record reply of
                  Inl _ \<Rightarrow> ([], sh')
                | Inr frame \<Rightarrow>
                    if writes = 0 then ([], sh')
                    else let (out, sh'') = abort_session (writes - 1) rd' sh' in (frame # out, sh'')))
      | _ \<Rightarrow> ([], sh))"
  by pat_completeness auto
termination
  by (relation "measure (\<lambda>(_, rd, _). length (pending rd))") (auto dest: read_record_shrinks)

declare abort_session.simps [simp del]

section \<open>The lock gate\<close>

type_synonym lock_sched = "(nat \<times> (lock_registry \<Rightarrow> lock_registry)) list"

definition acquire_access ::
    "lock_sched \<Rightarrow> nat \<Rightarrow> 'b shared \<Rightarrow> link \<Rightarrow> u32 \<Rightarrow> u32 \<Rightarrow> ((error_code, unit) result \<times> 'b shared) option" where
  "acquire_access sched now sh l flags lock_timeout_ms =
     (if has_access (sh_locks sh) (resource l) (holder l) then Some (Inr (), sh)
      else if \<not> has_flag flags OP_FLAG_WAITLOCK then Some (Inl DeviceLockedByAnotherLink, sh)
      else case wait_for_access_timeout sched now (sh_locks sh) (resource l) (holder l)
                  (unat lock_timeout_ms * 1000000) of
             None \<Rightarrow> None
           | Some (granted, locks') \<Rightarrow>
               Some (if granted then Inr () else Inl DeviceLockedByAnotherLink, sh\<lparr>sh_locks := locks'\<rparr>))"

section \<open>Links\<close>

definition refuse_link :: "error_code \<Rightarrow> create_link_resp" where
  "refuse_link e = \<lparr>clr_error = as_u32 e, clr_lid = 0, clr_abort_port = 0, clr_max_recv_size = 0\<rparr>"

definition new_link :: "i32 \<Rightarrow> device_addr \<Rightarrow> u8 \<Rightarrow> link" where
  "new_link lid kind pad =
     \<lparr>lk_lid = lid, lk_kind = kind, lk_pad = pad, lk_in_flight = False, lk_aborted = False,
      lk_notified = False, lk_srq_handle = None, lk_consumed_stb = None\<rparr>"

definition create_link ::
    "lock_sched \<Rightarrow> nat \<Rightarrow> 'b shared \<Rightarrow> conn_state \<Rightarrow> create_link_parms \<Rightarrow>
     (create_link_resp \<times> 'b shared \<times> conn_state) option" where
  "create_link sched now sh conn parms =
     (case parse_device_name (from_utf8_lossy (clp_device parms)) (cf_default_pad (sh_config sh)) of
        Inl e \<Rightarrow> Some (refuse_link e, sh, conn)
      | Inr kind \<Rightarrow>
          let pad = (case kind of Pad p \<Rightarrow> p | Interface \<Rightarrow> cf_default_pad (sh_config sh))
          in if cf_max_links (sh_config sh) \<le> length (sh_links sh) then
               Some (refuse_link OutOfResources, sh, conn)
             else
               let lid = sh_next_lid sh;
                   l = new_link lid kind pad;
                   sh1 = sh\<lparr>sh_next_lid := sh_next_lid sh + 1, sh_links := AList.update lid l (sh_links sh)\<rparr>;
                   conn1 = conn\<lparr>cs_owned := cs_owned conn @ [lid]\<rparr>;
                   ok = \<lparr>clr_error = as_u32 NoError, clr_lid = lid, clr_abort_port = sh_abort_port sh,
                         clr_max_recv_size = cf_max_recv_size (sh_config sh)\<rparr>
               in if \<not> clp_lock_device parms then Some (ok, sh1, conn1)
                  else case request sched now (sh_locks sh1) (resource l) (holder l) []
                              (unat (clp_lock_timeout_ms parms) * 1000000) of
                         None \<Rightarrow> None
                       | Some (granted, locks') \<Rightarrow>
                           if is_success granted then Some (ok, sh1\<lparr>sh_locks := locks'\<rparr>, conn1)
                           else Some (refuse_link DeviceLockedByAnotherLink,
                                      sh1\<lparr>sh_locks := locks', sh_links := AList.delete lid (sh_links sh1)\<rparr>,
                                      conn1\<lparr>cs_owned := filter (\<lambda>k. k \<noteq> lid) (cs_owned conn1)\<rparr>))"

definition destroy_link :: "'b shared \<Rightarrow> conn_state \<Rightarrow> i32 \<Rightarrow> error_code \<times> 'b shared \<times> conn_state" where
  "destroy_link sh conn lid =
     (case link_for sh lid of
        Some l \<Rightarrow>
          (NoError,
           sh\<lparr>sh_links := AList.delete lid (sh_links sh), sh_locks := release_all (sh_locks sh) (holder l)\<rparr>,
           conn\<lparr>cs_owned := filter (\<lambda>k. k \<noteq> lid) (cs_owned conn)\<rparr>)
      | None \<Rightarrow> (InvalidLinkIdentifier, sh, conn))"

text \<open>\<^verbatim>\<open>device_lock\<close> waits for its request and for an abort at once. An event is either a turn of the
  request loop, or a wake-up of the abort notification with what \<^verbatim>\<open>take_abort\<close> finds.\<close>

datatype lock_event = LockTurn nat "lock_registry \<Rightarrow> lock_registry" | AbortWake bool

fun lock_wait ::
    "lock_event list \<Rightarrow> rstr \<Rightarrow> holder_id \<Rightarrow> nat \<Rightarrow> lock_registry \<Rightarrow> (error_code \<times> lock_registry) option" where
  "lock_wait [] res h deadline reg = None"
| "lock_wait (AbortWake aborted # evs) res h deadline reg =
     (if aborted then Some (AbortError, reg) else lock_wait evs res h deadline reg)"
| "lock_wait (LockTurn now others # evs) res h deadline reg =
     (case try_request reg res h [] of
        (Some granted, reg') \<Rightarrow>
          Some (if is_success granted then NoError else DeviceLockedByAnotherLink, reg')
      | (None, reg') \<Rightarrow>
          if deadline \<le> now then Some (DeviceLockedByAnotherLink, reg')
          else lock_wait evs res h deadline (others reg'))"

definition device_lock ::
    "lock_event list \<Rightarrow> nat \<Rightarrow> 'b shared \<Rightarrow> device_lock_parms \<Rightarrow> (error_code \<times> 'b shared) option" where
  "device_lock evs now sh parms =
     (case link_for sh (dlp_lid parms) of
        None \<Rightarrow> Some (InvalidLinkIdentifier, sh)
      | Some l \<Rightarrow>
          if holds (sh_locks sh) (resource l) (holder l) then Some (DeviceLockedByAnotherLink, sh)
          else
            let timeout = (if has_flag (dlp_flags parms) OP_FLAG_WAITLOCK
                           then unat (dlp_lock_timeout_ms parms) * 1000000 else 0)
            in case lock_wait evs (resource l) (holder l) (now + timeout) (sh_locks sh) of
                 None \<Rightarrow> None
               | Some (e, locks') \<Rightarrow>
                   Some (e, set_link (dlp_lid parms) window_drop (sh\<lparr>sh_locks := locks'\<rparr>)))"

definition device_unlock :: "'b shared \<Rightarrow> i32 \<Rightarrow> error_code \<times> 'b shared" where
  "device_unlock sh lid =
     (case link_for sh lid of
        Some l \<Rightarrow>
          if holds (sh_locks sh) (resource l) (holder l) then
            (NoError, sh\<lparr>sh_locks := snd (release (sh_locks sh) (resource l) (holder l))\<rparr>)
          else (NoLockHeldByThisLink, sh)
      | None \<Rightarrow> (InvalidLinkIdentifier, sh))"

section \<open>Service requests\<close>

definition enable_srq ::
    "'b backend_ops \<Rightarrow> 'b shared \<Rightarrow> conn_state \<Rightarrow> device_enable_srq_parms \<Rightarrow> error_code \<times> 'b shared \<times> conn_state" where
  "enable_srq ops sh conn parms =
     (case link_for sh (dep_lid parms) of
        None \<Rightarrow> (InvalidLinkIdentifier, sh, conn)
      | Some l \<Rightarrow>
          let was_enabled = lk_srq_handle l \<noteq> None;
              sh1 = set_link (dep_lid parms)
                (\<lambda>l. l\<lparr>lk_srq_handle := (if dep_enable parms then Some (dep_handle parms) else None)\<rparr>) sh
          in if dep_enable parms \<and> \<not> was_enabled then
               (case cs_intr conn of
                  Some sent \<Rightarrow>
                    (case op_srq_asserted ops (sh_bus sh1) of
                       (Inr True, b) \<Rightarrow>
                         (NoError, sh1\<lparr>sh_bus := b\<rparr>, conn\<lparr>cs_intr := Some (sent @ [dep_handle parms])\<rparr>)
                     | (_, b) \<Rightarrow> (NoError, sh1\<lparr>sh_bus := b\<rparr>, conn))
                | None \<Rightarrow> (NoError, sh1, conn))
             else (NoError, sh1, conn))"

text \<open>\<open>connects\<close> is the outcome of the TCP connection to the client's interrupt server.\<close>

definition create_intr_chan :: "bool \<Rightarrow> conn_state \<Rightarrow> device_remote_func \<Rightarrow> error_code \<times> conn_state" where
  "create_intr_chan connects conn parms =
     (if drf_prog_family parms \<noteq> DEVICE_TCP then (OperationNotSupported, conn)
      else if drf_prog_num parms \<noteq> DEVICE_INTR_PROG \<or> drf_prog_vers parms \<noteq> DEVICE_INTR_VERS then
        (OperationNotSupported, conn)
      else if cs_intr conn \<noteq> None then (ChannelAlreadyEstablished, conn)
      else if \<not> connects then (ChannelNotEstablished, conn)
      else (NoError, conn\<lparr>cs_intr := Some []\<rparr>))"

definition destroy_intr_chan :: "conn_state \<Rightarrow> error_code \<times> conn_state" where
  "destroy_intr_chan conn =
     (case cs_intr conn of
        Some _ \<Rightarrow> (NoError, conn\<lparr>cs_intr := None\<rparr>)
      | None \<Rightarrow> (ChannelNotEstablished, conn))"

text \<open>The sender task of the channel: the calls it writes for a sequence of handles. The transaction id
  counts from 1 and wraps.\<close>

fun intr_calls :: "u32 \<Rightarrow> bytes list \<Rightarrow> bytes list" where
  "intr_calls xid [] = []"
| "intr_calls xid (h # hs) =
     encode_call (xid + 1) DEVICE_INTR_PROG DEVICE_INTR_VERS DEVICE_INTR_SRQ
       (encode_device_srq_parms \<lparr>dsp_handle = h\<rparr>) # intr_calls (xid + 1) hs"

abbreviation STB_RQS :: u8 where "STB_RQS \<equiv> 0x40"

text \<open>One pass of the forwarder after the line was seen asserted: over the enabled links of the
  connection, with one poll per instrument. \<open>polled\<close> and \<open>stash\<close> are the pass's two maps.\<close>

record 'b srq_pass =
  sp_shared :: "'b shared"
  sp_polled :: "(rstr \<times> bool) list"
  sp_stash :: "(rstr \<times> u8) list"
  sp_sent :: "bytes list"

definition srq_requesting :: "'b backend_ops \<Rightarrow> link \<Rightarrow> 'b srq_pass \<Rightarrow> bool \<times> 'b srq_pass" where
  "srq_requesting ops l st =
     (if is_interface l then (True, st)
      else case map_of (sp_polled st) (resource l) of
             Some r \<Rightarrow> (r, st)
           | None \<Rightarrow>
               (case op_serial_poll ops (lk_pad l) (sh_bus (sp_shared st)) of
                  (Inr stb, b) \<Rightarrow>
                    let r = has_flag stb STB_RQS
                    in (r, st\<lparr>sp_shared := (sp_shared st)\<lparr>sh_bus := b\<rparr>,
                              sp_stash := (if r then AList.update (resource l) stb (sp_stash st) else sp_stash st),
                              sp_polled := AList.update (resource l) r (sp_polled st)\<rparr>)
                | (Inl _, b) \<Rightarrow>
                    (False, st\<lparr>sp_shared := (sp_shared st)\<lparr>sh_bus := b\<rparr>,
                               sp_polled := AList.update (resource l) False (sp_polled st)\<rparr>)))"

definition srq_notify :: "link \<Rightarrow> 'b srq_pass \<Rightarrow> 'b srq_pass" where
  "srq_notify l st =
     (let sh1 = (case map_of (sp_stash st) (resource l) of
                   Some stb \<Rightarrow> set_link (lk_lid l) (\<lambda>l. l\<lparr>lk_consumed_stb := Some stb\<rparr>) (sp_shared st)
                 | None \<Rightarrow> sp_shared st);
          sent = (case lk_srq_handle l of Some h \<Rightarrow> sp_sent st @ [h] | None \<Rightarrow> sp_sent st)
      in st\<lparr>sp_shared := sh1, sp_sent := sent\<rparr>)"

definition srq_visit :: "'b backend_ops \<Rightarrow> link \<Rightarrow> 'b srq_pass \<Rightarrow> 'b srq_pass" where
  "srq_visit ops l st =
     (let (requesting, st1) = srq_requesting ops l st in if requesting then srq_notify l st1 else st1)"

definition srq_targets :: "'b shared \<Rightarrow> conn_state \<Rightarrow> link list" where
  "srq_targets sh conn =
     filter (\<lambda>l. lk_srq_handle l \<noteq> None) (List.map_filter (link_for sh) (cs_owned conn))"

definition srq_forward :: "'b backend_ops \<Rightarrow> 'b shared \<Rightarrow> conn_state \<Rightarrow> 'b shared \<times> conn_state" where
  "srq_forward ops sh conn =
     (let st = fold (srq_visit ops) (srq_targets sh conn)
                 \<lparr>sp_shared = sh, sp_polled = [], sp_stash = [], sp_sent = []\<rparr>
      in (sp_shared st,
          conn\<lparr>cs_intr := (case cs_intr conn of Some q \<Rightarrow> Some (q @ sp_sent st) | None \<Rightarrow> None)\<rparr>))"

text \<open>The forwarder task: what wakes it, and its loop. A list that ends leaves it waiting; the permit of the
  shutdown notification and the end of the broadcast stop it.\<close>

datatype srq_wake = Shutdown | Received | Lagged | Closed

fun srq_forwarder_loop :: "srq_wake list \<Rightarrow> 'b backend_ops \<Rightarrow> 'b shared \<Rightarrow> conn_state \<Rightarrow> 'b shared \<times> conn_state" where
  "srq_forwarder_loop [] ops sh conn = (sh, conn)"
| "srq_forwarder_loop (w # ws) ops sh conn =
     (if w = Shutdown \<or> w = Closed then (sh, conn)
      else let (sh', conn') = srq_forward ops sh conn in srq_forwarder_loop ws ops sh' conn')"

definition srq_forwarder :: "srq_wake list \<Rightarrow> 'b backend_ops \<Rightarrow> 'b shared \<Rightarrow> conn_state \<Rightarrow> 'b shared \<times> conn_state" where
  "srq_forwarder ws ops sh conn =
     (let (level, b) = op_srq_asserted ops (sh_bus sh);
          sh1 = sh\<lparr>sh_bus := b\<rparr>
      in if \<not> op_can_subscribe_srq ops (sh_bus sh1) then (sh1, conn)
         else let (sh2, conn2) = (if level = Inr True then srq_forward ops sh1 conn else (sh1, conn))
              in srq_forwarder_loop ws ops sh2 conn2)"

section \<open>Writing\<close>

definition adapter_floor_ms :: "nat \<Rightarrow> u32" where
  "adapter_floor_ms remaining_ms =
     (case find (\<lambda>step. unat step \<le> remaining_ms)
        [300000, 100000, 30000, 10000, 3000, 1000, 300, 100, 30, 10, 3, 1 :: u32] of
        Some step \<Rightarrow> step
      | None \<Rightarrow> 1)"

abbreviation WRITE_CHUNK :: nat where "WRITE_CHUNK \<equiv> 4096"

text \<open>One observation per turn: whether an abort is pending, and the clock. The result is the outcome,
  the count and the bus.\<close>

fun write_loop ::
    "(bool \<times> nat) list \<Rightarrow> 'b backend_ops \<Rightarrow> bool \<Rightarrow> u8 \<Rightarrow> bool \<Rightarrow> nat \<Rightarrow> bytes \<Rightarrow> nat \<Rightarrow> 'b \<Rightarrow>
     (error_code \<times> nat \<times> 'b) option" where
  "write_loop [] ops unaddressed pad send_eoi deadline d written b = None"
| "write_loop ((aborted, now) # obs) ops unaddressed pad send_eoi deadline d written b =
     (if aborted then Some (AbortError, written, b)
      else if deadline \<le> now then Some (IoTimeout, written, b)
      else
        let b1 = op_set_timeout ops (adapter_floor_ms ((deadline - now) div 1000000)) b;
            stop = min (written + WRITE_CHUNK) (length d);
            chunk = take (stop - written) (drop written d);
            last_chunk = (stop = length d);
            (sent, b2) =
              (if unaddressed then op_send_data_unaddressed ops chunk (send_eoi \<and> last_chunk) b1
               else if written = 0 then op_write ops pad chunk (send_eoi \<and> last_chunk) b1
               else op_send_data_unaddressed ops chunk (send_eoi \<and> last_chunk) b1)
        in case sent of
             Inr _ \<Rightarrow>
               if last_chunk then Some (NoError, stop, b2)
               else write_loop obs ops unaddressed pad send_eoi deadline d stop b2
           | Inl e \<Rightarrow>
               Some (if contains (lit ''timeout'') (to_ascii_lowercase e) then IoTimeout else IoError,
                     written, b2))"

text \<open>\<open>now\<close> is the clock when the lock gate is entered and \<open>start\<close> the clock when the I/O deadline is
  computed, after the gate. \<open>late\<close> is what the last look at the abort flag finds after a clean transfer.\<close>

definition device_write ::
    "lock_sched \<Rightarrow> (bool \<times> nat) list \<Rightarrow> bool \<Rightarrow> nat \<Rightarrow> nat \<Rightarrow> 'b backend_ops \<Rightarrow> 'b shared \<Rightarrow>
     device_write_parms \<Rightarrow> (device_write_resp \<times> 'b shared) option" where
  "device_write sched obs late now start ops sh parms =
     (case link_for sh (dwp_lid parms) of
        None \<Rightarrow> Some (\<lparr>dwr_error = as_u32 InvalidLinkIdentifier, dwr_size = 0\<rparr>, sh)
      | Some l \<Rightarrow>
          (case acquire_access sched now sh l (dwp_flags parms) (dwp_lock_timeout_ms parms) of
             None \<Rightarrow> None
           | Some (Inl e, sh1) \<Rightarrow> Some (\<lparr>dwr_error = as_u32 e, dwr_size = 0\<rparr>, sh1)
           | Some (Inr _, sh1) \<Rightarrow>
               let send_eoi = has_flag (dwp_flags parms) OP_FLAG_END;
                   deadline = deadline_after start (effective_timeout (sh_config sh1) (dwp_io_timeout_ms parms))
               in case write_loop obs ops (is_interface l) (lk_pad l) send_eoi deadline (dwp_data parms) 0
                         (sh_bus sh1) of
                    None \<Rightarrow> None
                  | Some (outcome, written, b) \<Rightarrow>
                      let b' = op_set_timeout ops (cf_default_io_timeout_ms (sh_config sh1)) b;
                          outcome' = (if outcome = NoError \<and> late then AbortError else outcome)
                      in Some (\<lparr>dwr_error = as_u32 outcome', dwr_size = of_nat written\<rparr>,
                               set_link (dwp_lid parms) (\<lambda>l. window_drop (l\<lparr>lk_consumed_stb := None\<rparr>))
                                 (sh1\<lparr>sh_bus := b'\<rparr>))))"

section \<open>Reading\<close>

datatype read_end = Terminated u32 | Deadline | Aborted | BusError rstr

text \<open>The length of a slice: the remaining milliseconds cut to a \<^verbatim>\<open>u32\<close>, at least one, at most what the
  adapter asks for.\<close>

definition read_slice :: "u32 option \<Rightarrow> nat \<Rightarrow> u32" where
  "read_slice slice_ms remaining =
     (let ms = of_nat (remaining div 1000000) :: u32
      in case slice_ms of Some s \<Rightarrow> if ms < 1 then 1 else if ms > s then s else ms | None \<Rightarrow> max ms 1)"

definition read_reason :: "u8 option \<Rightarrow> u32 \<Rightarrow> bool \<Rightarrow> bytes \<Rightarrow> u32" where
  "read_reason termchr request_size ended d =
     (if ended then RX_END else 0) OR
     (case termchr of Some ch \<Rightarrow> if d \<noteq> [] \<and> last d = ch then RX_CHR else 0 | None \<Rightarrow> 0) OR
     (if length d = unat request_size then RX_REQCNT else 0)"

definition is_timeout_text :: "rstr \<Rightarrow> bool" where
  "is_timeout_text e \<longleftrightarrow>
     contains (lit ''timed out'') (to_ascii_lowercase e) \<or> contains (lit ''timeout'') (to_ascii_lowercase e)"

fun read_loop ::
    "(bool \<times> nat) list \<Rightarrow> 'b backend_ops \<Rightarrow> bool \<Rightarrow> u8 \<Rightarrow> u32 option \<Rightarrow> u8 option \<Rightarrow> u32 \<Rightarrow> nat \<Rightarrow> nat \<Rightarrow>
     bytes \<Rightarrow> 'b \<Rightarrow> (read_end \<times> bytes \<times> 'b) option" where
  "read_loop [] ops unaddressed pad slice_ms termchr request_size clamped deadline d b = None"
| "read_loop ((aborted, now) # obs) ops unaddressed pad slice_ms termchr request_size clamped deadline d b =
     (if aborted then Some (Aborted, d, b)
      else if deadline \<le> now then Some (Deadline, d, b)
      else
        let b1 = op_set_timeout ops (read_slice slice_ms (deadline - now)) b;
            (attempt, b2) =
              (if unaddressed then held_read_unaddressed ops (usize_sub clamped (length d)) b1
               else held_read ops pad (usize_sub clamped (length d)) b1)
        in case attempt of
             Inr (chunk, ended) \<Rightarrow>
               let d' = d @ chunk; reason = read_reason termchr request_size ended d'
               in if reason \<noteq> 0 \<or> length d' = clamped then Some (Terminated reason, d', b2)
                  else read_loop obs ops unaddressed pad slice_ms termchr request_size clamped deadline d' b2
           | Inl e \<Rightarrow>
               if is_timeout_text e then
                 read_loop obs ops unaddressed pad slice_ms termchr request_size clamped deadline d b2
               else Some (BusError e, d, b2))"

definition fail_read :: "error_code \<Rightarrow> device_read_resp" where
  "fail_read e = \<lparr>drr_error = as_u32 e, drr_reason = 0, drr_data = []\<rparr>"

definition read_reply :: "read_end \<Rightarrow> bytes \<Rightarrow> device_read_resp" where
  "read_reply outcome d =
     (case outcome of
        Terminated reason \<Rightarrow> \<lparr>drr_error = as_u32 NoError, drr_reason = reason, drr_data = d\<rparr>
      | Deadline \<Rightarrow> \<lparr>drr_error = as_u32 IoTimeout, drr_reason = 0, drr_data = d\<rparr>
      | Aborted \<Rightarrow> \<lparr>drr_error = as_u32 AbortError, drr_reason = 0, drr_data = d\<rparr>
      | BusError _ \<Rightarrow> fail_read IoError)"

definition device_read ::
    "lock_sched \<Rightarrow> (bool \<times> nat) list \<Rightarrow> nat \<Rightarrow> nat \<Rightarrow> 'b backend_ops \<Rightarrow> 'b shared \<Rightarrow> device_read_parms \<Rightarrow>
     (device_read_resp \<times> 'b shared) option" where
  "device_read sched obs now start ops sh parms =
     (case link_for sh (drp_lid parms) of
        None \<Rightarrow> Some (fail_read InvalidLinkIdentifier, sh)
      | Some l \<Rightarrow>
          if drp_request_size parms = 0 then
            Some (\<lparr>drr_error = as_u32 NoError, drr_reason = RX_REQCNT, drr_data = []\<rparr>, sh)
          else
            (case acquire_access sched now sh l (drp_flags parms) (drp_lock_timeout_ms parms) of
               None \<Rightarrow> None
             | Some (Inl e, sh1) \<Rightarrow> Some (fail_read e, sh1)
             | Some (Inr _, sh1) \<Rightarrow>
                 let termchr = (if has_flag (drp_flags parms) OP_FLAG_TERMCHRSET
                                then Some (ucast (drp_term_char parms)) else None);
                     clamped = min (unat (drp_request_size parms)) MAX_READ;
                     saved = op_eos ops (sh_bus sh1);
                     b0 = (case termchr of
                             Some ch \<Rightarrow> op_set_eos ops ch True (sh_bus sh1)
                           | None \<Rightarrow> op_set_eos ops (fst saved) False (sh_bus sh1));
                     deadline = deadline_after start (effective_timeout (sh_config sh1) (drp_io_timeout_ms parms))
                 in case read_loop obs ops (is_interface l) (lk_pad l) (op_read_slice_ms ops b0) termchr
                           (drp_request_size parms) clamped deadline [] b0 of
                      None \<Rightarrow> None
                    | Some (outcome, d, b) \<Rightarrow>
                        let b' = op_set_timeout ops (cf_default_io_timeout_ms (sh_config sh1))
                                   (op_set_eos ops (fst saved) (snd saved) b)
                        in Some (read_reply outcome d,
                                 set_link (drp_lid parms) window_drop (sh1\<lparr>sh_bus := b'\<rparr>))))"

section \<open>Status and control\<close>

definition device_readstb ::
    "lock_sched \<Rightarrow> bool \<Rightarrow> nat \<Rightarrow> 'b backend_ops \<Rightarrow> 'b shared \<Rightarrow> device_generic_parms \<Rightarrow>
     (device_read_stb_resp \<times> 'b shared) option" where
  "device_readstb sched aborted now ops sh parms =
     (let fail = (\<lambda>e. \<lparr>dsr_error = as_u32 e, dsr_stb = 0\<rparr>)
      in case link_for sh (dgp_lid parms) of
           None \<Rightarrow> Some (fail InvalidLinkIdentifier, sh)
         | Some l \<Rightarrow>
             if is_interface l then Some (fail OperationNotSupported, sh)
             else
               (case acquire_access sched now sh l (dgp_flags parms) (dgp_lock_timeout_ms parms) of
                  None \<Rightarrow> None
                | Some (Inl e, sh1) \<Rightarrow> Some (fail e, sh1)
                | Some (Inr _, sh1) \<Rightarrow>
                    (case lk_consumed_stb l of
                       Some stb \<Rightarrow>
                         Some (\<lparr>dsr_error = as_u32 NoError, dsr_stb = stb\<rparr>,
                               set_link (dgp_lid parms) (\<lambda>l. l\<lparr>lk_consumed_stb := None\<rparr>) sh1)
                     | None \<Rightarrow>
                         let b0 = op_set_timeout ops (effective_timeout (sh_config sh1) (dgp_io_timeout_ms parms))
                                    (sh_bus sh1);
                             (polled, b1) = op_serial_poll ops (lk_pad l) b0;
                             b2 = op_set_timeout ops (cf_default_io_timeout_ms (sh_config sh1)) b1;
                             resp = (if aborted then fail AbortError
                                     else case polled of
                                            Inr stb \<Rightarrow> \<lparr>dsr_error = as_u32 NoError, dsr_stb = stb\<rparr>
                                          | Inl _ \<Rightarrow> fail IoError)
                         in Some (resp, set_link (dgp_lid parms) window_drop (sh1\<lparr>sh_bus := b2\<rparr>)))))"

abbreviation GPIB_DCL :: u8 where "GPIB_DCL \<equiv> 0x14"
abbreviation GPIB_GET :: u8 where "GPIB_GET \<equiv> 0x08"

definition device_simple ::
    "lock_sched \<Rightarrow> bool \<Rightarrow> nat \<Rightarrow> 'b backend_ops \<Rightarrow> 'b shared \<Rightarrow> u32 \<Rightarrow> device_generic_parms \<Rightarrow>
     (error_code \<times> 'b shared) option" where
  "device_simple sched aborted now ops sh proc parms =
     (case link_for sh (dgp_lid parms) of
        None \<Rightarrow> Some (InvalidLinkIdentifier, sh)
      | Some l \<Rightarrow>
          (case acquire_access sched now sh l (dgp_flags parms) (dgp_lock_timeout_ms parms) of
             None \<Rightarrow> None
           | Some (Inl e, sh1) \<Rightarrow> Some (e, sh1)
           | Some (Inr _, sh1) \<Rightarrow>
               if is_interface l \<and> (proc = DEVICE_REMOTE \<or> proc = DEVICE_LOCAL) then
                 Some (OperationNotSupported, set_link (dgp_lid parms) window_drop sh1)
               else
                 let (outcome, b) =
                   (if is_interface l then
                      op_send_bus_command ops [if proc = DEVICE_TRIGGER then GPIB_GET else GPIB_DCL] (sh_bus sh1)
                    else if proc = DEVICE_TRIGGER then op_trigger ops (lk_pad l) (sh_bus sh1)
                    else if proc = DEVICE_CLEAR then op_device_clear ops (lk_pad l) (sh_bus sh1)
                    else if proc = DEVICE_REMOTE then op_go_to_remote ops (lk_pad l) (sh_bus sh1)
                    else op_go_to_local ops (lk_pad l) (sh_bus sh1))
                 in Some (if aborted then AbortError
                          else case outcome of Inr _ \<Rightarrow> NoError | Inl _ \<Rightarrow> IoError,
                          set_link (dgp_lid parms) window_drop (sh1\<lparr>sh_bus := b\<rparr>))))"

section \<open>Interface commands\<close>

definition uint_in :: "device_docmd_parms \<Rightarrow> u32" where
  "uint_in parms =
     fold (\<lambda>b v. push_bit 8 v OR ucast b)
       (if ddp_network_order parms then ddp_data_in parms else rev (ddp_data_in parms)) 0"

definition uint_out :: "u32 \<Rightarrow> nat \<Rightarrow> bool \<Rightarrow> bytes" where
  "uint_out v datasize network_order =
     (let out = map (\<lambda>i. ucast (drop_bit (8 * (datasize - 1 - i)) v)) [0..<datasize]
      in if network_order then out else rev out)"

definition sizes_ok :: "device_docmd_parms \<Rightarrow> nat \<Rightarrow> nat \<Rightarrow> i32 \<Rightarrow> bool" where
  "sizes_ok parms lo hi datasize \<longleftrightarrow>
     lo \<le> length (ddp_data_in parms) \<and> length (ddp_data_in parms) \<le> hi \<and> ddp_datasize parms = datasize"

definition bus_status :: "'b backend_ops \<Rightarrow> u32 \<Rightarrow> 'b \<Rightarrow> (error_code, u32) result \<times> 'b" where
  "bus_status ops selector b =
     (let live = (\<lambda>x. if x then 1 else 0 :: u32)
      in if selector \<in> {1, 2, 3} then
           (case op_bus_lines ops b of
              (Inr lines, b') \<Rightarrow>
                (Inr (if selector = 1 then live (bl_ren lines)
                      else if selector = 2 then live (bl_srq lines) else live (bl_ndac lines)), b')
            | (Inl _, b') \<Rightarrow> (Inl OperationNotSupported, b'))
         else if selector = 4 \<or> selector = 5 then (Inr 1, b)
         else if selector = 6 \<or> selector = 7 then (Inr 0, b)
         else if selector = 8 then (Inr (ucast (op_controller_pad ops b)), b)
         else (Inl ParameterError, b))"

text \<open>What the command does: an early return on its own (\<^const>\<open>Inl\<close>), or a result that the final look at the
  abort flag may still replace (\<^const>\<open>Inr\<close>).\<close>

definition echo_or :: "error_code \<Rightarrow> bytes \<Rightarrow> unit io \<times> 'b \<Rightarrow> (error_code, (error_code, bytes) result) result \<times> 'b" where
  "echo_or code d r = (case r of (Inr _, b) \<Rightarrow> (Inr (Inr d), b) | (Inl _, b) \<Rightarrow> (Inr (Inl code), b))"

definition docmd_run ::
    "'b backend_ops \<Rightarrow> device_docmd_parms \<Rightarrow> 'b \<Rightarrow> (error_code, (error_code, bytes) result) result \<times> 'b" where
  "docmd_run ops parms b =
     (let cmd = ddp_cmd parms; d = ddp_data_in parms
      in if cmd = 0x020000 then
           if \<not> sizes_ok parms 0 128 1 then (Inl ParameterError, b)
           else echo_or IoError d (op_send_bus_command ops d b)
         else if cmd = 0x020001 then
           if \<not> sizes_ok parms 2 2 2 then (Inl ParameterError, b)
           else (case bus_status ops (uint_in parms) b of
                   (Inr v, b') \<Rightarrow> (Inr (Inr (uint_out v 2 (ddp_network_order parms))), b')
                 | (Inl code, b') \<Rightarrow> (Inl code, b'))
         else if cmd = 0x020002 then
           if \<not> sizes_ok parms 2 2 2 then (Inl ParameterError, b)
           else echo_or OperationNotSupported d (op_set_atn ops (uint_in parms \<noteq> 0) b)
         else if cmd = 0x020003 then
           if \<not> sizes_ok parms 2 2 2 then (Inl ParameterError, b)
           else echo_or IoError d (op_ren ops (uint_in parms \<noteq> 0) b)
         else if cmd = 0x020004 then
           if \<not> sizes_ok parms 4 4 4 then (Inl ParameterError, b)
           else (Inr (Inl OperationNotSupported), b)
         else if cmd = 0x02000A then
           if \<not> sizes_ok parms 4 4 4 then (Inl ParameterError, b)
           else if uint_in parms > 30 then (Inl ParameterError, b)
           else echo_or IoError d (op_set_controller_pad ops (ucast (uint_in parms)) b)
         else if cmd = 0x020010 then
           if d \<noteq> [] then (Inl ParameterError, b)
           else echo_or IoError [] (op_ifc ops b)
         else (Inr (Inl OperationNotSupported), b))"

definition device_docmd ::
    "lock_sched \<Rightarrow> bool \<Rightarrow> nat \<Rightarrow> 'b backend_ops \<Rightarrow> 'b shared \<Rightarrow> device_docmd_parms \<Rightarrow>
     (device_docmd_resp \<times> 'b shared) option" where
  "device_docmd sched aborted now ops sh parms =
     (let fail = (\<lambda>e. \<lparr>ddr_error = as_u32 e, ddr_data_out = []\<rparr>)
      in case link_for sh (ddp_lid parms) of
           None \<Rightarrow> Some (fail InvalidLinkIdentifier, sh)
         | Some l \<Rightarrow>
             if \<not> is_interface l then Some (fail OperationNotSupported, sh)
             else
               (case acquire_access sched now sh l (ddp_flags parms) (ddp_lock_timeout_ms parms) of
                  None \<Rightarrow> None
                | Some (Inl e, sh1) \<Rightarrow> Some (fail e, sh1)
                | Some (Inr _, sh1) \<Rightarrow>
                    let (r, b) = docmd_run ops parms (sh_bus sh1);
                        sh2 = set_link (ddp_lid parms) window_drop (sh1\<lparr>sh_bus := b\<rparr>)
                    in Some (case r of
                               Inl e \<Rightarrow> fail e
                             | Inr res \<Rightarrow>
                                 if aborted then fail AbortError
                                 else (case res of
                                         Inl e \<Rightarrow> fail e
                                       | Inr out \<Rightarrow> \<lparr>ddr_error = as_u32 NoError, ddr_data_out = out\<rparr>),
                             sh2)))"

section \<open>Dispatch\<close>

text \<open>Everything a call may observe: the schedules of its waits, the clock, the abort flag, and whether an
  outgoing connection succeeds.\<close>

record call_env =
  ev_sched :: lock_sched
  ev_lock_events :: "lock_event list"
  ev_obs :: "(bool \<times> nat) list"
  ev_aborted :: bool
  ev_now :: nat
  ev_start :: nat
  ev_connects :: bool

text \<open>\<open>Inl xid\<close> stands for \<^verbatim>\<open>Err(xid)\<close>, undecodable arguments.\<close>

definition run_proc ::
    "call_env \<Rightarrow> 'b backend_ops \<Rightarrow> 'b shared \<Rightarrow> conn_state \<Rightarrow> u32 \<Rightarrow> bytes \<Rightarrow>
     ((xdr_error, bytes option) result \<times> 'b shared \<times> conn_state) option" where
  "run_proc env ops sh conn proc args =
     (if proc = CREATE_LINK then
        (case decode_create_link_parms args of
           Inl e \<Rightarrow> Some (Inl e, sh, conn)
         | Inr parms \<Rightarrow>
             map_option (\<lambda>(r, sh', conn'). (Inr (Some (encode_create_link_resp r)), sh', conn'))
               (create_link (ev_sched env) (ev_now env) sh conn parms))
      else if proc = DEVICE_WRITE then
        (case decode_device_write_parms args (cf_max_recv_size (sh_config sh)) of
           Inr parms \<Rightarrow>
             map_option (\<lambda>(r, sh'). (Inr (Some (encode_device_write_resp r)), sh', conn))
               (device_write (ev_sched env) (ev_obs env) (ev_aborted env) (ev_now env) (ev_start env) ops sh parms)
         | Inl (TooLong _ _) \<Rightarrow>
             Some (Inr (Some (encode_device_write_resp
               \<lparr>dwr_error = as_u32 ParameterError, dwr_size = 0\<rparr>)), sh, conn)
         | Inl e \<Rightarrow> Some (Inl e, sh, conn))
      else if proc = DEVICE_READ then
        (case decode_device_read_parms args of
           Inl e \<Rightarrow> Some (Inl e, sh, conn)
         | Inr parms \<Rightarrow>
             map_option (\<lambda>(r, sh'). (Inr (Some (encode_device_read_resp r)), sh', conn))
               (device_read (ev_sched env) (ev_obs env) (ev_now env) (ev_start env) ops sh parms))
      else if proc = DEVICE_READSTB then
        (case decode_device_generic_parms args of
           Inl e \<Rightarrow> Some (Inl e, sh, conn)
         | Inr parms \<Rightarrow>
             map_option (\<lambda>(r, sh'). (Inr (Some (encode_device_read_stb_resp r)), sh', conn))
               (device_readstb (ev_sched env) (ev_aborted env) (ev_now env) ops sh parms))
      else if proc \<in> {DEVICE_TRIGGER, DEVICE_CLEAR, DEVICE_REMOTE, DEVICE_LOCAL} then
        (case decode_device_generic_parms args of
           Inl e \<Rightarrow> Some (Inl e, sh, conn)
         | Inr parms \<Rightarrow>
             map_option (\<lambda>(e, sh'). (Inr (Some (encode_device_error (as_u32 e))), sh', conn))
               (device_simple (ev_sched env) (ev_aborted env) (ev_now env) ops sh proc parms))
      else if proc = DESTROY_LINK then
        (case cur_i32 (new_cursor args) of
           Inl e \<Rightarrow> Some (Inl e, sh, conn)
         | Inr (lid, _) \<Rightarrow>
             (case destroy_link sh conn lid of
                (e, sh', conn') \<Rightarrow> Some (Inr (Some (encode_device_error (as_u32 e))), sh', conn')))
      else if proc = DEVICE_LOCK then
        (case decode_device_lock_parms args of
           Inl e \<Rightarrow> Some (Inl e, sh, conn)
         | Inr parms \<Rightarrow>
             map_option (\<lambda>(e, sh'). (Inr (Some (encode_device_error (as_u32 e))), sh', conn))
               (device_lock (ev_lock_events env) (ev_now env) sh parms))
      else if proc = DEVICE_UNLOCK then
        (case cur_i32 (new_cursor args) of
           Inl e \<Rightarrow> Some (Inl e, sh, conn)
         | Inr (lid, _) \<Rightarrow>
             (case device_unlock sh lid of
                (e, sh') \<Rightarrow> Some (Inr (Some (encode_device_error (as_u32 e))), sh', conn)))
      else if proc = DEVICE_ENABLE_SRQ then
        (case decode_device_enable_srq_parms args of
           Inl e \<Rightarrow> Some (Inl e, sh, conn)
         | Inr parms \<Rightarrow>
             (case enable_srq ops sh conn parms of
                (e, sh', conn') \<Rightarrow> Some (Inr (Some (encode_device_error (as_u32 e))), sh', conn')))
      else if proc = CREATE_INTR_CHAN then
        (case decode_device_remote_func args of
           Inl e \<Rightarrow> Some (Inl e, sh, conn)
         | Inr parms \<Rightarrow>
             (case create_intr_chan (ev_connects env) conn parms of
                (e, conn') \<Rightarrow> Some (Inr (Some (encode_device_error (as_u32 e))), sh, conn')))
      else if proc = DESTROY_INTR_CHAN then
        (case destroy_intr_chan conn of
           (e, conn') \<Rightarrow> Some (Inr (Some (encode_device_error (as_u32 e))), sh, conn'))
      else if proc = DEVICE_DOCMD then
        (case decode_device_docmd_parms args of
           Inl e \<Rightarrow> Some (Inl e, sh, conn)
         | Inr parms \<Rightarrow>
             map_option (\<lambda>(r, sh'). (Inr (Some (encode_device_docmd_resp r)), sh', conn))
               (device_docmd (ev_sched env) (ev_aborted env) (ev_now env) ops sh parms))
      else Some (Inr None, sh, conn))"

definition core_dispatch ::
    "call_env \<Rightarrow> 'b backend_ops \<Rightarrow> 'b shared \<Rightarrow> conn_state \<Rightarrow> call_header \<Rightarrow> bytes \<Rightarrow>
     ((u32, bytes) result \<times> 'b shared \<times> conn_state) option" where
  "core_dispatch env ops sh conn header args =
     (let xid = ch_xid header
      in if ch_prog header \<noteq> DEVICE_CORE_PROG then Some (Inr (reply_prog_unavail xid), sh, conn)
         else if ch_vers header \<noteq> DEVICE_CORE_VERS then
           Some (Inr (reply_prog_mismatch xid DEVICE_CORE_VERS DEVICE_CORE_VERS), sh, conn)
         else map_option (\<lambda>(r, sh', conn').
                (case r of
                   Inl _ \<Rightarrow> Inl xid
                 | Inr None \<Rightarrow> Inr (reply_proc_unavail xid)
                 | Inr (Some results) \<Rightarrow> Inr (reply_success xid results), sh', conn'))
                (run_proc env ops sh conn (ch_proc header) args))"

section \<open>Connections\<close>

text \<open>One record of the connection loop: the reply to write, if any.\<close>

definition serve_record ::
    "call_env \<Rightarrow> 'b backend_ops \<Rightarrow> 'b shared \<Rightarrow> conn_state \<Rightarrow> bytes \<Rightarrow>
     (bytes option \<times> 'b shared \<times> conn_state) option" where
  "serve_record env ops sh conn rec =
     (case decode_call rec of
        Inr (header, args) \<Rightarrow>
          map_option (\<lambda>(r, sh', conn').
            (Some (case r of Inr reply \<Rightarrow> reply | Inl xid \<Rightarrow> reply_garbage_args xid), sh', conn'))
            (core_dispatch env ops sh conn header args)
      | Inl (RpcVersion xid _) \<Rightarrow> Some (Some (reply_rpc_mismatch xid), sh, conn)
      | Inl _ \<Rightarrow> Some (None, sh, conn))"

text \<open>The end of \<^verbatim>\<open>serve_connection\<close>, reached when the loop breaks.\<close>

definition close_connection :: "'b shared \<Rightarrow> conn_state \<Rightarrow> 'b shared" where
  "close_connection sh conn =
     fold (\<lambda>lid sh. case link_for sh lid of
              Some l \<Rightarrow> sh\<lparr>sh_links := AList.delete lid (sh_links sh),
                          sh_locks := release_all (sh_locks sh) (holder l)\<rparr>
            | None \<Rightarrow> sh)
       (cs_owned conn) sh"

text \<open>The loop: \<open>writes\<close> is how many replies the peer accepts, \<open>envs\<close> gives each call its observations
  (a call without one is still running). The result is the replies written, how the connection ended
  (\<^const>\<open>Inr\<close> for the orderly end) and the server state. An error of \<^verbatim>\<open>read_record\<close> or \<^verbatim>\<open>write_record\<close> leaves the
  function through the question mark operator.\<close>

abbreviation max_record :: "config \<Rightarrow> nat" where
  "max_record cf \<equiv> unat (cf_max_recv_size cf) * 2 + 1024"

function serve_connection ::
    "call_env list \<Rightarrow> nat \<Rightarrow> 'b backend_ops \<Rightarrow> stream \<Rightarrow> 'b shared \<Rightarrow> conn_state \<Rightarrow> bytes list \<Rightarrow>
     (bytes list \<times> (io_error, unit) result \<times> 'b shared) option" where
  "serve_connection envs writes ops rd sh conn out =
     (case read_record (max_record (sh_config sh)) rd of
        Inl e \<Rightarrow> Some (out, Inl e, sh)
      | Inr (None, _) \<Rightarrow> Some (out, Inr (), close_connection sh conn)
      | Inr (Some rec, rd') \<Rightarrow>
          (case envs of
             [] \<Rightarrow> None
           | env # envs' \<Rightarrow>
               (case serve_record env ops sh conn rec of
                  None \<Rightarrow> None
                | Some (None, sh', conn') \<Rightarrow> serve_connection envs' writes ops rd' sh' conn' out
                | Some (Some reply, sh', conn') \<Rightarrow>
                    (case write_record reply of
                       Inl e \<Rightarrow> Some (out, Inl e, sh')
                     | Inr frame \<Rightarrow>
                         if writes = 0 then Some (out, Inl (OtherIo 32), sh')
                         else serve_connection envs' (writes - 1) ops rd' sh' conn' (out @ [frame])))))"
  by pat_completeness auto
termination
  by (relation "measure (\<lambda>(envs, _). length envs)") auto

declare serve_connection.simps [simp del]

end
