(* ===== verification/Scripted_Bus.thy ===== *)
theory Scripted_Bus
  imports Backend
begin

text \<open>
  A concrete adapter for evaluating the front-ends on examples: it records what is sent, answers reads and
  polls from a script, and keeps the two settings of the trait. It stands beside the real adapters and is
  used only where a closed input is needed.
\<close>

record scripted =
  sb_log :: "(bool \<times> bytes \<times> bool) list"
  sb_replies :: "(bytes \<times> bool) io list"
  sb_got :: "(bytes \<times> bool) list"
  sb_stb :: "u8 list"
  sb_eos :: "u8 \<times> bool"
  sb_tmo :: u32
  sb_pad :: u8

definition next_reply :: "nat \<Rightarrow> scripted \<Rightarrow> (bytes \<times> bool) io \<times> scripted" where
  "next_reply n b =
     (case sb_replies b of
        [] \<Rightarrow> (Inl (lit ''read timed out''), b)
      | Inl e # rs \<Rightarrow> (Inl e, b\<lparr>sb_replies := rs\<rparr>)
      | Inr (d, e) # rs \<Rightarrow> (Inr (take n d, e), b\<lparr>sb_replies := rs, sb_got := sb_got b @ [(take n d, e)]\<rparr>))"

definition next_stb :: "scripted \<Rightarrow> u8 io \<times> scripted" where
  "next_stb b = (case sb_stb b of [] \<Rightarrow> (Inl (lit ''no status byte''), b) | s # ss \<Rightarrow> (Inr s, b\<lparr>sb_stb := ss\<rparr>))"

definition scripted_ops :: "scripted backend_ops" where
  "scripted_ops =
     \<lparr>op_write = (\<lambda>pad d e b. (Inr (), b\<lparr>sb_log := sb_log b @ [(True, d, e)]\<rparr>)),
      op_read = (\<lambda>pad. next_reply),
      op_device_clear = (\<lambda>pad b. (Inr (), b)),
      op_trigger = (\<lambda>pad b. (Inr (), b)),
      op_ifc = (\<lambda>b. (Inr (), b)),
      op_ren = (\<lambda>e b. (Inr (), b)),
      op_go_to_remote = (\<lambda>pad b. (Inr (), b)),
      op_go_to_local = (\<lambda>pad b. (Inr (), b)),
      op_local_lockout = (\<lambda>b. (Inr (), b)),
      op_serial_poll = (\<lambda>pad. next_stb),
      op_srq_asserted = (\<lambda>b. (Inr (sb_stb b \<noteq> []), b)),
      op_bus_lines = (\<lambda>b. (Inr (from_bsr 0x29), b)),
      op_set_listen_only = default_set_listen_only (lit ''scripted''),
      op_listen_only = default_listen_only,
      op_set_device_mode = default_set_device_mode (lit ''scripted''),
      op_device_address = default_device_address,
      op_can_subscribe_srq = (\<lambda>b. True),
      op_send_bus_command = (\<lambda>d b. (Inr (), b\<lparr>sb_log := sb_log b @ [(False, d, False)]\<rparr>)),
      op_set_atn = default_set_atn (lit ''scripted''),
      op_controller_pad = sb_pad,
      op_set_controller_pad = (\<lambda>p b. (Inr (), b\<lparr>sb_pad := p\<rparr>)),
      op_send_data_unaddressed = (\<lambda>d e b. (Inr (), b\<lparr>sb_log := sb_log b @ [(False, d, e)]\<rparr>)),
      op_read_unaddressed = next_reply,
      op_set_eos = (\<lambda>c e b. b\<lparr>sb_eos := (c, e)\<rparr>),
      op_eos = sb_eos,
      op_set_timeout = (\<lambda>t b. b\<lparr>sb_tmo := t\<rparr>),
      op_read_slice_ms = (\<lambda>b. Some 250)\<rparr>"

definition scripted0 :: scripted where
  "scripted0 = \<lparr>sb_log = [], sb_replies = [], sb_got = [], sb_stb = [], sb_eos = (10, False), sb_tmo = 3000, sb_pad = 0\<rparr>"

lemma next_reply_keeps: "sb_eos (snd (next_reply n b)) = sb_eos b" "sb_tmo (snd (next_reply n b)) = sb_tmo b"
  by (auto simp: next_reply_def split: list.split sum.split)

interpretation scripted_backend: gpib_backend scripted_ops sb_tmo
  by unfold_locales (auto simp: scripted_ops_def next_reply_keeps)

lemma scripted_reads_fit: "reads_fit scripted_ops"
  by (auto simp: reads_fit_def scripted_ops_def next_reply_def split: list.split sum.split)

end
