(* ===== verification/Vxi11_Laws.thy ===== *)
theory Vxi11_Laws
  imports Vxi11_Server Scripted_Bus
begin

text \<open>
  The laws of the VXI-11 server: device names, the lock gate, complete and faithful transfers, restored
  bus settings, the life of links and their locks, service requests and aborts.
\<close>

section \<open>Device names\<close>

lemma lit_simps:
  "lit ''inst0'' = [105, 110, 115, 116, 48]" "lit ''gpib0'' = [103, 112, 105, 98, 48]"
  "lit ''gpib'' = [103, 112, 105, 98]"
  by (simp_all add: lit_def)

definition device_name :: "nat \<Rightarrow> rstr" where
  "device_name pad = lit ''gpib0,'' @ dec pad"

lemma lower_no_upper: "(\<And>c. c \<in> set s \<Longrightarrow> c < 65 \<or> 90 < c) \<Longrightarrow> to_ascii_lowercase s = s"
  unfolding to_ascii_lowercase_def by (rule map_idI) force

lemma trim_id:
  assumes "s \<noteq> [] \<Longrightarrow> \<not> is_whitespace (hd s) \<and> \<not> is_whitespace (last s)"
  shows "trim s = s"
proof (cases "s = []")
  case False
  then have "dropWhile is_whitespace s = s"
    using assms by (cases s) auto
  moreover have "dropWhile is_whitespace (rev s) = rev s"
    using assms False by (cases s rule: rev_cases) auto
  ultimately show ?thesis
    by (simp add: trim_def trim_start_def)
qed (simp add: trim_def trim_start_def)

lemma digit_not_whitespace: "48 \<le> c \<Longrightarrow> c \<le> 57 \<Longrightarrow> \<not> is_whitespace c"
  by (auto simp: is_whitespace_def)

lemma parse_device_name_gpib:
  assumes "trim s = s" "to_ascii_lowercase s = lit ''gpib0,'' @ r"
  shows "parse_device_name s dflt =
    (case parse_u8 (hd (split_on 44 r)) of
       None \<Rightarrow> Inl SyntaxError
     | Some pad \<Rightarrow> if pad > 30 then Inl InvalidAddress
                   else if tl (split_on 44 r) = [] then Inr (Pad pad) else Inl InvalidAddress)"
proof -
  obtain p ps where sp: "split_on 44 r = p # ps"
    using split_on_not_Nil[of 44 r] by (cases "split_on 44 r") auto
  have "parse_u8 [48] = Some 0"
    by (simp add: parse_u8_def parse_uint_def digit_of_def)
  then show ?thesis
    using assms sp
    by (auto simp: parse_device_name_def Let_def lit_def strip_prefix_def split: option.split list.split)
qed

lemma lower_trim: "to_ascii_lowercase (trim s) = trim (to_ascii_lowercase s)"
proof -
  let ?f = "\<lambda>c :: nat. if 65 \<le> c \<and> c \<le> 90 then c + 32 else c"
  have ws: "is_whitespace \<circ> ?f = is_whitespace"
    by (rule ext) (auto simp: is_whitespace_def)
  have "map ?f (dropWhile is_whitespace xs) = dropWhile is_whitespace (map ?f xs)" for xs
    by (simp add: dropWhile_map ws)
  then show ?thesis
    by (simp add: to_ascii_lowercase_def trim_def trim_start_def rev_map[symmetric])
qed

lemma trim_idem: "trim (trim s) = trim s"
proof (rule trim_id, intro conjI)
  assume ne: "trim s \<noteq> []"
  define u where "u = dropWhile is_whitespace s"
  have v: "trim s = rev (dropWhile is_whitespace (rev u))"
    by (simp add: trim_def trim_start_def u_def)
  have "rev u = takeWhile is_whitespace (rev u) @ dropWhile is_whitespace (rev u)"
    by simp
  then have "u = trim s @ rev (takeWhile is_whitespace (rev u))"
    by (metis rev_append rev_rev_ident v)
  then have "hd u = hd (trim s)" "u \<noteq> []"
    using ne by (metis hd_append2, auto)
  then show "\<not> is_whitespace (hd (trim s))"
    using hd_dropWhile[of is_whitespace s] by (simp add: u_def)
  show "\<not> is_whitespace (last (trim s))"
    using ne hd_dropWhile[of is_whitespace "rev u"] by (simp add: v last_rev)
qed

lemma lower_idem: "to_ascii_lowercase (to_ascii_lowercase s) = to_ascii_lowercase s"
  by (simp add: to_ascii_lowercase_def)

lemma device_name_plain: "trim (device_name pad @ t) = device_name pad @ t \<and>
   to_ascii_lowercase (device_name pad @ t) = device_name pad @ t"
  if "set t \<subseteq> {44} \<union> {48..57}"
proof -
  have chars: "c \<in> set (device_name pad @ t) \<Longrightarrow> c \<in> {103, 112, 105, 98, 44} \<union> {48..57}" for c
    using that dec_digits[of c pad] by (auto simp: device_name_def lit_def)
  have "c \<in> {103, 112, 105, 98, 44} \<union> {48..57} \<Longrightarrow> \<not> is_whitespace c \<and> (c < 65 \<or> 90 < c)" for c :: nat
    by (auto simp: is_whitespace_def)
  then have ok: "c \<in> set (device_name pad @ t) \<Longrightarrow> \<not> is_whitespace c \<and> (c < 65 \<or> 90 < c)" for c
    using chars by blast
  then have "device_name pad @ t \<noteq> [] \<Longrightarrow>
      \<not> is_whitespace (hd (device_name pad @ t)) \<and> \<not> is_whitespace (last (device_name pad @ t))"
    using hd_in_set[of "device_name pad @ t"] last_in_set[of "device_name pad @ t"] by blast
  then show ?thesis
    using trim_id[of "device_name pad @ t"] lower_no_upper[of "device_name pad @ t"] ok by blast
qed

section \<open>Properties of device names\<close>

text \<open>A create_link device name resolves as documented: \<^verbatim>\<open>gpib0,n\<close> is the device at primary address
  \<open>n\<close> for \<open>n\<close> up to 30, an invalid address up to 255 and a syntax error beyond; a secondary address is
  refused and never dropped; \<^verbatim>\<open>inst0\<close> is the default device and \<^verbatim>\<open>gpib0\<close> the interface; case and
  surrounding white space do not matter.\<close>

theorem device_names_resolve:
  "parse_device_name (device_name n) dflt =
     (if n \<le> 30 then Inr (Pad (of_nat n)) else if n \<le> 255 then Inl InvalidAddress else Inl SyntaxError) \<and>
   (n \<le> 255 \<longrightarrow> parse_device_name (device_name n @ [44] @ dec m) dflt = Inl InvalidAddress) \<and>
   parse_device_name (lit ''inst0'') dflt = Inr (Pad dflt) \<and>
   parse_device_name (lit ''gpib0'') dflt = Inr Interface \<and>
   parse_device_name (to_ascii_lowercase s) dflt = parse_device_name s dflt \<and>
   parse_device_name (trim s) dflt = parse_device_name s dflt"
proof -
  have p8: "parse_u8 (dec k) = (if k \<le> 255 then Some (of_nat k) else None)" for k
    by (simp add: parse_u8_def parse_uint_dec)
  have gt: "(of_nat k :: u8) > 30 \<longleftrightarrow> k > 30" if "k \<le> 255" for k
    using that of_nat_unat_len[of k, where 'a = 8] by (simp add: word_less_nat_alt)
  have comma: "44 \<notin> set (dec k)" for k
    by (rule dec_no_char) simp
  have digits: "set (dec k) \<subseteq> {44} \<union> {48..57}" for k
    using dec_digits by auto
  have one: "parse_device_name (device_name n) dflt =
     (if n \<le> 30 then Inr (Pad (of_nat n)) else if n \<le> 255 then Inl InvalidAddress else Inl SyntaxError)"
    using parse_device_name_gpib[of "device_name n" "dec n" dflt] device_name_plain[of "[]" n] gt[of n]
    by (auto simp: device_name_def split_on_none[OF comma] p8)
  have two: "parse_device_name (device_name n @ [44] @ dec m) dflt = Inl InvalidAddress" if "n \<le> 255"
    using parse_device_name_gpib[of "device_name n @ [44] @ dec m" "dec n @ [44] @ dec m" dflt]
      device_name_plain[of "[44] @ dec m" n] digits that
    by (simp add: device_name_def split_on_append[OF comma] p8)
  have "parse_device_name (trim s) dflt = parse_device_name s dflt"
    by (simp add: parse_device_name_def trim_idem)
  moreover have "parse_device_name (to_ascii_lowercase s) dflt = parse_device_name s dflt"
    by (simp add: parse_device_name_def lower_trim[symmetric] lower_idem)
  moreover have "parse_device_name (lit ''inst0'') dflt = Inr (Pad dflt)"
    "parse_device_name (lit ''gpib0'') dflt = Inr Interface"
    by (simp_all add: parse_device_name_def lit_simps trim_def trim_start_def is_whitespace_def
        to_ascii_lowercase_def)
  ultimately show ?thesis
    using one two by blast
qed

theorem device_names_resolve_witness:
  "parse_device_name (device_name 18 @ [44] @ dec 96) 5 = Inl InvalidAddress"
  using device_names_resolve[of 18 5 96 "[]"] by simp

section \<open>Transfers to the instrument\<close>

text \<open>A reading of the bus state as the list of successful data transfers: whether the transfer began by
  addressing the instrument, its bytes, and whether its last byte carried EOI.\<close>

type_synonym transfer = "bool \<times> bytes \<times> bool"

definition records_transfers :: "'b backend_ops \<Rightarrow> ('b \<Rightarrow> transfer list) \<Rightarrow> bool" where
  "records_transfers ops lg \<longleftrightarrow>
     (\<forall>t b. lg (op_set_timeout ops t b) = lg b) \<and>
     (\<forall>pad d e b. lg (snd (op_write ops pad d e b)) =
        lg b @ (if isl (fst (op_write ops pad d e b)) then [] else [(True, d, e)])) \<and>
     (\<forall>d e b. lg (snd (op_send_data_unaddressed ops d e b)) =
        lg b @ (if isl (fst (op_send_data_unaddressed ops d e b)) then [] else [(False, d, e)]))"

definition transferred :: "transfer list \<Rightarrow> bytes" where
  "transferred ts = concat (map (\<lambda>(_, d, _). d) ts)"

text \<open>The shape of what one message leaves on the bus: addressed at most once, at its start, and EOI only
  with the transfer that completes it.\<close>

definition message_shape :: "bool \<Rightarrow> bool \<Rightarrow> bool \<Rightarrow> transfer list \<Rightarrow> bool" where
  "message_shape addressed complete send_eoi ts \<longleftrightarrow>
     (\<forall>i < length ts. fst (ts ! i) = (addressed \<and> i = 0)) \<and>
     (\<forall>i < length ts. snd (snd (ts ! i)) = (send_eoi \<and> complete \<and> Suc i = length ts)) \<and>
     (\<forall>i < length ts. length (fst (snd (ts ! i))) \<le> WRITE_CHUNK) \<and> (complete \<longrightarrow> ts \<noteq> [])"

lemma message_shape_Nil: "message_shape a False e []"
  by (simp add: message_shape_def)

lemma message_shape_one: "length d \<le> WRITE_CHUNK \<Longrightarrow> message_shape a True e [(a, d, e)]"
  by (simp add: message_shape_def)

lemma message_shape_Cons:
  assumes "message_shape False c e ts" "length d \<le> WRITE_CHUNK"
  shows "message_shape a c e ((a, d, False) # ts)"
proof -
  have "ts = [] \<Longrightarrow> \<not> c"
    using assms(1) by (auto simp: message_shape_def)
  then show ?thesis
    using assms by (auto simp: message_shape_def nth_Cons split: nat.split)
qed

definition send_chunk :: "'b backend_ops \<Rightarrow> bool \<Rightarrow> u8 \<Rightarrow> nat \<Rightarrow> bytes \<Rightarrow> bool \<Rightarrow> 'b \<Rightarrow> unit io \<times> 'b" where
  "send_chunk ops unaddressed pad written chunk eoi b =
     (if unaddressed then op_send_data_unaddressed ops chunk eoi b
      else if written = 0 then op_write ops pad chunk eoi b
      else op_send_data_unaddressed ops chunk eoi b)"

lemma send_chunk_log:
  "records_transfers ops lg \<Longrightarrow>
   lg (snd (send_chunk ops un pad w c e b)) =
     lg b @ (if isl (fst (send_chunk ops un pad w c e b)) then [] else [(\<not> un \<and> w = 0, c, e)])"
  by (auto simp: records_transfers_def send_chunk_def)

lemma write_loop_step:
  "write_loop ((aborted, now) # obs) ops un pad eoi dl d w b =
     (if aborted then Some (AbortError, w, b)
      else if dl \<le> now then Some (IoTimeout, w, b)
      else
        let stop = min (w + WRITE_CHUNK) (length d);
            r = send_chunk ops un pad w (take (stop - w) (drop w d)) (eoi \<and> stop = length d)
                  (op_set_timeout ops (adapter_floor_ms ((dl - now) div 1000000)) b)
        in case fst r of
             Inr _ \<Rightarrow> if stop = length d then Some (NoError, stop, snd r)
                      else write_loop obs ops un pad eoi dl d stop (snd r)
           | Inl e \<Rightarrow> Some (if contains (lit ''timeout'') (to_ascii_lowercase e) then IoTimeout else IoError,
                           w, snd r))"
  by (simp only: write_loop.simps send_chunk_def[symmetric] Let_def case_prod_beta)

lemma write_loop_log:
  assumes "records_transfers ops lg"
  shows "write_loop obs ops un pad eoi dl d w b = Some (e, w', b') \<Longrightarrow> w \<le> length d \<Longrightarrow>
    \<exists>ts. lg b' = lg b @ ts \<and> transferred ts = take (w' - w) (drop w d) \<and> w \<le> w' \<and> w' \<le> length d \<and>
      (e = NoError \<longrightarrow> w' = length d) \<and> message_shape (\<not> un \<and> w = 0) (e = NoError) eoi ts"
proof (induction obs arbitrary: w b)
  case (Cons ob obs)
  obtain aborted now where ob: "ob = (aborted, now)" by (cases ob)
  define stop where "stop = min (w + WRITE_CHUNK) (length d)"
  define c where "c = take (stop - w) (drop w d)"
  define r where "r = send_chunk ops un pad w c (eoi \<and> stop = length d)
      (op_set_timeout ops (adapter_floor_ms ((dl - now) div 1000000)) b)"
  have c: "length c = stop - w" "length c \<le> WRITE_CHUNK" "w \<le> stop" "stop \<le> length d"
    using Cons.prems(2) by (auto simp: c_def stop_def)
  have lg: "lg (snd r) = lg b @ (if isl (fst r) then [] else [(\<not> un \<and> w = 0, c, eoi \<and> stop = length d)])"
    using send_chunk_log[OF assms] assms by (simp add: r_def records_transfers_def)
  have eq: "(if aborted then Some (AbortError, w, b) else if dl \<le> now then Some (IoTimeout, w, b)
      else case fst r of
             Inr _ \<Rightarrow> if stop = length d then Some (NoError, stop, snd r)
                      else write_loop obs ops un pad eoi dl d stop (snd r)
           | Inl x \<Rightarrow> Some (if contains (lit ''timeout'') (to_ascii_lowercase x) then IoTimeout else IoError,
                           w, snd r)) = Some (e, w', b')"
    using Cons.prems(1) by (simp only: ob write_loop_step Let_def r_def c_def stop_def)
  consider (stopped) "aborted \<or> dl \<le> now" | (failed) x where "\<not> (aborted \<or> dl \<le> now)" "fst r = Inl x"
    | (complete) "\<not> (aborted \<or> dl \<le> now)" "fst r = Inr ()" "stop = length d"
    | (goes_on) "\<not> (aborted \<or> dl \<le> now)" "fst r = Inr ()" "stop \<noteq> length d"
    by (cases "fst r") auto
  then show ?case
  proof cases
    case stopped
    with eq Cons.prems(2) show ?thesis
      by (intro exI[of _ "[]"]) (auto simp: transferred_def message_shape_Nil split: if_splits)
  next
    case failed
    with eq lg Cons.prems(2) show ?thesis
      by (intro exI[of _ "[]"]) (auto simp: transferred_def message_shape_Nil split: if_splits)
  next
    case complete
    with eq lg c show ?thesis
      by (intro exI[of _ "[(\<not> un \<and> w = 0, c, eoi)]"]) (auto simp: transferred_def c_def message_shape_one)
  next
    case goes_on
    then have "write_loop obs ops un pad eoi dl d stop (snd r) = Some (e, w', b')"
      using eq by auto
    from Cons.IH[OF this c(4)] obtain ts where ts: "lg b' = lg (snd r) @ ts"
      "transferred ts = take (w' - stop) (drop stop d)" "stop \<le> w'" "w' \<le> length d"
      "e = NoError \<longrightarrow> w' = length d" "message_shape (\<not> un \<and> stop = 0) (e = NoError) eoi ts" by blast
    have "stop \<noteq> 0"
      using goes_on(3) by (auto simp: stop_def)
    moreover have "c @ take (w' - stop) (drop stop d) = take (w' - w) (drop w d)"
      using c ts(3) take_add[of "stop - w" "w' - stop" "drop w d"] by (simp add: c_def)
    ultimately show ?thesis
      using ts goes_on lg c message_shape_Cons[of "e = NoError" eoi ts c]
      by (intro exI[of _ "(\<not> un \<and> w = 0, c, False) # ts"]) (auto simp: transferred_def)
  qed
qed simp

lemma as_u32_0 [simp]: "as_u32 e = 0 \<longleftrightarrow> e = NoError" "0 = as_u32 e \<longleftrightarrow> e = NoError"
  by (cases e; simp)+

lemma set_link_simps [simp]:
  "sh_bus (set_link lid f sh) = sh_bus sh" "sh_locks (set_link lid f sh) = sh_locks sh"
  "sh_config (set_link lid f sh) = sh_config sh" "sh_next_lid (set_link lid f sh) = sh_next_lid sh"
  "map fst (sh_links (set_link lid f sh)) = map fst (sh_links sh)"
  by (simp_all add: set_link_def case_prod_beta comp_def)

lemma link_for_set_link:
  "link_for (set_link lid f sh) k = (if k = lid then map_option f (link_for sh k) else link_for sh k)"
proof -
  have "map_of (map (\<lambda>(k, l). (k, if k = lid then f l else l)) ls) k =
      (if k = lid then map_option f (map_of ls k) else map_of ls k)" for ls
    by (induction ls) auto
  then show ?thesis
    by (simp add: link_for_def set_link_def)
qed

text \<open>The lock gate changes nothing but the lock registry.\<close>

lemma acquire_access_frame:
  assumes "acquire_access sched now sh l flags t = Some (r, sh1)"
  shows "\<exists>locks. sh1 = sh\<lparr>sh_locks := locks\<rparr>"
  using assms by (intro exI[of _ "sh_locks sh1"])
    (auto simp: acquire_access_def split: if_splits option.splits prod.splits)

text \<open>A server with two links for examples: link 1 to the instrument at address 18, link 2 to the
  interface.\<close>

definition demo_shared :: "scripted shared" where
  "demo_shared =
     \<lparr>sh_config = default_config, sh_links = [(1, new_link 1 (Pad 18) 18), (2, new_link 2 Interface 0)],
      sh_next_lid = 3, sh_abort_port = 1024, sh_locks = new_registry, sh_bus = scripted0\<rparr>"

lemma scripted_records: "records_transfers scripted_ops sb_log"
  by (simp add: records_transfers_def scripted_ops_def)

section \<open>Properties of writing\<close>

text \<open>C2. A device_write reports exactly what it did to the bus, on every path: the bytes of the
  successful transfers are the first \<open>size\<close> bytes of the data, in order and without repetition; error 0
  means all of them; the instrument is addressed once, at the start of the message, and never for an
  interface link; EOI, if asked for, rides on the transfer that completes the message and on no other;
  and every transfer is at most 4096 bytes.\<close>

theorem write_reports_the_bus:
  assumes "records_transfers ops lg"
    and "device_write sched obs late now start ops sh parms = Some (resp, sh')"
    and "length (dwp_data parms) < 2 ^ 32"
  shows "\<exists>ts. lg (sh_bus sh') = lg (sh_bus sh) @ ts \<and>
    transferred ts = take (unat (dwr_size resp)) (dwp_data parms) \<and>
    (dwr_error resp = 0 \<longrightarrow> unat (dwr_size resp) = length (dwp_data parms)) \<and>
    (ts \<noteq> [] \<longrightarrow> (\<exists>l complete. link_for sh (dwp_lid parms) = Some l \<and>
       message_shape (\<not> is_interface l) complete (has_flag (dwp_flags parms) OP_FLAG_END) ts \<and>
       (dwr_error resp = 0 \<longrightarrow> complete)))"
proof (cases "link_for sh (dwp_lid parms)")
  case None
  with assms(2) show ?thesis
    by (auto simp: device_write_def transferred_def)
next
  case (Some l)
  from assms(2) Some obtain r sh1 where acc:
    "acquire_access sched now sh l (dwp_flags parms) (dwp_lock_timeout_ms parms) = Some (r, sh1)"
    by (auto simp: device_write_def split: option.splits)
  from acquire_access_frame[OF acc] have bus: "sh_bus sh1 = sh_bus sh"
    by auto
  show ?thesis
  proof (cases r)
    case (Inl e)
    have "e \<noteq> NoError"
      using acc Inl by (auto simp: acquire_access_def split: if_splits option.splits prod.splits)
    with Inl assms(2) Some acc bus show ?thesis
      by (auto simp: device_write_def transferred_def)
  next
    case (Inr u)
    let ?dl = "deadline_after start (effective_timeout (sh_config sh1) (dwp_io_timeout_ms parms))"
    from assms(2) Some acc Inr obtain e w b where
      loop: "write_loop obs ops (is_interface l) (lk_pad l) (has_flag (dwp_flags parms) OP_FLAG_END) ?dl
        (dwp_data parms) 0 (sh_bus sh1) = Some (e, w, b)"
      and resp: "resp = \<lparr>dwr_error = as_u32 (if e = NoError \<and> late then AbortError else e), dwr_size = of_nat w\<rparr>"
      and sh': "sh_bus sh' = op_set_timeout ops (cf_default_io_timeout_ms (sh_config sh1)) b"
      by (auto simp: device_write_def Let_def split: option.splits prod.splits)
    from write_loop_log[OF assms(1) loop] obtain ts where ts: "lg b = lg (sh_bus sh1) @ ts"
      "transferred ts = take w (dwp_data parms)" "w \<le> length (dwp_data parms)"
      "e = NoError \<longrightarrow> w = length (dwp_data parms)"
      "message_shape (\<not> is_interface l) (e = NoError) (has_flag (dwp_flags parms) OP_FLAG_END) ts"
      by auto
    have w: "unat (of_nat w :: u32) = w"
      using ts(3) assms(3) of_nat_unat_len[of w, where 'a = 32] by simp
    show ?thesis
      using ts w resp sh' bus assms(1) Some
      by (intro exI[of _ ts]) (auto simp: records_transfers_def split: if_splits)
  qed
qed

definition demo_write :: device_write_parms where
  "demo_write = \<lparr>dwp_lid = 1, dwp_io_timeout_ms = 2000, dwp_lock_timeout_ms = 0, dwp_flags = 8,
     dwp_data = [42, 73, 68, 78, 63]\<rparr>"

theorem write_reports_the_bus_witness:
  "\<exists>resp sh' ts. device_write [] [(False, 5)] False 0 0 scripted_ops demo_shared demo_write = Some (resp, sh') \<and>
    dwr_error resp = 0 \<and> sb_log (sh_bus sh') = ts \<and> ts = [(True, dwp_data demo_write, True)] \<and>
    transferred ts = take (unat (dwr_size resp)) (dwp_data demo_write)"
proof -
  obtain resp sh' where run:
    "device_write [] [(False, 5)] False 0 0 scripted_ops demo_shared demo_write = Some (resp, sh')"
    "dwr_error resp = 0" "sb_log (sh_bus sh') = [(True, dwp_data demo_write, True)]"
  proof -
    have "case device_write [] [(False, 5)] False 0 0 scripted_ops demo_shared demo_write of
        Some (resp, sh') \<Rightarrow> dwr_error resp = 0 \<and> sb_log (sh_bus sh') = [(True, dwp_data demo_write, True)]
      | None \<Rightarrow> False"
      by code_simp
    then show ?thesis
      by (auto intro: that split: option.splits)
  qed
  have "length (dwp_data demo_write) < 2 ^ 32" "sb_log (sh_bus demo_shared) = []"
    by (simp_all add: demo_write_def demo_shared_def scripted0_def)
  with write_reports_the_bus[OF scripted_records run(1)] run show ?thesis
    by auto
qed

end
