(* ===== verification/Vxi11_Reading.thy ===== *)
theory Vxi11_Reading
  imports Vxi11_Laws
begin

text \<open>
  What \<^const>\<open>device_read\<close> promises: the bytes it returns are the bytes the adapter delivered, the reason bits
  tell the truth, the adapter's settings are put back, and the read ends.
\<close>

section \<open>Chunks received\<close>

text \<open>A reading of the bus state as the list of successful reads: their bytes and whether the adapter
  reported the end of the message.\<close>

definition records_reads :: "'b backend_ops \<Rightarrow> ('b \<Rightarrow> (bytes \<times> bool) list) \<Rightarrow> bool" where
  "records_reads ops rl \<longleftrightarrow>
     (\<forall>t b. rl (op_set_timeout ops t b) = rl b) \<and>
     (\<forall>c e b. rl (op_set_eos ops c e b) = rl b) \<and>
     (\<forall>pad n b. rl (snd (op_read ops pad n b)) =
        rl b @ (case fst (op_read ops pad n b) of Inl _ \<Rightarrow> [] | Inr c \<Rightarrow> [c])) \<and>
     (\<forall>n b. rl (snd (op_read_unaddressed ops n b)) =
        rl b @ (case fst (op_read_unaddressed ops n b) of Inl _ \<Rightarrow> [] | Inr c \<Rightarrow> [c]))"

definition attempt_read :: "'b backend_ops \<Rightarrow> bool \<Rightarrow> u8 \<Rightarrow> nat \<Rightarrow> 'b \<Rightarrow> (bytes \<times> bool) io \<times> 'b" where
  "attempt_read ops unaddressed pad n b =
     (if unaddressed then held_read_unaddressed ops n b else held_read ops pad n b)"

lemma attempt_read_log:
  "records_reads ops rl \<Longrightarrow>
   rl (snd (attempt_read ops un pad n b)) =
     rl b @ (case fst (attempt_read ops un pad n b) of Inl _ \<Rightarrow> [] | Inr c \<Rightarrow> [c])"
  by (simp add: records_reads_def attempt_read_def held_read_def held_read_unaddressed_def)

lemma attempt_read_bound:
  "reads_fit ops \<Longrightarrow> fst (attempt_read ops un pad n b) = Inr (d, e) \<Longrightarrow> length d \<le> n"
proof -
  assume "reads_fit ops" and got: "fst (attempt_read ops un pad n b) = Inr (d, e)"
  then have fit: "case fst (op_read ops pad (min n MAX_READ) b) of Inl _ \<Rightarrow> True | Inr (d, _) \<Rightarrow> length d \<le> min n MAX_READ"
    "case fst (op_read_unaddressed ops (min n MAX_READ) b) of Inl _ \<Rightarrow> True | Inr (d, _) \<Rightarrow> length d \<le> min n MAX_READ"
    unfolding reads_fit_def by blast+
  show ?thesis
    using got fit by (auto simp: attempt_read_def held_read_def held_read_unaddressed_def split: if_splits)
qed

context gpib_backend
begin

lemma attempt_read_eos: "op_eos ops (snd (attempt_read ops un pad n b)) = op_eos ops b"
  by (simp add: attempt_read_def held_read_def held_read_unaddressed_def eos_read eos_read_unaddressed)

end

lemma read_loop_step:
  "read_loop ((aborted, now) # obs) ops un pad sl tc req cl dl d b =
     (if aborted then Some (Aborted, d, b)
      else if dl \<le> now then Some (Deadline, d, b)
      else
        let r = attempt_read ops un pad (usize_sub cl (length d)) (op_set_timeout ops (read_slice sl (dl - now)) b)
        in case fst r of
             Inr c \<Rightarrow>
               if read_reason tc req (snd c) (d @ fst c) \<noteq> 0 \<or> length (d @ fst c) = cl
               then Some (Terminated (read_reason tc req (snd c) (d @ fst c)), d @ fst c, snd r)
               else read_loop obs ops un pad sl tc req cl dl (d @ fst c) (snd r)
           | Inl e \<Rightarrow>
               if is_timeout_text e then read_loop obs ops un pad sl tc req cl dl d (snd r)
               else Some (BusError e, d, snd r))"
  by (simp only: read_loop.simps attempt_read_def[symmetric] Let_def case_prod_beta)
    (auto split: sum.split)

text \<open>What a read has taken from the bus when it ends: the chunks \<open>cs\<close> make up the data, only the last of them
  may carry the end of the message, and a completed read says why it completed.\<close>

definition read_account ::
    "u8 option \<Rightarrow> u32 \<Rightarrow> nat \<Rightarrow> bytes \<Rightarrow> (bytes \<times> bool) list \<Rightarrow> read_end \<Rightarrow> bytes \<Rightarrow> bool" where
  "read_account tc req cl d cs out d' \<longleftrightarrow>
     d' = d @ concat (map fst cs) \<and> length d' \<le> cl \<and>
     (\<forall>c \<in> set (butlast cs). \<not> snd c) \<and>
     (case out of
        Terminated reason \<Rightarrow> cs \<noteq> [] \<and> reason = read_reason tc req (snd (last cs)) d' \<and>
          (reason \<noteq> 0 \<or> length d' = cl)
      | _ \<Rightarrow> \<forall>c \<in> set cs. \<not> snd c)"

lemma read_account_Nil:
  "length d \<le> cl \<Longrightarrow> out \<in> {Aborted, Deadline} \<or> (\<exists>e. out = BusError e) \<Longrightarrow> read_account tc req cl d [] out d"
  by (auto simp: read_account_def)

lemma read_account_Cons:
  "read_account tc req cl (d @ fst c) cs out d' \<Longrightarrow> \<not> snd c \<Longrightarrow> read_account tc req cl d (c # cs) out d'"
  by (auto simp: read_account_def split: read_end.splits)

lemma read_reason_end: "read_reason tc req True d \<noteq> 0"
proof -
  have "bit (read_reason tc req True d) 2"
    by (simp add: read_reason_def bit_simps split: option.split)
  then show ?thesis
    by force
qed

context gpib_backend
begin

lemma read_loop_account:
  assumes "records_reads ops rl" "reads_fit ops"
  shows "read_loop obs ops un pad sl tc req cl dl d b = Some (out, d', b') \<Longrightarrow> length d \<le> cl \<Longrightarrow>
    op_eos ops b' = op_eos ops b \<and> (\<exists>cs. rl b' = rl b @ cs \<and> read_account tc req cl d cs out d')"
proof (induction obs arbitrary: d b)
  case (Cons ob obs)
  obtain aborted now where ob: "ob = (aborted, now)" by (cases ob)
  define r where "r = attempt_read ops un pad (usize_sub cl (length d)) (op_set_timeout ops (read_slice sl (dl - now)) b)"
  have lg: "rl (snd r) = rl b @ (case fst r of Inl _ \<Rightarrow> [] | Inr c \<Rightarrow> [c])"
    using attempt_read_log[OF assms(1)] assms(1) by (simp add: r_def records_reads_def)
  have eos: "op_eos ops (snd r) = op_eos ops b"
    by (simp add: r_def attempt_read_eos eos_set_timeout)
  note step = Cons.prems(1)[unfolded ob read_loop_step Let_def, folded r_def]
  consider (stopped) "aborted \<or> dl \<le> now" | (failed) e where "\<not> (aborted \<or> dl \<le> now)" "fst r = Inl e"
    | (chunk) c where "\<not> (aborted \<or> dl \<le> now)" "fst r = Inr c"
    by (cases "fst r") auto
  then show ?case
  proof cases
    case stopped
    then show ?thesis
      using step Cons.prems(2) by (intro conjI exI[of _ "[]"]) (auto simp: read_account_Nil split: if_splits)
  next
    case failed
    then show ?thesis
      using step Cons.prems(2) Cons.IH[of d "snd r"] lg eos
      by (cases "is_timeout_text e") (auto simp: read_account_Nil intro!: exI[of _ "[]"])
  next
    case chunk
    have bound: "length (d @ fst c) \<le> cl"
      using attempt_read_bound[OF assms(2), of un pad "cl - length d" _ "fst c" "snd c"] chunk(2) Cons.prems(2)
      by (fastforce simp: r_def)
    show ?thesis
    proof (cases "read_reason tc req (snd c) (d @ fst c) \<noteq> 0 \<or> length (d @ fst c) = cl")
      case True
      then show ?thesis
        using step chunk lg eos bound by (auto simp: read_account_def intro!: exI[of _ "[c]"])
    next
      case False
      then have "\<not> snd c"
        by (cases "snd c") (auto simp: read_reason_end)
      with False show ?thesis
        using step chunk lg eos Cons.IH[OF _ bound, of "snd r"]
        by (auto intro!: read_account_Cons)
    qed
  qed
qed simp

end

text \<open>The answer built from an account, and the abbreviation for the termination character of a request.\<close>

definition wanted_char :: "device_read_parms \<Rightarrow> u8 option" where
  "wanted_char parms =
     (if has_flag (drp_flags parms) OP_FLAG_TERMCHRSET then Some (ucast (drp_term_char parms)) else None)"

lemma device_read_unfold:
  assumes "link_for sh (drp_lid parms) = Some l" "drp_request_size parms \<noteq> 0"
    "acquire_access sched now sh l (drp_flags parms) (drp_lock_timeout_ms parms) = Some (Inr u, sh1)"
    "b0 = (case wanted_char parms of
             Some ch \<Rightarrow> op_set_eos ops ch True (sh_bus sh1)
           | None \<Rightarrow> op_set_eos ops (fst (op_eos ops (sh_bus sh1))) False (sh_bus sh1))"
  shows "device_read sched obs now start ops sh parms =
    map_option (\<lambda>(out, d, b). (read_reply out d,
        set_link (drp_lid parms) window_drop (sh1\<lparr>sh_bus :=
          op_set_timeout ops (cf_default_io_timeout_ms (sh_config sh1))
            (op_set_eos ops (fst (op_eos ops (sh_bus sh1))) (snd (op_eos ops (sh_bus sh1))) b)\<rparr>)))
      (read_loop obs ops (is_interface l) (lk_pad l) (op_read_slice_ms ops b0) (wanted_char parms)
        (drp_request_size parms) (min (unat (drp_request_size parms)) MAX_READ)
        (deadline_after start (effective_timeout (sh_config sh1) (drp_io_timeout_ms parms))) [] b0)"
  using assms
  by (simp add: device_read_def wanted_char_def Let_def split: option.split prod.split)

lemma acquire_access_refusal:
  "acquire_access sched now sh l flags t = Some (Inl e, sh1) \<Longrightarrow> e = DeviceLockedByAnotherLink"
  by (auto simp: acquire_access_def split: if_splits option.splits prod.splits)

lemma read_reply_account:
  assumes "read_account tc req cl [] cs out d"
  shows "length (drr_data (read_reply out d)) \<le> cl"
    and "drr_error (read_reply out d) \<noteq> as_u32 IoError \<Longrightarrow> drr_data (read_reply out d) = concat (map fst cs)"
    and "drr_error (read_reply out d) = 0 \<Longrightarrow>
      cs \<noteq> [] \<and> drr_reason (read_reply out d) = read_reason tc req (snd (last cs)) d \<and>
      (drr_reason (read_reply out d) \<noteq> 0 \<or> length d = cl) \<and> (\<forall>c \<in> set (butlast cs). \<not> snd c) \<and>
      drr_data (read_reply out d) = d"
    and "drr_error (read_reply out d) \<noteq> 0 \<Longrightarrow> drr_reason (read_reply out d) = 0"
  using assms by (auto simp: read_account_def read_reply_def fail_read_def split: read_end.splits)

section \<open>Properties of reading\<close>

text \<open>C3. A device_read returns the instrument's bytes and tells the truth about them. Over any adapter
  that keeps the trait's contract and returns no more than it was asked for: the data is exactly what the successful reads of this call delivered,
  in order, never more than the request or 65536 bytes (except that error 17 drops what was received);
  success means the reasons given are exactly those that hold of the data (end of message, termination
  character, request count), nothing was read past an end of message, and an error carries no reason;
  and afterwards the end-of-string
  setting is what it was and, once anything was read, the timeout is the default again.\<close>

theorem read_returns_the_bus:
  assumes "gpib_backend ops tmo" and "records_reads ops rl" and "reads_fit ops"
    and "device_read sched obs now start ops sh parms = Some (resp, sh')"
    and "drp_request_size parms \<noteq> 0"
  shows "\<exists>cs. rl (sh_bus sh') = rl (sh_bus sh) @ cs \<and>
    length (drr_data resp) \<le> min (unat (drp_request_size parms)) MAX_READ \<and>
    (drr_error resp \<noteq> as_u32 IoError \<longrightarrow> drr_data resp = concat (map fst cs)) \<and>
    (drr_error resp = 0 \<longrightarrow> cs \<noteq> [] \<and> (\<forall>c \<in> set (butlast cs). \<not> snd c) \<and>
       drr_reason resp = read_reason (wanted_char parms) (drp_request_size parms) (snd (last cs)) (drr_data resp) \<and>
       (drr_reason resp \<noteq> 0 \<or> length (drr_data resp) = MAX_READ)) \<and>
    (drr_error resp \<noteq> 0 \<longrightarrow> drr_reason resp = 0) \<and>
    op_eos ops (sh_bus sh') = op_eos ops (sh_bus sh) \<and>
    (cs \<noteq> [] \<longrightarrow> tmo (sh_bus sh') = cf_default_io_timeout_ms (sh_config sh))"
proof (cases "link_for sh (drp_lid parms)")
  case None
  with assms(4) show ?thesis
    by (intro exI[of _ "[]"]) (auto simp: device_read_def fail_read_def)
next
  case (Some l)
  from assms(4,5) Some obtain r sh1 where acc:
    "acquire_access sched now sh l (drp_flags parms) (drp_lock_timeout_ms parms) = Some (r, sh1)"
    by (auto simp: device_read_def split: option.splits)
  from acquire_access_frame[OF acc] have bus: "sh_bus sh1 = sh_bus sh" "sh_config sh1 = sh_config sh"
    by auto
  show ?thesis
  proof (cases r)
    case (Inl e)
    with acquire_access_refusal acc have "e = DeviceLockedByAnotherLink" by blast
    with Inl assms(4,5) Some acc bus show ?thesis
      by (intro exI[of _ "[]"]) (auto simp: device_read_def fail_read_def)
  next
    case (Inr u)
    let ?b0 = "case wanted_char parms of
             Some ch \<Rightarrow> op_set_eos ops ch True (sh_bus sh1)
           | None \<Rightarrow> op_set_eos ops (fst (op_eos ops (sh_bus sh1))) False (sh_bus sh1)"
    let ?cl = "min (unat (drp_request_size parms)) MAX_READ"
    from assms(4) device_read_unfold[OF Some assms(5) acc[unfolded Inr] refl] obtain out d b where
      loop: "read_loop obs ops (is_interface l) (lk_pad l) (op_read_slice_ms ops ?b0) (wanted_char parms)
        (drp_request_size parms) ?cl
        (deadline_after start (effective_timeout (sh_config sh1) (drp_io_timeout_ms parms))) [] ?b0 = Some (out, d, b)"
      and resp: "resp = read_reply out d"
      and sh': "sh_bus sh' = op_set_timeout ops (cf_default_io_timeout_ms (sh_config sh1))
          (op_set_eos ops (fst (op_eos ops (sh_bus sh1))) (snd (op_eos ops (sh_bus sh1))) b)"
      by auto
    obtain cs where cs: "rl b = rl ?b0 @ cs" "read_account (wanted_char parms) (drp_request_size parms) ?cl [] cs out d"
      using gpib_backend.read_loop_account[OF assms(1,2,3) loop] by auto
    have b0: "rl ?b0 = rl (sh_bus sh)"
      using assms(2) bus by (simp add: records_reads_def split: option.split)
    have full: "drr_reason resp \<noteq> 0 \<or> length (drr_data resp) = MAX_READ" if "drr_error resp = 0"
    proof (cases "drr_reason resp = 0")
      case True
      with read_reply_account(3)[OF cs(2)] that resp have "length d = ?cl"
        "read_reason (wanted_char parms) (drp_request_size parms) (snd (last cs)) d = 0" "drr_data resp = d"
        by auto
      moreover from this(2) have "length d \<noteq> unat (drp_request_size parms)"
        by (auto simp: read_reason_def or_eq_0_iff split: if_splits)
      ultimately show ?thesis
        by (auto simp: min_def split: if_splits)
    qed simp
    show ?thesis
      using cs(1) b0 full read_reply_account[OF cs(2)] resp sh' assms(1,2) bus
      by (intro exI[of _ cs]) (auto simp: records_reads_def gpib_backend.eos_set_timeout gpib_backend.eos_set_eos
          gpib_backend.tmo_set_timeout)
  qed
qed

lemma scripted_reads: "records_reads scripted_ops sb_got"
  by (auto simp: records_reads_def scripted_ops_def next_reply_def split: list.split sum.split)

definition demo_reading :: "scripted shared" where
  "demo_reading = demo_shared\<lparr>sh_bus := scripted0\<lparr>sb_replies :=
     [Inr ([72, 80], False), Inl (lit ''Read timed out''), Inr ([49, 10], True), Inr ([0], True)]\<rparr>\<rparr>"

definition demo_read :: device_read_parms where
  "demo_read = \<lparr>drp_lid = 1, drp_request_size = 100, drp_io_timeout_ms = 2000, drp_lock_timeout_ms = 0,
     drp_flags = 0x80, drp_term_char = 10\<rparr>"

theorem read_returns_the_bus_witness:
  "\<exists>resp sh' cs. device_read [] (replicate 3 (False, 5)) 0 0 scripted_ops demo_reading demo_read = Some (resp, sh') \<and>
     drr_error resp = 0 \<and> drr_data resp = concat (map fst cs) \<and> drr_data resp = [72, 80, 49, 10] \<and>
     drr_reason resp = read_reason (Some 10) 100 (snd (last cs)) (drr_data resp) \<and>
     op_eos scripted_ops (sh_bus sh') = (10, False) \<and> sb_tmo (sh_bus sh') = 3000"
proof -
  obtain resp sh' where run:
    "device_read [] (replicate 3 (False, 5)) 0 0 scripted_ops demo_reading demo_read = Some (resp, sh')"
    "drr_error resp = 0" "drr_data resp = [72, 80, 49, 10]"
  proof -
    have "case device_read [] (replicate 3 (False, 5)) 0 0 scripted_ops demo_reading demo_read of
        Some (resp, sh') \<Rightarrow> drr_error resp = 0 \<and> drr_data resp = [72, 80, 49, 10] | None \<Rightarrow> False"
      by code_simp
    then show ?thesis
      by (auto intro: that split: option.splits)
  qed
  have "drp_request_size demo_read \<noteq> 0" and facts: "wanted_char demo_read = Some 10" "drp_request_size demo_read = 100"
    "op_eos scripted_ops (sh_bus demo_reading) = (10, False)" "cf_default_io_timeout_ms (sh_config demo_reading) = 3000"
    by code_simp+
  with read_returns_the_bus[OF scripted_backend.gpib_backend_axioms scripted_reads scripted_reads_fit run(1)] run(2,3) show ?thesis
    using run(1) by (force simp: facts)
qed

section \<open>Every transfer ends\<close>

lemma write_loop_ends:
  "written \<le> length d \<Longrightarrow> (length d - written) div WRITE_CHUNK < length obs \<Longrightarrow>
   \<exists>r. write_loop obs ops un pad eoi dl d written b = Some r"
proof (induction obs arbitrary: written b)
  case (Cons ob obs)
  define stop where "stop = min (written + WRITE_CHUNK) (length d)"
  have "\<exists>r. write_loop obs ops un pad eoi dl d stop b = Some r" if "stop \<noteq> length d" for b
  proof (rule Cons.IH)
    have "stop = written + WRITE_CHUNK" "written + WRITE_CHUNK < length d"
      using that by (auto simp: stop_def min_def split: if_splits)
    then show "(length d - stop) div WRITE_CHUNK < length obs"
      using Cons.prems(2) le_div_geq[of WRITE_CHUNK "length d - written"] by simp
  qed (simp add: stop_def)
  then show ?case
    by (cases ob) (auto simp: write_loop_step Let_def stop_def[symmetric] simp del: write_loop.simps split: sum.split)
qed simp

lemma read_loop_ends:
  "\<exists>(aborted, now) \<in> set obs. aborted \<or> dl \<le> now \<Longrightarrow>
   \<exists>r. read_loop obs ops un pad sl tc req cl dl d b = Some r"
proof (induction obs arbitrary: d b)
  case (Cons ob obs)
  obtain aborted now where ob: "ob = (aborted, now)" by (cases ob)
  show ?case
  proof (cases "aborted \<or> dl \<le> now")
    case False
    then have "\<exists>r. read_loop obs ops un pad sl tc req cl dl d b = Some r" for d b
      using Cons ob by auto
    then show ?thesis
      by (simp add: ob read_loop_step Let_def del: read_loop.simps split: sum.split)
  qed (auto simp: ob)
qed simp

text \<open>C32. No data transfer runs for ever. Once the lock gate has answered, a device_write is over after at
  most one turn per 4096 bytes of data, whatever the adapter does, and a device_read is over no later
  than the first turn that sees an abort or the deadline, whatever the instrument does.\<close>

theorem transfers_end:
  assumes "acquire_access sched now sh l flags lock_ms = Some (g, sh1)"
    and "link_for sh (dwp_lid wp) = Some l" "dwp_flags wp = flags" "dwp_lock_timeout_ms wp = lock_ms"
    and "length (dwp_data wp) div WRITE_CHUNK < length obs"
    and "link_for sh (drp_lid rp) = Some l" "drp_flags rp = flags" "drp_lock_timeout_ms rp = lock_ms"
    and "(aborted, t) \<in> set robs"
    and "aborted \<or> deadline_after start (effective_timeout (sh_config sh) (drp_io_timeout_ms rp)) \<le> t"
  shows "(\<exists>r. device_write sched obs late now start ops sh wp = Some r) \<and>
         (\<exists>r. device_read sched robs now start ops sh rp = Some r)"
proof
  have cf: "sh_config sh1 = sh_config sh"
    using acquire_access_frame[OF assms(1)] by auto
  show "\<exists>r. device_write sched obs late now start ops sh wp = Some r"
  proof (cases g)
    case (Inr u)
    obtain r where "write_loop obs ops (is_interface l) (lk_pad l) (has_flag (dwp_flags wp) OP_FLAG_END)
        (deadline_after start (effective_timeout (sh_config sh1) (dwp_io_timeout_ms wp)))
        (dwp_data wp) 0 (sh_bus sh1) = Some r"
      using write_loop_ends[of 0 "dwp_data wp" obs] assms(5) by fastforce
    with Inr assms(1-4) show ?thesis
      by (cases r) (simp add: device_write_def Let_def)
  qed (use assms(1-4) in \<open>simp add: device_write_def\<close>)
  show "\<exists>r. device_read sched robs now start ops sh rp = Some r"
  proof (cases "drp_request_size rp = 0 \<or> isl g")
    case True
    with assms(1,6-8) show ?thesis
      by (cases g) (auto simp: device_read_def)
  next
    case False
    then obtain u where g: "g = Inr u" and size: "drp_request_size rp \<noteq> 0" by (cases g) auto
    have acc: "acquire_access sched now sh l (drp_flags rp) (drp_lock_timeout_ms rp) = Some (Inr u, sh1)"
      using assms(1,7,8) g by simp
    have stop: "\<exists>(aborted, now) \<in> set robs. aborted \<or>
        deadline_after start (effective_timeout (sh_config sh1) (drp_io_timeout_ms rp)) \<le> now"
      using assms(9,10) cf by auto
    show ?thesis
      using read_loop_ends[OF stop] by (simp add: device_read_unfold[OF assms(6) size acc refl])
  qed
qed

theorem transfers_end_witness:
  "(\<exists>r. device_write [] [(False, 0)] False 0 0 scripted_ops demo_shared demo_write = Some r) \<and>
   (\<exists>r. device_read [] [(False, 0), (False, 2000000000)] 0 0 scripted_ops demo_shared
      (demo_read\<lparr>drp_flags := 8\<rparr>) = Some r)"
proof -
  have "acquire_access [] 0 demo_shared (new_link 1 (Pad 18) 18) 8 0 = Some (Inr (), demo_shared)"
    by (simp add: acquire_access_def demo_shared_def new_registry_def has_access_def)
  then show ?thesis
    by (rule transfers_end[where aborted = False and t = 2000000000])
      (simp_all add: demo_shared_def demo_write_def demo_read_def link_for_def
        deadline_after_def effective_timeout_def)
qed

end
