(* ===== verification/Vxi11_Links.thy ===== *)
theory Vxi11_Links
  imports Vxi11_Laws
begin

text \<open>
  The life of links and locks in the VXI-11 server: an invariant of the server state that every call, the
  abort channel, the service-request forwarder and the end of a connection keep, who is locked out, and
  what remains of a connection when it is over.
\<close>

section \<open>What other sessions do to the registry\<close>

text \<open>While a call waits for a lock, sessions of the other front-end use the registry.\<close>

definition bystander :: "(lock_registry \<Rightarrow> lock_registry) \<Rightarrow> bool" where
  "bystander f \<longleftrightarrow> (\<forall>reg. lock_run (\<lambda>h. \<forall>lid. h \<noteq> vxi11_id lid) reg (f reg))"

definition env_ok :: "call_env \<Rightarrow> bool" where
  "env_ok env \<longleftrightarrow>
     (\<forall>(now, f) \<in> set (ev_sched env). bystander f) \<and>
     (\<forall>e \<in> set (ev_lock_events env). case e of LockTurn _ f \<Rightarrow> bystander f | AbortWake _ \<Rightarrow> True)"

lemma lock_step_other:
  assumes "lock_step i reg reg'" "wf_registry reg" "j \<noteq> i"
  shows "holds reg' r j \<longleftrightarrow> holds reg r j"
  using assms(1)
proof cases
  case (step_request r' s g)
  with registry.hold_acquire[OF assms(2), of r' i s r j] assms(3) show ?thesis by simp
next
  case (step_release r' g)
  with registry.hold_rel[OF assms(2), of j i r r'] assms(3) show ?thesis by simp
next
  case step_release_all
  with registry.hold_rel_all[OF assms(2), of i r j] assms(3) show ?thesis by simp
qed

lemma lock_run_other:
  "lock_run who reg reg' \<Longrightarrow> wf_registry reg \<Longrightarrow> \<not> who j \<Longrightarrow> holds reg' r j \<longleftrightarrow> holds reg r j"
proof (induction rule: lock_run.induct)
  case (run_step who reg reg' i reg'')
  then have "j \<noteq> i" by auto
  with run_step lock_step_other[of i reg' reg'' j r] show ?case
    using lock_run_wf by blast
qed simp

lemma bystander_holds: "bystander f \<Longrightarrow> wf_registry reg \<Longrightarrow> holds (f reg) r (vxi11_id lid) \<longleftrightarrow> holds reg r (vxi11_id lid)"
  using lock_run_other[of "\<lambda>h. \<forall>lid. h \<noteq> vxi11_id lid" reg "f reg" "vxi11_id lid" r] by (auto simp: bystander_def)

lemma bystander_wf: "bystander f \<Longrightarrow> wf_registry reg \<Longrightarrow> wf_registry (f reg)"
  using lock_run_wf by (auto simp: bystander_def)

text \<open>What a lock operation of one link may do: the registry stays well formed, and only that link may
  hold something new, and only if the operation succeeded.\<close>

definition lock_effect :: "bool \<Rightarrow> i32 \<Rightarrow> lock_registry \<Rightarrow> lock_registry \<Rightarrow> bool" where
  "lock_effect granted lid reg reg' \<longleftrightarrow>
     wf_registry reg' \<and>
     (\<forall>r k. holds reg' r (vxi11_id k) \<longrightarrow> holds reg r (vxi11_id k) \<or> (k = lid \<and> granted))"

lemma lock_effect_refl: "wf_registry reg \<Longrightarrow> lock_effect g lid reg reg"
  by (simp add: lock_effect_def)

lemma lock_effect_bystander:
  "lock_effect g lid (f reg) reg' \<Longrightarrow> bystander f \<Longrightarrow> wf_registry reg \<Longrightarrow> lock_effect g lid reg reg'"
  by (auto simp: lock_effect_def bystander_holds)

lemma lock_effect_refused:
  "lock_effect g lid (snd (try_request reg r (vxi11_id lid) s)) reg' \<Longrightarrow> wf_registry reg \<Longrightarrow>
   fst (try_request reg r (vxi11_id lid) s) = None \<Longrightarrow> lock_effect g lid reg reg'"
  by (auto simp: lock_effect_def registry.hold_acquire)

lemma lock_effect_granted:
  "wf_registry reg \<Longrightarrow> lock_effect True lid reg (snd (try_request reg r (vxi11_id lid) s))"
  by (auto simp: lock_effect_def registry.hold_acquire try_request_wf)

lemma try_request_success:
  "fst (try_request reg r i s) = Some g \<Longrightarrow> is_success g"
  by (auto simp: try_request_fst try_table_def try_exclusive_def try_shared_def is_success_def Let_def
      split: option.splits if_splits)

lemma request_loop_effect:
  "request_loop sched r (vxi11_id lid) s dl reg = Some (g, reg') \<Longrightarrow> wf_registry reg \<Longrightarrow>
   \<forall>(now, f) \<in> set sched. bystander f \<Longrightarrow> lock_effect (is_success g) lid reg reg'"
proof (induction sched arbitrary: reg)
  case (Cons a sched)
  obtain now f where a: "a = (now, f)" by (cases a)
  obtain o1 reg1 where t: "try_request reg r (vxi11_id lid) s = (o1, reg1)"
    by (cases "try_request reg r (vxi11_id lid) s")
  have wf1: "wf_registry reg1"
    using try_request_wf[OF Cons.prems(2), of r "vxi11_id lid" s] t by simp
  show ?case
  proof (cases o1)
    case None
    show ?thesis
    proof (rule lock_effect_refused[where r = r and s = s])
      have "dl \<le> now \<Longrightarrow> reg' = reg1" "\<not> dl \<le> now \<Longrightarrow> lock_effect (is_success g) lid (f reg1) reg'"
        using Cons.prems Cons.IH[of "f reg1"] bystander_wf[of f reg1] None t a wf1 by auto
      then show "lock_effect (is_success g) lid (snd (try_request reg r (vxi11_id lid) s)) reg'"
        using Cons.prems(3) wf1 t a lock_effect_bystander[of "is_success g" lid f reg1 reg'] lock_effect_refl[of reg1]
        by (cases "dl \<le> now") auto
    qed (use t None Cons.prems in auto)
  next
    case (Some g1)
    then show ?thesis
      using Cons.prems t a lock_effect_granted[of reg lid r s] try_request_success[of reg r "vxi11_id lid" s g1] by auto
  qed
qed simp

lemma lock_wait_effect:
  "lock_wait evs r (vxi11_id lid) dl reg = Some (e, reg') \<Longrightarrow> wf_registry reg \<Longrightarrow>
   \<forall>e \<in> set evs. (case e of LockTurn _ f \<Rightarrow> bystander f | AbortWake _ \<Rightarrow> True) \<Longrightarrow>
   lock_effect (e = NoError) lid reg reg'"
proof (induction evs arbitrary: reg)
  case (Cons a evs)
  show ?case
  proof (cases a)
    case (AbortWake aborted)
    then show ?thesis
      using Cons by (auto simp: lock_effect_refl split: if_splits)
  next
    case (LockTurn now f)
    obtain o1 reg1 where t: "try_request reg r (vxi11_id lid) [] = (o1, reg1)"
      by (cases "try_request reg r (vxi11_id lid) []")
    have wf1: "wf_registry reg1"
      using try_request_wf[OF Cons.prems(2), of r "vxi11_id lid" "[]"] t by simp
    show ?thesis
    proof (cases o1)
      case None
      show ?thesis
      proof (rule lock_effect_refused[where r = r and s = "[]"])
        have "dl \<le> now \<Longrightarrow> reg' = reg1" "\<not> dl \<le> now \<Longrightarrow> lock_effect (e = NoError) lid (f reg1) reg'"
          using Cons.prems Cons.IH[of "f reg1"] bystander_wf[of f reg1] None t LockTurn wf1 by auto
        then show "lock_effect (e = NoError) lid (snd (try_request reg r (vxi11_id lid) [])) reg'"
          using Cons.prems(3) wf1 t LockTurn lock_effect_bystander[of "e = NoError" lid f reg1 reg'] lock_effect_refl[of reg1]
          by (cases "dl \<le> now") auto
      qed (use t None Cons.prems in auto)
    next
      case (Some g1)
      then show ?thesis
        using Cons.prems t LockTurn lock_effect_granted[of reg lid r "[]"]
          try_request_success[of reg r "vxi11_id lid" "[]" g1] by auto
    qed
  qed
qed simp

lemma wait_timeout_effect:
  "wait_timeout_loop sched r h dl reg = Some (g, reg') \<Longrightarrow> wf_registry reg \<Longrightarrow>
   \<forall>(now, f) \<in> set sched. bystander f \<Longrightarrow> lock_effect False lid reg reg'"
proof (induction sched arbitrary: reg)
  case (Cons a sched)
  then show ?case
    by (cases a) (auto simp: lock_effect_refl intro: lock_effect_bystander bystander_wf split: if_splits)
qed simp

section \<open>The invariant of the server\<close>

text \<open>Between calls: link numbers are unique, agree with the table and are below the next one, there are no more links than
  configured, no link's abort window is open, the registry is well formed, and every lock a link holds is
  held by a link of the table.\<close>

definition link_numbers :: "'b shared \<Rightarrow> i32 set" where
  "link_numbers sh = set (map fst (sh_links sh))"

definition link_closed :: "link \<Rightarrow> bool" where
  "link_closed l \<longleftrightarrow> \<not> lk_in_flight l \<and> \<not> lk_aborted l"

definition vxi_inv :: "'b shared \<Rightarrow> bool" where
  "vxi_inv sh \<longleftrightarrow>
     distinct (map fst (sh_links sh)) \<and>
     (\<forall>(k, l) \<in> set (sh_links sh). lk_lid l = k \<and> link_closed l) \<and>
     (\<forall>k \<in> link_numbers sh. unat k < unat (sh_next_lid sh)) \<and>
     length (sh_links sh) \<le> cf_max_links (sh_config sh) \<and>
     wf_registry (sh_locks sh) \<and>
     (\<forall>r lid. holds (sh_locks sh) r (vxi11_id lid) \<longrightarrow> lid \<in> link_numbers sh)"

lemma delete_numbers [simp]: "fst ` set (AList.delete k al) = fst ` set al - {k}"
  by (auto simp: AList.delete_keys simp flip: set_map)

lemma update_numbers [simp]: "fst ` set (AList.update k v al) = insert k (fst ` set al)"
  by (induction al) auto

lemma numbers_fold: "fst ` set (sh_links sh) = link_numbers sh"
  by (simp add: link_numbers_def)

lemma link_for_number: "link_for sh lid = Some l \<Longrightarrow> lid \<in> link_numbers sh"
  by (force simp: link_for_def link_numbers_def dest: map_of_SomeD)

lemma vxi_inv_link: "vxi_inv sh \<Longrightarrow> link_for sh lid = Some l \<Longrightarrow> lk_lid l = lid \<and> link_closed l"
  by (auto simp: vxi_inv_def link_for_def dest!: map_of_SomeD)

lemma vxi_inv_holder: "vxi_inv sh \<Longrightarrow> link_for sh lid = Some l \<Longrightarrow> holder l = vxi11_id lid"
  using vxi_inv_link[of sh lid l] by (simp add: holder_def)

lemma vxi_inv_bus [simp]: "vxi_inv (sh\<lparr>sh_bus := b\<rparr>) = vxi_inv sh"
  by (simp add: vxi_inv_def link_numbers_def)

lemma numbers_frame [simp]:
  "link_numbers (sh\<lparr>sh_bus := b\<rparr>) = link_numbers sh" "link_numbers (sh\<lparr>sh_locks := locks\<rparr>) = link_numbers sh"
  "link_numbers (set_link lid f sh) = link_numbers sh"
  "link_numbers (sh\<lparr>sh_links := ls\<rparr>) = fst ` set ls"
  unfolding link_numbers_def by (simp_all only: set_link_simps) simp_all

lemma vxi_inv_set_link:
  assumes "vxi_inv sh" "\<And>l. link_closed l \<Longrightarrow> lk_lid (f l) = lk_lid l \<and> link_closed (f l)"
  shows "vxi_inv (set_link lid f sh)"
proof -
  have "lk_lid l = k \<and> link_closed l" if "(k, l) \<in> set (sh_links (set_link lid f sh))" for k l
    using that assms by (auto simp: set_link_def vxi_inv_def split: if_splits)
  moreover have "length (sh_links (set_link lid f sh)) = length (sh_links sh)"
    by (simp add: set_link_def)
  ultimately show ?thesis
    using assms(1) by (auto simp: vxi_inv_def)
qed

lemma vxi_inv_locks:
  "vxi_inv sh \<Longrightarrow> lock_effect g lid (sh_locks sh) locks \<Longrightarrow> (g \<Longrightarrow> lid \<in> link_numbers sh) \<Longrightarrow>
   vxi_inv (sh\<lparr>sh_locks := locks\<rparr>)"
  unfolding vxi_inv_def lock_effect_def by simp blast

lemma link_closed_updates [simp]:
  "link_closed (window_drop l)" "lk_lid (window_drop l) = lk_lid l"
  "link_closed (l\<lparr>lk_consumed_stb := x\<rparr>) = link_closed l" "link_closed (l\<lparr>lk_srq_handle := h\<rparr>) = link_closed l"
  "link_closed l \<Longrightarrow> abort_link l = l" "link_closed (new_link lid kind pad)"
  by (auto simp: link_closed_def window_drop_def abort_link_def new_link_def)

lemma acquire_access_inv:
  assumes "acquire_access sched now sh l flags t = Some (r, sh1)" "vxi_inv sh"
    "\<forall>(now, f) \<in> set sched. bystander f"
  shows "vxi_inv sh1 \<and> link_numbers sh1 = link_numbers sh \<and> sh_next_lid sh1 = sh_next_lid sh"
proof -
  have "vxi_inv (sh\<lparr>sh_locks := locks\<rparr>)"
    if "wait_for_access_timeout sched now (sh_locks sh) (resource l) (holder l) (unat t * 1000000) = Some (g, locks)"
    for g locks
    using that wait_timeout_effect[of sched "resource l" "holder l" _ "sh_locks sh" g locks 0] assms(2,3)
    by (intro vxi_inv_locks[where g = False and lid = 0]) (auto simp: wait_for_access_timeout_def vxi_inv_def)
  then show ?thesis
    using assms(1,2) by (auto simp: acquire_access_def split: if_splits option.splits prod.splits)
qed

lemma delete_link_inv:
  assumes "vxi_inv sh" "link_for sh lid = Some l"
  shows "vxi_inv (sh\<lparr>sh_links := AList.delete lid (sh_links sh), sh_locks := release_all (sh_locks sh) (holder l)\<rparr>)"
proof -
  have "length (AList.delete lid (sh_links sh)) \<le> length (sh_links sh)"
    by (simp add: AList.length_delete_le)
  moreover have "fst ` set (AList.delete lid (sh_links sh)) = link_numbers sh - {lid}"
    by (simp add: link_numbers_def)
  moreover have "set (AList.delete lid (sh_links sh)) \<subseteq> set (sh_links sh)"
    by (simp add: AList.delete_eq)
  ultimately show ?thesis
    using assms vxi_inv_holder[OF assms]
    by (auto simp: vxi_inv_def AList.distinct_delete release_all_wf registry.hold_rel_all)
qed

text \<open>Every handler keeps the invariant; all but the two that make and destroy links keep the set of
  links.\<close>

definition same_links :: "'b shared \<Rightarrow> 'b shared \<Rightarrow> bool" where
  "same_links sh sh' \<longleftrightarrow>
     vxi_inv sh' \<and> link_numbers sh' = link_numbers sh \<and> sh_next_lid sh' = sh_next_lid sh"

lemma gated_links:
  assumes "acquire_access sched now sh l flags t = Some (r, sh1)" "vxi_inv sh"
    "\<forall>(now, f) \<in> set sched. bystander f"
  shows "same_links sh sh1" "same_links sh (set_link lid window_drop (sh1\<lparr>sh_bus := b\<rparr>))"
    "same_links sh (set_link lid window_drop sh1)"
    "same_links sh (set_link lid (\<lambda>l. window_drop (l\<lparr>lk_consumed_stb := None\<rparr>)) (sh1\<lparr>sh_bus := b\<rparr>))"
    "same_links sh (set_link lid (\<lambda>l. l\<lparr>lk_consumed_stb := None\<rparr>) sh1)"
  using acquire_access_inv[OF assms] by (simp_all add: same_links_def vxi_inv_set_link)

lemma same_links_refl: "vxi_inv sh \<Longrightarrow> same_links sh sh"
  by (simp add: same_links_def)

lemma device_write_inv:
  assumes "device_write sched obs late now start ops sh parms = Some (resp, sh')" "vxi_inv sh"
    "\<forall>(now, f) \<in> set sched. bystander f"
  shows "same_links sh sh'"
proof (cases "link_for sh (dwp_lid parms)")
  case (Some l)
  show ?thesis
  proof (cases "acquire_access sched now sh l (dwp_flags parms) (dwp_lock_timeout_ms parms)")
    case (Some g)
    obtain r sh1 where g: "g = (r, sh1)" by (cases g)
    note gate = gated_links[OF Some[unfolded g] assms(2,3)]
    show ?thesis
      using assms(1,2) \<open>link_for sh (dwp_lid parms) = Some l\<close> Some[unfolded g] gate
      by (cases r) (auto simp: device_write_def same_links_refl Let_def case_prod_beta split: option.splits if_splits)
  qed (use assms Some in \<open>auto simp: device_write_def same_links_refl Let_def split: if_splits\<close>)
qed (use assms in \<open>auto simp: device_write_def same_links_refl Let_def\<close>)

lemma device_read_inv:
  assumes "device_read sched obs now start ops sh parms = Some (resp, sh')" "vxi_inv sh"
    "\<forall>(now, f) \<in> set sched. bystander f"
  shows "same_links sh sh'"
proof (cases "link_for sh (drp_lid parms)")
  case (Some l)
  show ?thesis
  proof (cases "acquire_access sched now sh l (drp_flags parms) (drp_lock_timeout_ms parms)")
    case (Some g)
    obtain r sh1 where g: "g = (r, sh1)" by (cases g)
    note gate = gated_links[OF Some[unfolded g] assms(2,3)]
    show ?thesis
      using assms(1,2) \<open>link_for sh (drp_lid parms) = Some l\<close> Some[unfolded g] gate
      by (cases r) (auto simp: device_read_def same_links_refl Let_def case_prod_beta split: option.splits if_splits)
  qed (use assms Some in \<open>auto simp: device_read_def same_links_refl Let_def split: if_splits\<close>)
qed (use assms in \<open>auto simp: device_read_def same_links_refl Let_def\<close>)

lemma device_readstb_inv:
  assumes "device_readstb sched aborted now ops sh parms = Some (resp, sh')" "vxi_inv sh"
    "\<forall>(now, f) \<in> set sched. bystander f"
  shows "same_links sh sh'"
proof (cases "link_for sh (dgp_lid parms)")
  case (Some l)
  show ?thesis
  proof (cases "acquire_access sched now sh l (dgp_flags parms) (dgp_lock_timeout_ms parms)")
    case (Some g)
    obtain r sh1 where g: "g = (r, sh1)" by (cases g)
    note gate = gated_links[OF Some[unfolded g] assms(2,3)]
    show ?thesis
      using assms(1,2) \<open>link_for sh (dgp_lid parms) = Some l\<close> Some[unfolded g] gate
      by (cases r) (auto simp: device_readstb_def same_links_refl Let_def case_prod_beta split: option.splits if_splits)
  qed (use assms Some in \<open>auto simp: device_readstb_def same_links_refl Let_def split: if_splits\<close>)
qed (use assms in \<open>auto simp: device_readstb_def same_links_refl Let_def\<close>)

lemma device_simple_inv:
  assumes "device_simple sched aborted now ops sh proc parms = Some (e, sh')" "vxi_inv sh"
    "\<forall>(now, f) \<in> set sched. bystander f"
  shows "same_links sh sh'"
proof (cases "link_for sh (dgp_lid parms)")
  case (Some l)
  show ?thesis
  proof (cases "acquire_access sched now sh l (dgp_flags parms) (dgp_lock_timeout_ms parms)")
    case (Some g)
    obtain r sh1 where g: "g = (r, sh1)" by (cases g)
    note gate = gated_links[OF Some[unfolded g] assms(2,3)]
    show ?thesis
      using assms(1,2) \<open>link_for sh (dgp_lid parms) = Some l\<close> Some[unfolded g] gate
      by (cases r) (auto simp: device_simple_def same_links_refl Let_def case_prod_beta split: option.splits if_splits)
  qed (use assms Some in \<open>auto simp: device_simple_def same_links_refl Let_def split: if_splits\<close>)
qed (use assms in \<open>auto simp: device_simple_def same_links_refl Let_def\<close>)

lemma device_docmd_inv:
  assumes "device_docmd sched aborted now ops sh parms = Some (resp, sh')" "vxi_inv sh"
    "\<forall>(now, f) \<in> set sched. bystander f"
  shows "same_links sh sh'"
proof (cases "link_for sh (ddp_lid parms)")
  case (Some l)
  show ?thesis
  proof (cases "acquire_access sched now sh l (ddp_flags parms) (ddp_lock_timeout_ms parms)")
    case (Some g)
    obtain r sh1 where g: "g = (r, sh1)" by (cases g)
    note gate = gated_links[OF Some[unfolded g] assms(2,3)]
    show ?thesis
      using assms(1,2) \<open>link_for sh (ddp_lid parms) = Some l\<close> Some[unfolded g] gate
      by (cases r) (auto simp: device_docmd_def same_links_refl Let_def case_prod_beta split: option.splits if_splits)
  qed (use assms Some in \<open>auto simp: device_docmd_def same_links_refl Let_def split: if_splits\<close>)
qed (use assms in \<open>auto simp: device_docmd_def same_links_refl Let_def\<close>)

lemma device_lock_inv:
  assumes "device_lock evs now sh parms = Some (e, sh')" "vxi_inv sh"
    "\<forall>e \<in> set evs. (case e of LockTurn _ f \<Rightarrow> bystander f | AbortWake _ \<Rightarrow> True)"
  shows "same_links sh sh'"
proof (cases "link_for sh (dlp_lid parms)")
  case (Some l)
  have "vxi_inv (sh\<lparr>sh_locks := locks\<rparr>)"
    if "lock_wait evs (resource l) (holder l) dl (sh_locks sh) = Some (x, locks)" for dl x locks
    using that lock_wait_effect[of evs "resource l" "dlp_lid parms" dl "sh_locks sh" x locks] assms(2,3)
      vxi_inv_holder[OF assms(2) Some] link_for_number[OF Some]
    by (intro vxi_inv_locks[where g = "x = NoError" and lid = "dlp_lid parms"]) (auto simp: vxi_inv_def)
  then show ?thesis
    using assms(1,2) Some
    by (auto simp: device_lock_def same_links_def Let_def intro!: vxi_inv_set_link
        split: if_splits option.splits)
qed (use assms in \<open>auto simp: device_lock_def same_links_def\<close>)

lemma device_unlock_inv:
  assumes "device_unlock sh lid = (e, sh')" "vxi_inv sh"
  shows "same_links sh sh'"
proof (cases "link_for sh lid")
  case (Some l)
  have "holds (snd (release (sh_locks sh) r i)) r' j \<Longrightarrow> holds (sh_locks sh) r i \<Longrightarrow> holds (sh_locks sh) r' j" for r i r' j
    using registry.hold_rel[of "sh_locks sh" j i r' r] assms(2) by (cases "j = i \<and> r' = r") (auto simp: vxi_inv_def)
  then have "holds (sh_locks sh) (resource l) (holder l) \<Longrightarrow>
      vxi_inv (sh\<lparr>sh_locks := snd (release (sh_locks sh) (resource l) (holder l))\<rparr>)"
    using assms(2) by (intro vxi_inv_locks[where g = False and lid = 0]) (auto simp: lock_effect_def vxi_inv_def release_wf)
  then show ?thesis
    using assms Some by (auto simp: device_unlock_def same_links_def split: if_splits)
qed (use assms in \<open>auto simp: device_unlock_def same_links_def\<close>)

lemma enable_srq_inv:
  assumes "enable_srq ops sh conn parms = (e, sh', conn')" "vxi_inv sh"
  shows "same_links sh sh' \<and> cs_owned conn' = cs_owned conn"
proof -
  have "vxi_inv (set_link (dep_lid parms) (\<lambda>l. l\<lparr>lk_srq_handle := h\<rparr>) sh)" for h
    by (rule vxi_inv_set_link[OF assms(2)]) simp
  then show ?thesis
    using assms by (auto simp: enable_srq_def same_links_def Let_def
        split: option.splits if_splits prod.splits sum.splits bool.splits)
qed

text \<open>A call may use up one link number.\<close>

definition numbers_left :: "nat \<Rightarrow> 'b shared \<Rightarrow> bool" where
  "numbers_left n sh \<longleftrightarrow> unat (sh_next_lid sh) + n < 2 ^ 32"

text \<open>The links that do not belong to a connection: no call of the connection adds to them.\<close>

definition foreign_links :: "'b shared \<Rightarrow> conn_state \<Rightarrow> i32 set" where
  "foreign_links sh conn = link_numbers sh - set (cs_owned conn)"

definition keeps_inv :: "'b shared \<Rightarrow> conn_state \<Rightarrow> 'b shared \<Rightarrow> conn_state \<Rightarrow> bool" where
  "keeps_inv sh conn sh' conn' \<longleftrightarrow>
     vxi_inv sh' \<and> foreign_links sh' conn' \<subseteq> foreign_links sh conn \<and>
     unat (sh_next_lid sh') \<le> unat (sh_next_lid sh) + 1"

lemma keeps_same: "same_links sh sh' \<Longrightarrow> cs_owned conn' = cs_owned conn \<Longrightarrow> keeps_inv sh conn sh' conn'"
  by (simp add: keeps_inv_def same_links_def foreign_links_def)

lemma update_fresh: "k \<notin> fst ` set al \<Longrightarrow> AList.update k v al = al @ [(k, v)]"
  by (induction al) auto

lemma keeps_refl: "vxi_inv sh \<Longrightarrow> keeps_inv sh conn sh conn"
  by (simp add: keeps_inv_def)

lemma insert_link_inv:
  assumes "vxi_inv sh" "length (sh_links sh) < cf_max_links (sh_config sh)" "unat (sh_next_lid sh) + 1 < 2 ^ 32"
    "link_closed l" "lk_lid l = sh_next_lid sh"
  shows "vxi_inv (sh\<lparr>sh_next_lid := sh_next_lid sh + 1, sh_links := AList.update (sh_next_lid sh) l (sh_links sh)\<rparr>)"
    and "\<not> holds (sh_locks sh) r (vxi11_id (sh_next_lid sh))"
proof -
  have fresh: "sh_next_lid sh \<notin> link_numbers sh"
    using assms(1) by (auto simp: vxi_inv_def)
  have step: "unat (sh_next_lid sh + 1) = unat (sh_next_lid sh) + 1"
    using assms(3) by (simp add: unat_word_ariths)
  show "vxi_inv (sh\<lparr>sh_next_lid := sh_next_lid sh + 1, sh_links := AList.update (sh_next_lid sh) l (sh_links sh)\<rparr>)"
    using assms fresh unfolding vxi_inv_def link_numbers_def
    by (auto simp: update_fresh step less_Suc_eq)
  show "\<not> holds (sh_locks sh) r (vxi11_id (sh_next_lid sh))"
    using assms(1) fresh by (auto simp: vxi_inv_def)
qed

lemma forget_link_inv:
  assumes "vxi_inv sh" "\<And>r. \<not> holds (sh_locks sh) r (vxi11_id lid)"
  shows "vxi_inv (sh\<lparr>sh_links := AList.delete lid (sh_links sh)\<rparr>)"
proof -
  have "length (AList.delete lid (sh_links sh)) \<le> length (sh_links sh)"
    "set (AList.delete lid (sh_links sh)) \<subseteq> set (sh_links sh)"
    by (simp_all add: AList.length_delete_le AList.delete_eq)
  moreover have "set (map fst (AList.delete lid (sh_links sh))) = link_numbers sh - {lid}"
    by (simp add: link_numbers_def)
  ultimately show ?thesis
    using assms by (auto simp: vxi_inv_def AList.distinct_delete)
qed

lemma create_link_inv:
  assumes "create_link sched now sh conn parms = Some (resp, sh', conn')" "vxi_inv sh"
    "unat (sh_next_lid sh) + 1 < 2 ^ 32" "\<forall>(now, f) \<in> set sched. bystander f"
  shows "keeps_inv sh conn sh' conn'"
proof (cases "parse_device_name (from_utf8_lossy (clp_device parms)) (cf_default_pad (sh_config sh))")
  case (Inr kind)
  define pad where "pad = (case kind of Pad p \<Rightarrow> p | Interface \<Rightarrow> cf_default_pad (sh_config sh))"
  define lid where "lid = sh_next_lid sh"
  define l where "l = new_link lid kind pad"
  define sh1 where "sh1 = sh\<lparr>sh_next_lid := sh_next_lid sh + 1, sh_links := AList.update lid l (sh_links sh)\<rparr>"
  have l: "link_closed l" "lk_lid l = sh_next_lid sh" "holder l = vxi11_id lid"
    by (simp_all add: l_def lid_def holder_def new_link_def link_closed_def)
  have num: "link_numbers sh1 = insert lid (link_numbers sh)"
    by (simp add: sh1_def link_numbers_def)
  show ?thesis
  proof (cases "cf_max_links (sh_config sh) \<le> length (sh_links sh)")
    case True
    then show ?thesis
      using assms(1,2) Inr by (auto simp: create_link_def keeps_inv_def Let_def)
  next
    case False
    note ins = insert_link_inv[OF assms(2) _ assms(3) l(1,2)]
    have inv1: "vxi_inv sh1"
      using ins(1) False by (simp add: sh1_def lid_def)
    have fresh: "\<not> holds (sh_locks sh1) r (vxi11_id lid)" for r
      using ins(2) False by (simp add: sh1_def lid_def)
    have locked: "vxi_inv (sh1\<lparr>sh_locks := locks\<rparr>)"
      "\<not> is_success g \<Longrightarrow> vxi_inv (sh1\<lparr>sh_locks := locks, sh_links := AList.delete lid (sh_links sh1)\<rparr>)"
      if "request sched now (sh_locks sh1) (resource l) (holder l) [] t = Some (g, locks)" for t g locks
    proof -
      have eff: "lock_effect (is_success g) lid (sh_locks sh1) locks"
        using request_loop_effect that l(3) inv1 assms(4) by (simp add: request_def vxi_inv_def)
      then show both: "vxi_inv (sh1\<lparr>sh_locks := locks\<rparr>)"
        by (rule vxi_inv_locks[OF inv1]) (simp add: num)
      assume "\<not> is_success g"
      then have "\<not> holds (sh_locks (sh1\<lparr>sh_locks := locks\<rparr>)) r (vxi11_id lid)" for r
        using eff fresh by (auto simp: lock_effect_def)
      from forget_link_inv[OF both this] show
        "vxi_inv (sh1\<lparr>sh_locks := locks, sh_links := AList.delete lid (sh_links sh1)\<rparr>)" by simp
    qed
    have create: "create_link sched now sh conn parms =
      (let conn1 = conn\<lparr>cs_owned := cs_owned conn @ [lid]\<rparr>;
           ok = \<lparr>clr_error = as_u32 NoError, clr_lid = lid, clr_abort_port = sh_abort_port sh,
                 clr_max_recv_size = cf_max_recv_size (sh_config sh)\<rparr>
       in if \<not> clp_lock_device parms then Some (ok, sh1, conn1)
          else case request sched now (sh_locks sh1) (resource l) (holder l) []
                 (unat (clp_lock_timeout_ms parms) * 1000000) of
                 None \<Rightarrow> None
               | Some (granted, locks') \<Rightarrow>
                   if is_success granted then Some (ok, sh1\<lparr>sh_locks := locks'\<rparr>, conn1)
                   else Some (refuse_link DeviceLockedByAnotherLink,
                              sh1\<lparr>sh_locks := locks', sh_links := AList.delete lid (sh_links sh1)\<rparr>,
                              conn1\<lparr>cs_owned := filter (\<lambda>k. k \<noteq> lid) (cs_owned conn1)\<rparr>))"
      by (simp only: create_link_def Inr sum.case Let_def False if_False pad_def lid_def l_def sh1_def)
    have "unat (sh_next_lid sh1) = unat (sh_next_lid sh) + 1"
      using assms(3) by (simp add: sh1_def unat_word_ariths)
    then show ?thesis
      using assms(1) inv1 locked num unfolding create
      by (auto simp: keeps_inv_def foreign_links_def Let_def numbers_fold
          split: if_splits option.splits)
  qed
qed (use assms in \<open>auto simp: create_link_def keeps_inv_def\<close>)

lemma destroy_link_inv:
  assumes "destroy_link sh conn lid = (e, sh', conn')" "vxi_inv sh"
  shows "keeps_inv sh conn sh' conn'"
  using assms delete_link_inv[OF assms(2), of lid]
  by (auto simp: destroy_link_def keeps_inv_def foreign_links_def numbers_fold
      split: option.splits)

lemma run_proc_inv:
  assumes "run_proc env ops sh conn proc args = Some (r, sh', conn')" "vxi_inv sh" "env_ok env" "numbers_left 1 sh"
  shows "keeps_inv sh conn sh' conn'"
proof -
  have ok: "\<forall>(now, f) \<in> set (ev_sched env). bystander f"
    "\<forall>e \<in> set (ev_lock_events env). (case e of LockTurn _ f \<Rightarrow> bystander f | AbortWake _ \<Rightarrow> True)"
    using assms(3) by (auto simp: env_ok_def)
  have number: "unat (sh_next_lid sh) + 1 < 2 ^ 32"
    using assms(4) by (simp add: numbers_left_def)
  have chan: "keeps_inv s conn s conn1"
    if "vxi_inv s" "create_intr_chan c conn p = (e, conn1) \<or> destroy_intr_chan conn = (e, conn1)" for s c p e conn1
    using that by (auto simp: create_intr_chan_def destroy_intr_chan_def keeps_inv_def foreign_links_def
        split: if_splits option.splits)
  show ?thesis
    using assms(1,2) unfolding run_proc_def
    by (auto split: if_splits sum.splits prod.splits xdr_error.splits simp: keeps_refl keeps_same same_links_refl
        dest!: create_link_inv[OF _ assms(2) number ok(1)] device_write_inv[OF _ assms(2) ok(1)]
          device_read_inv[OF _ assms(2) ok(1)] device_readstb_inv[OF _ assms(2) ok(1)]
          device_simple_inv[OF _ assms(2) ok(1)] destroy_link_inv[OF _ assms(2)]
          device_lock_inv[OF _ assms(2) ok(2)] device_unlock_inv[OF _ assms(2)] enable_srq_inv[OF _ assms(2)]
          device_docmd_inv[OF _ assms(2) ok(1)] intro: chan)
qed

lemma core_dispatch_inv:
  assumes "core_dispatch env ops sh conn header args = Some (r, sh', conn')" "vxi_inv sh" "env_ok env" "numbers_left 1 sh"
  shows "keeps_inv sh conn sh' conn'"
  using assms(1,2) run_proc_inv[OF _ assms(2-4)]
  by (auto simp: core_dispatch_def Let_def keeps_refl split: if_splits)

lemma serve_record_inv:
  assumes "serve_record env ops sh conn rec = Some (r, sh', conn')" "vxi_inv sh" "env_ok env" "numbers_left 1 sh"
  shows "keeps_inv sh conn sh' conn'"
proof (cases "decode_call rec")
  case (Inl e)
  then show ?thesis
    using assms(1,2) by (cases e) (auto simp: serve_record_def keeps_refl)
next
  case (Inr x)
  then show ?thesis
    using assms(1) core_dispatch_inv[OF _ assms(2-4)] by (cases x) (auto simp: serve_record_def)
qed

lemma abort_dispatch_inv:
  assumes "vxi_inv sh"
  shows "snd (abort_dispatch sh header args) = sh"
proof -
  have "map (\<lambda>(k, l). (k, if k = lid then abort_link l else l)) (sh_links sh) = sh_links sh" for lid
    using assms by (intro map_idI) (auto simp: vxi_inv_def)
  then show ?thesis
    by (simp add: abort_dispatch_def set_link_def Let_def split: sum.split option.split)
qed

lemma srq_visit_inv:
  assumes "vxi_inv (sp_shared st)"
  shows "same_links (sp_shared st) (sp_shared (srq_visit ops l st))"
proof -
  have "same_links (sp_shared st) (sp_shared (snd (srq_requesting ops l st)))"
    using assms by (auto simp: srq_requesting_def same_links_def Let_def split: option.splits prod.splits sum.splits)
  moreover have "same_links sh (sp_shared (srq_notify l st1))" if "same_links sh (sp_shared st1)" for sh and st1 :: "'a srq_pass"
    using that by (auto simp: srq_notify_def same_links_def Let_def intro!: vxi_inv_set_link split: option.splits)
  ultimately show ?thesis
    by (simp add: srq_visit_def case_prod_beta)
qed

lemma srq_forward_inv:
  assumes "srq_forward ops sh conn = (sh', conn')" "vxi_inv sh"
  shows "keeps_inv sh conn sh' conn'"
proof -
  have "same_links (sp_shared st) (sp_shared (fold (srq_visit ops) ls st))" if "vxi_inv (sp_shared st)" for ls st
    using that
  proof (induction ls arbitrary: st)
    case (Cons l ls)
    then show ?case
      using srq_visit_inv[of st ops l] Cons.IH[of "srq_visit ops l st"] by (auto simp: same_links_def)
  qed (simp add: same_links_refl)
  from this[of "\<lparr>sp_shared = sh, sp_polled = [], sp_stash = [], sp_sent = []\<rparr>" "srq_targets sh conn"] show ?thesis
    using assms by (auto simp: srq_forward_def Let_def intro: keeps_same)
qed

lemma close_connection_inv:
  assumes "vxi_inv sh"
  shows "vxi_inv (close_connection sh conn) \<and> link_numbers (close_connection sh conn) = foreign_links sh conn"
proof -
  define f where "f = (\<lambda>lid sh :: 'a shared. case link_for sh lid of
      Some l \<Rightarrow> sh\<lparr>sh_links := AList.delete lid (sh_links sh), sh_locks := release_all (sh_locks sh) (holder l)\<rparr>
    | None \<Rightarrow> sh)"
  have none: "link_for sh lid = None \<longleftrightarrow> lid \<notin> link_numbers sh" for sh :: "'a shared" and lid
    by (simp add: link_for_def link_numbers_def map_of_eq_None_iff)
  have "vxi_inv (fold f lids sh) \<and> link_numbers (fold f lids sh) = link_numbers sh - set lids" for lids
    using assms
  proof (induction lids arbitrary: sh)
    case (Cons lid lids)
    have "vxi_inv (f lid sh) \<and> link_numbers (f lid sh) = link_numbers sh - {lid}"
      using Cons.prems delete_link_inv[OF Cons.prems, of lid] none[of sh lid]
      by (auto simp: f_def numbers_fold split: option.splits)
    with Cons.IH[of "f lid sh"] show ?case
      by auto
  qed simp
  then show ?thesis
    by (simp add: close_connection_def f_def foreign_links_def)
qed

section \<open>Runs of the server\<close>

definition new_shared :: "config \<Rightarrow> u16 \<Rightarrow> lock_registry \<Rightarrow> 'b \<Rightarrow> 'b shared" where
  "new_shared cf port locks b =
     \<lparr>sh_config = cf, sh_links = [], sh_next_lid = 1, sh_abort_port = port, sh_locks = locks, sh_bus = b\<rparr>"

text \<open>Everything that changes the server between calls: calls of any connection, the abort channel, the
  forwarder, the orderly end of a connection, sessions of the other front-end, and other users of the
  adapter.\<close>

inductive server_step :: "'b backend_ops \<Rightarrow> 'b shared \<Rightarrow> 'b shared \<Rightarrow> bool" for ops where
  step_record: "serve_record env ops sh conn rec = Some (r, sh', conn') \<Longrightarrow> env_ok env \<Longrightarrow> numbers_left 1 sh \<Longrightarrow>
    server_step ops sh sh'"
| step_abort: "abort_dispatch sh header args = (reply, sh') \<Longrightarrow> server_step ops sh sh'"
| step_forward: "srq_forward ops sh conn = (sh', conn') \<Longrightarrow> server_step ops sh sh'"
| step_close: "close_connection sh conn = sh' \<Longrightarrow> server_step ops sh sh'"
| step_locks: "bystander f \<Longrightarrow> server_step ops sh (sh\<lparr>sh_locks := f (sh_locks sh)\<rparr>)"
| step_bus: "server_step ops sh (sh\<lparr>sh_bus := b\<rparr>)"

lemma server_step_inv: "server_step ops sh sh' \<Longrightarrow> vxi_inv sh \<Longrightarrow> vxi_inv sh'"
proof (induction rule: server_step.induct)
  case (step_record env sh conn rec r sh' conn')
  then show ?case
    using serve_record_inv[of env ops sh conn rec r sh' conn'] by (auto simp: keeps_inv_def)
next
  case (step_abort sh header args reply sh')
  then show ?case
    using abort_dispatch_inv[of sh header args] by simp
next
  case (step_forward sh conn sh' conn')
  then show ?case
    using srq_forward_inv[of ops sh conn sh' conn'] by (simp add: keeps_inv_def)
next
  case (step_close sh conn sh')
  then show ?case
    using close_connection_inv[of sh conn] by simp
next
  case (step_locks f sh)
  have "lock_effect False 0 (sh_locks sh) (f (sh_locks sh))"
    using step_locks by (auto simp: vxi_inv_def lock_effect_def bystander_wf bystander_holds)
  then show ?case
    using step_locks vxi_inv_locks[of sh False 0] by simp
qed simp

section \<open>Examples\<close>

lemma holds_new: "\<not> holds new_registry r i"
  by (simp add: holds_def new_registry_def)

lemma demo_inv: "vxi_inv demo_shared"
  by (simp add: vxi_inv_def demo_shared_def link_numbers_def default_config_def new_link_def link_closed_def
      holds_new)

definition demo_env :: call_env where
  "demo_env = \<lparr>ev_sched = [], ev_lock_events = [], ev_obs = [], ev_aborted = False, ev_now = 0, ev_start = 0,
     ev_connects = True\<rparr>"

lemma demo_env_ok: "env_ok demo_env"
  by (simp add: env_ok_def demo_env_def)

definition demo_conn :: conn_state where
  "demo_conn = \<lparr>cs_owned = [1, 2], cs_intr = None, cs_peer = 0\<rparr>"

definition demo_args :: bytes where
  "demo_args = encode_create_link_parms \<lparr>clp_client_id = 1, clp_lock_device = True, clp_lock_timeout_ms = 0,
     clp_device = [103, 112, 105, 98, 48, 44, 49, 56]\<rparr> []"

definition demo_call :: bytes where
  "demo_call = encode_call 7 DEVICE_CORE_PROG DEVICE_CORE_VERS CREATE_LINK demo_args"

text \<open>The instrument at address 18 exclusively locked by link 1, and by a HiSLIP session.\<close>

definition demo_locked :: "scripted shared" where
  "demo_locked = demo_shared\<lparr>sh_locks := snd (try_request new_registry (resource_key 18) (vxi11_id 1) [])\<rparr>"

definition demo_hislip :: "scripted shared" where
  "demo_hislip = demo_shared\<lparr>sh_locks := snd (try_request new_registry (resource_key 18) (hislip_id 5) [])\<rparr>"

lemma demo_locked_inv: "vxi_inv demo_locked"
  unfolding demo_locked_def
proof (rule vxi_inv_locks[OF demo_inv])
  show "lock_effect True 1 (sh_locks demo_shared) (snd (try_request new_registry (resource_key 18) (vxi11_id 1) []))"
    using lock_effect_granted[of new_registry 1] by (simp add: demo_shared_def)
qed (simp add: link_numbers_def demo_shared_def)

lemma demo_hislip_inv: "vxi_inv demo_hislip"
proof -
  have "bystander (\<lambda>reg. snd (try_request reg (resource_key 18) (hislip_id 5) []))"
    by (simp add: bystander_def lock_run_request)
  from server_step_inv[OF step_locks[OF this] demo_inv] show ?thesis
    by (simp add: demo_hislip_def demo_shared_def)
qed

section \<open>Properties of links and locks\<close>



lemma serve_connection_inv:
  "serve_connection envs writes ops rd sh conn out = Some (out', res, sh') \<Longrightarrow> vxi_inv sh \<Longrightarrow> list_all env_ok envs \<Longrightarrow>
   numbers_left (length envs) sh \<Longrightarrow>
   vxi_inv sh' \<and> (res = Inr () \<longrightarrow> link_numbers sh' \<subseteq> foreign_links sh conn)"
proof (induction envs arbitrary: writes rd sh conn out)
  case Nil
  then show ?case
    using close_connection_inv[of sh conn]
    by (auto simp: serve_connection.simps[of "[]"] split: sum.splits option.splits prod.splits)
next
  case (Cons env envs)
  note run = Cons.prems(1)[unfolded serve_connection.simps[of "env # envs"]]
  consider (failed) e where "read_record (max_record (sh_config sh)) rd = Inl e"
    | (ended) rd' where "read_record (max_record (sh_config sh)) rd = Inr (None, rd')"
    | (call) rec rd' where "read_record (max_record (sh_config sh)) rd = Inr (Some rec, rd')"
    by (cases "read_record (max_record (sh_config sh)) rd") (metis option.exhaust prod.exhaust)+
  then show ?case
  proof cases
    case failed
    then show ?thesis using run Cons.prems(2) by auto
  next
    case ended
    then show ?thesis using run close_connection_inv[OF Cons.prems(2), of conn] by auto
  next
    case call
    then obtain r sh1 conn1 where rec: "serve_record env ops sh conn rec = Some (r, sh1, conn1)"
      using run by (auto split: option.splits)
    have keep: "keeps_inv sh conn sh1 conn1"
      using serve_record_inv[OF rec Cons.prems(2)] Cons.prems(3,4) by (simp add: numbers_left_def)
    have left: "vxi_inv sh1" "list_all env_ok envs" "numbers_left (length envs) sh1"
      using keep Cons.prems(3,4) by (auto simp: keeps_inv_def numbers_left_def)
    have rest: "vxi_inv sh' \<and> (res = Inr () \<longrightarrow> link_numbers sh' \<subseteq> foreign_links sh conn)"
      if "serve_connection envs w ops rd1 sh1 conn1 o1 = Some (out', res, sh')" for w rd1 o1
      using Cons.IH[OF that left] keep unfolding keeps_inv_def by blast
    show ?thesis
      using run call rec left(1) rest by (cases r) (auto split: sum.splits if_splits)
  qed
qed

text \<open>When a connection ends in an orderly way, everything it made is gone: whatever calls it sent in
  whatever order, every link it owned or created is out of the table and no such link holds a lock of any
  resource, while the server invariant holds for the others.\<close>

theorem orderly_close_cleans_up:
  assumes "serve_connection envs writes ops rd sh conn out = Some (out', Inr (), sh')"
    and "vxi_inv sh" "list_all env_ok envs" "numbers_left (length envs) sh"
  shows "vxi_inv sh' \<and> link_numbers sh' \<subseteq> link_numbers sh - set (cs_owned conn) \<and>
    (\<forall>lid r. lid \<notin> link_numbers sh - set (cs_owned conn) \<longrightarrow> \<not> holds (sh_locks sh') r (vxi11_id lid))"
proof -
  have "vxi_inv sh'" "link_numbers sh' \<subseteq> foreign_links sh conn"
    using serve_connection_inv[OF assms] by auto
  then show ?thesis
    unfolding foreign_links_def vxi_inv_def by blast
qed

theorem orderly_close_cleans_up_witness:
  "\<exists>sh'. serve_connection [] 0 scripted_ops \<lparr>pending = [], broken = None\<rparr> demo_locked demo_conn [] = Some ([], Inr (), sh') \<and>
     link_numbers sh' \<subseteq> {} \<and> \<not> holds (sh_locks sh') (resource_key 18) (vxi11_id 1)"
proof -
  have run: "serve_connection [] 0 scripted_ops \<lparr>pending = [], broken = None\<rparr> demo_locked demo_conn [] =
      Some ([], Inr (), close_connection demo_locked demo_conn)"
    by (simp add: serve_connection.simps[of "[]"] read_record_def read_fragments.simps[of _ "[]"] read_exact_def end_error_def)
  have "numbers_left (length ([] :: call_env list)) demo_locked"
    "link_numbers demo_locked - set (cs_owned demo_conn) = {}"
    by (auto simp: numbers_left_def demo_locked_def demo_shared_def link_numbers_def demo_conn_def)
  with orderly_close_cleans_up[OF run demo_locked_inv] run show ?thesis
    by auto
qed

text \<open>C30. When a connection breaks instead (a reset, or a reply that cannot be written), the handler
  returns early and cleans up nothing: its links stay in the table for ever, and an exclusive lock one of
  them holds keeps every other session out of the instrument; the orderly end of the same connection
  would have let everybody in.\<close>

theorem broken_connection_leaks:
  assumes "vxi_inv sh" "link_for sh lid = Some l" "lid \<in> set (cs_owned conn)"
    and "holds_exclusive (sh_locks sh) (resource l) (holder l)"
    and "rd = \<lparr>pending = [], broken = Some (OtherIo e)\<rparr>" "eof = \<lparr>pending = [], broken = None\<rparr>"
  shows "\<exists>sh1 sh2. serve_connection envs writes ops rd sh conn out = Some (out, Inl (OtherIo e), sh1) \<and>
    link_for sh1 lid = Some l \<and> (\<forall>i. has_access (sh_locks sh1) (resource l) i \<longleftrightarrow> i = holder l) \<and>
    serve_connection envs writes ops eof sh conn out = Some (out, Inr (), sh2) \<and>
    link_for sh2 lid = None \<and> \<not> holds (sh_locks sh2) (resource l) (holder l)"
proof -
  have "read_record m rd = Inl (OtherIo e)" "read_record m eof = Inr (None, eof)" for m
    using assms(5,6) by (simp_all add: read_record_def read_fragments.simps[of m "[]"] read_exact_def end_error_def)
  then have run: "serve_connection envs writes ops rd sh conn out = Some (out, Inl (OtherIo e), sh)"
    "serve_connection envs writes ops eof sh conn out = Some (out, Inr (), close_connection sh conn)"
    by (simp_all add: serve_connection.simps[of envs])
  have closed: "vxi_inv (close_connection sh conn)" "lid \<notin> link_numbers (close_connection sh conn)"
    using close_connection_inv[OF assms(1), of conn] assms(3) by (auto simp: foreign_links_def)
  then have "link_for (close_connection sh conn) lid = None"
    using link_for_number[of "close_connection sh conn" lid] by (cases "link_for (close_connection sh conn) lid") auto
  moreover have "\<not> holds (sh_locks (close_connection sh conn)) (resource l) (holder l)"
    using closed vxi_inv_holder[OF assms(1,2)] by (auto simp: vxi_inv_def)
  moreover have "has_access (sh_locks sh) (resource l) i \<longleftrightarrow> i = holder l" for i
    using registry.excl_locks_out assms(1,4) by (auto simp: vxi_inv_def)
  ultimately show ?thesis
    using run assms(2) by blast
qed

theorem broken_connection_leaks_witness:
  "\<exists>sh1 sh2. serve_connection [] 0 scripted_ops \<lparr>pending = [], broken = Some (OtherIo 104)\<rparr> demo_locked demo_conn [] =
       Some ([], Inl (OtherIo 104), sh1) \<and>
     \<not> has_access (sh_locks sh1) (resource_key 18) (hislip_id 5) \<and>
     serve_connection [] 0 scripted_ops \<lparr>pending = [], broken = None\<rparr> demo_locked demo_conn [] =
       Some ([], Inr (), sh2) \<and> link_for sh2 1 = None"
proof -
  have l: "link_for demo_locked 1 = Some (new_link 1 (Pad 18) 18)" "resource (new_link 1 (Pad 18) 18) = resource_key 18"
    "holder (new_link 1 (Pad 18) 18) = vxi11_id 1" "(1 :: i32) \<in> set (cs_owned demo_conn)"
    by (simp_all add: demo_locked_def demo_shared_def link_for_def resource_def holder_def new_link_def demo_conn_def)
  have "holds_exclusive (sh_locks demo_locked) (resource_key 18) (vxi11_id 1)"
    unfolding demo_locked_def by code_simp
  with l show ?thesis
    using broken_connection_leaks[OF demo_locked_inv l(1,4) _ refl refl,
        where e = 104 and envs = "[]" and writes = 0 and ops = scripted_ops and out = "[]"] by auto
qed



end
