(* ===== verification/Adapter.thy ===== *)
theory Adapter
  imports Backend
begin

text \<open>
  What the three adapter drivers share: the shape of an asynchronous method that may fail (a function from
  the driver's state to a result and the next state, with \<^verbatim>\<open>?\<close> as sequencing), and the addressing state of
  the IEEE 488 bus that the command bytes they send bring about.
\<close>

section \<open>Fallible methods\<close>

type_synonym ('s, 'a) act = "'s \<Rightarrow> 'a io \<times> 's"

definition ret :: "'a \<Rightarrow> ('s, 'a) act" where
  "ret x s = (Inr x, s)"

definition bail :: "rstr \<Rightarrow> ('s, 'a) act" where
  "bail e s = (Inl e, s)"

text \<open>\<^verbatim>\<open>f(m.await?)\<close>: an error of \<open>m\<close> is the result.\<close>

definition andthen :: "('s, 'a) act \<Rightarrow> ('a \<Rightarrow> ('s, 'b) act) \<Rightarrow> ('s, 'b) act" where
  "andthen m f s = (case m s of (Inl e, s') \<Rightarrow> (Inl e, s') | (Inr x, s') \<Rightarrow> f x s')"

definition seq :: "('s, 'a) act \<Rightarrow> ('s, 'b) act \<Rightarrow> ('s, 'b) act" where
  "seq m k = andthen m (\<lambda>_. k)"

text \<open>\<^verbatim>\<open>match m.await\<close>: the outcome is a value.\<close>

definition attempt :: "('s, 'a) act \<Rightarrow> ('s, 'a io) act" where
  "attempt m s = (case m s of (r, s') \<Rightarrow> (Inr r, s'))"

definition from_result :: "'a io \<Rightarrow> ('s, 'a) act" where
  "from_result r s = (r, s)"

definition modify :: "('s \<Rightarrow> 's) \<Rightarrow> ('s, unit) act" where
  "modify f s = (Inr (), f s)"

definition asks :: "('s \<Rightarrow> 'a) \<Rightarrow> ('s, 'a) act" where
  "asks f s = (Inr (f s), s)"

text \<open>\<^verbatim>\<open>let _ = m.await\<close>, and clean-up after a failure that is then reported.\<close>

definition ignoring :: "('s, 'a) act \<Rightarrow> ('s, unit) act" where
  "ignoring m s = (Inr (), snd (m s))"

definition or_recover :: "('s, 'a) act \<Rightarrow> ('s, unit) act \<Rightarrow> ('s, 'a) act" where
  "or_recover m h s = (case m s of (Inl e, s') \<Rightarrow> (Inl e, snd (h s')) | (Inr x, s') \<Rightarrow> (Inr x, s'))"

text \<open>\<^verbatim>\<open>.context(c)\<close>: the alternate format of the error chain joins its parts with a colon.\<close>

definition with_context :: "rstr \<Rightarrow> ('s, 'a) act \<Rightarrow> ('s, 'a) act" where
  "with_context c m s = (case m s of (Inl e, s') \<Rightarrow> (Inl (c @ lit '': '' @ e), s') | (Inr x, s') \<Rightarrow> (Inr x, s'))"

text \<open>Lower-case hexadecimal as \<^verbatim>\<open>{:#x}\<close> prints it.\<close>

fun hex_digits :: "nat \<Rightarrow> rstr" where
  "hex_digits n = (if n < 16 then [hex_digit n] else hex_digits (n div 16) @ [hex_digit (n mod 16)])"

declare hex_digits.simps [simp del]

definition hex :: "nat \<Rightarrow> rstr" where
  "hex n = lit ''0x'' @ hex_digits n"

lemmas act_defs = ret_def bail_def andthen_def seq_def attempt_def from_result_def modify_def asks_def
  ignoring_def or_recover_def with_context_def

section \<open>What a method leaves alone\<close>

named_theorems keep \<open>methods that leave a projection of the state alone\<close>

definition keeps :: "('s \<Rightarrow> 'p) \<Rightarrow> ('s, 'a) act \<Rightarrow> bool" where
  "keeps p m \<longleftrightarrow> (\<forall>s. p (snd (m s)) = p s)"

lemma keepsD: "keeps p m \<Longrightarrow> p (snd (m s)) = p s"
  by (simp add: keeps_def)

lemma keeps_basic [keep]:
  "keeps p (ret x)" "keeps p (bail e)" "keeps p (from_result r)" "keeps p (asks f)"
  by (simp_all add: keeps_def act_defs)

lemma keeps_modify [keep]: "(\<And>s. p (f s) = p s) \<Longrightarrow> keeps p (modify f)"
  by (simp add: keeps_def act_defs)

lemma keeps_andthen [keep]: "keeps p m \<Longrightarrow> (\<And>x. keeps p (f x)) \<Longrightarrow> keeps p (andthen m f)"
  unfolding keeps_def andthen_def by (simp add: split: prod.split sum.split) (metis snd_conv)

lemma keeps_seq [keep]: "keeps p m \<Longrightarrow> keeps p k \<Longrightarrow> keeps p (seq m k)"
  by (simp add: seq_def keeps_andthen)

lemma keeps_attempt [keep]: "keeps p m \<Longrightarrow> keeps p (attempt m)"
  by (simp add: keeps_def attempt_def case_prod_beta)

lemma keeps_ignoring [keep]: "keeps p m \<Longrightarrow> keeps p (ignoring m)"
  by (simp add: keeps_def ignoring_def)

lemma keeps_or_recover [keep]: "keeps p m \<Longrightarrow> keeps p h \<Longrightarrow> keeps p (or_recover m h)"
  unfolding keeps_def or_recover_def by (simp add: split: prod.split sum.split) (metis snd_conv)

lemma keeps_with_context [keep]: "keeps p m \<Longrightarrow> keeps p (with_context c m)"
  unfolding keeps_def with_context_def by (simp add: split: prod.split sum.split) (metis snd_conv)

lemma keeps_if [keep]: "(c \<Longrightarrow> keeps p m) \<Longrightarrow> (\<not> c \<Longrightarrow> keeps p k) \<Longrightarrow> keeps p (if c then m else k)"
  by simp

lemmas keeps_struct = keeps_basic keeps_modify keeps_andthen keeps_seq keeps_attempt keeps_ignoring
  keeps_or_recover keeps_with_context keeps_if

section \<open>Traces\<close>

text \<open>A method adds to a log of the state: always a suffix, and if it succeeds exactly the entries
  given.\<close>

named_theorems sent \<open>what methods add to a log\<close>

definition sends :: "('s \<Rightarrow> 'p list) \<Rightarrow> ('s, 'a) act \<Rightarrow> 'p list \<Rightarrow> bool" where
  "sends lg m ps \<longleftrightarrow>
     (\<forall>s. \<exists>qs. lg (snd (m s)) = lg s @ qs \<and> (case fst (m s) of Inr _ \<Rightarrow> qs = ps | Inl _ \<Rightarrow> True))"

lemma sendsI:
  "(\<And>s r s'. m s = (r, s') \<Longrightarrow> \<exists>qs. lg s' = lg s @ qs \<and> (\<forall>x. r = Inr x \<longrightarrow> qs = ps)) \<Longrightarrow> sends lg m ps"
  unfolding sends_def
proof
  fix s
  assume *: "\<And>s r s'. m s = (r, s') \<Longrightarrow> \<exists>qs. lg s' = lg s @ qs \<and> (\<forall>x. r = Inr x \<longrightarrow> qs = ps)"
  show "\<exists>qs. lg (snd (m s)) = lg s @ qs \<and> (case fst (m s) of Inr _ \<Rightarrow> qs = ps | Inl _ \<Rightarrow> True)"
    using *[of s "fst (m s)" "snd (m s)"] by (auto split: sum.split)
qed

lemma sendsD: "sends lg m ps \<Longrightarrow> m s = (r, s') \<Longrightarrow> \<exists>qs. lg s' = lg s @ qs \<and> (\<forall>x. r = Inr x \<longrightarrow> qs = ps)"
proof -
  assume "sends lg m ps" and run: "m s = (r, s')"
  then obtain qs where "lg (snd (m s)) = lg s @ qs" "case fst (m s) of Inr _ \<Rightarrow> qs = ps | Inl _ \<Rightarrow> True"
    unfolding sends_def by blast
  with run show ?thesis by auto
qed

lemma sends_ok: "sends lg m ps \<Longrightarrow> m s = (Inr x, s') \<Longrightarrow> lg s' = lg s @ ps"
  using sendsD by fastforce

lemma sends_quiet: "keeps lg m \<Longrightarrow> sends lg m []"
  by (auto simp: sends_def keeps_def split: sum.split)

lemma sends_basic [sent]: "sends lg (ret x) []" "sends lg (from_result r) []" "sends lg (asks f) []"
  by (simp_all add: sends_quiet keep)

lemma sends_bail [sent]: "sends lg (bail e) ps"
  by (simp add: sends_def act_defs)

lemma sends_modify [sent]: "(\<And>s. lg (f s) = lg s) \<Longrightarrow> sends lg (modify f) []"
  by (simp add: sends_quiet keep)

lemma sends_andthen [sent]:
  assumes "sends lg m ps" "\<And>x. sends lg (f x) qs"
  shows "sends lg (andthen m f) (ps @ qs)"
proof (rule sendsI)
  fix s r s'
  assume run: "andthen m f s = (r, s')"
  obtain r1 s1 where m: "m s = (r1, s1)" by (cases "m s")
  obtain us where us: "lg s1 = lg s @ us" "\<forall>x. r1 = Inr x \<longrightarrow> us = ps"
    using sendsD[OF assms(1) m] by blast
  show "\<exists>vs. lg s' = lg s @ vs \<and> (\<forall>x. r = Inr x \<longrightarrow> vs = ps @ qs)"
  proof (cases r1)
    case (Inl e)
    then show ?thesis using run m us by (auto simp: andthen_def)
  next
    case (Inr x)
    then have "f x s1 = (r, s')" using run m by (simp add: andthen_def)
    from sendsD[OF assms(2) this] obtain vs where "lg s' = lg s1 @ vs" "\<forall>x. r = Inr x \<longrightarrow> vs = qs"
      by blast
    then show ?thesis using us Inr by auto
  qed
qed

lemma sends_seq [sent]: "sends lg m ps \<Longrightarrow> sends lg k qs \<Longrightarrow> sends lg (seq m k) (ps @ qs)"
  by (simp add: seq_def sends_andthen)

lemma sends_if [sent]: "(c \<Longrightarrow> sends lg m ps) \<Longrightarrow> (\<not> c \<Longrightarrow> sends lg k ps) \<Longrightarrow> sends lg (if c then m else k) ps"
  by simp

text \<open>The same with the concatenation left to be computed.\<close>

lemma sends_seq_eq: "sends lg m ps \<Longrightarrow> sends lg k qs \<Longrightarrow> ps @ qs = rs \<Longrightarrow> sends lg (seq m k) rs"
  using sends_seq by blast

lemma sends_andthen_eq:
  "sends lg m ps \<Longrightarrow> (\<And>x. sends lg (f x) qs) \<Longrightarrow> ps @ qs = rs \<Longrightarrow> sends lg (andthen m f) rs"
  using sends_andthen by blast

text \<open>A method that only adds to the log; cleaning up may add to what the operation has sent.\<close>

definition grows :: "('s \<Rightarrow> 'p list) \<Rightarrow> ('s, 'a) act \<Rightarrow> bool" where
  "grows lg m \<longleftrightarrow> (\<forall>s. \<exists>qs. lg (snd (m s)) = lg s @ qs)"

lemma growsD: "grows lg m \<Longrightarrow> \<exists>qs. lg (snd (m s)) = lg s @ qs"
  by (simp add: grows_def)

lemma grows_sends: "sends lg m ps \<Longrightarrow> grows lg m"
  by (auto simp: grows_def sends_def)

lemma grows_keeps: "keeps lg m \<Longrightarrow> grows lg m"
  by (simp add: grows_def keeps_def)

lemma grows_ignoring: "grows lg m \<Longrightarrow> grows lg (ignoring m)"
  by (simp add: grows_def ignoring_def)

lemma grows_andthen:
  assumes "grows lg m" "\<And>x. grows lg (f x)"
  shows "grows lg (andthen m f)"
  unfolding grows_def
proof
  fix s
  obtain r s1 where m: "m s = (r, s1)" by (cases "m s")
  obtain us where us: "lg s1 = lg s @ us" using growsD[OF assms(1), of s] m by auto
  show "\<exists>qs. lg (snd (andthen m f s)) = lg s @ qs"
  proof (cases r)
    case (Inr x)
    then show ?thesis using growsD[OF assms(2), of x s1] m us by (auto simp: andthen_def)
  qed (simp add: andthen_def m us)
qed

lemma grows_seq: "grows lg m \<Longrightarrow> grows lg k \<Longrightarrow> grows lg (seq m k)"
  by (simp add: seq_def grows_andthen)

lemma sends_or_recover [sent]:
  assumes "sends lg m ps" "grows lg h"
  shows "sends lg (or_recover m h) ps"
proof (rule sendsI)
  fix s r s'
  assume run: "or_recover m h s = (r, s')"
  obtain r1 s1 where m: "m s = (r1, s1)" by (cases "m s")
  obtain us where us: "lg s1 = lg s @ us" "\<forall>x. r1 = Inr x \<longrightarrow> us = ps"
    using sendsD[OF assms(1) m] by blast
  obtain vs where "lg (snd (h s1)) = lg s1 @ vs"
    using growsD[OF assms(2)] by blast
  then show "\<exists>ws. lg s' = lg s @ ws \<and> (\<forall>x. r = Inr x \<longrightarrow> ws = ps)"
    using run m us by (cases r1) (auto simp: or_recover_def)
qed

section \<open>The addressing state of the bus\<close>

text \<open>The listeners, the talker and the serial-poll state that command bytes bring about (IEEE 488.1):
  every device accepts every byte sent with attention asserted.\<close>

record bus488 =
  listeners :: "u8 set"
  talker :: "u8 option"
  polling :: bool

definition command_byte :: "u8 \<Rightarrow> bus488 \<Rightarrow> bus488" where
  "command_byte c b =
     (if c = 0x3f then b\<lparr>listeners := {}\<rparr>
      else if c = 0x5f then b\<lparr>talker := None\<rparr>
      else if 0x20 \<le> c \<and> c \<le> 0x3e then b\<lparr>listeners := insert (c AND 0x1f) (listeners b)\<rparr>
      else if 0x40 \<le> c \<and> c \<le> 0x5e then b\<lparr>talker := Some (c AND 0x1f)\<rparr>
      else if c = 0x18 then b\<lparr>polling := True\<rparr>
      else if c = 0x19 then b\<lparr>polling := False\<rparr>
      else b)"

definition command_bytes :: "bytes \<Rightarrow> bus488 \<Rightarrow> bus488" where
  "command_bytes cs = fold command_byte cs"

lemma command_bytes_simps [simp]:
  "command_bytes [] b = b" "command_bytes (c # cs) b = command_bytes cs (command_byte c b)"
  "command_bytes (cs @ ds) b = command_bytes ds (command_bytes cs b)"
  by (simp_all add: command_bytes_def)


lemma address_commands:
  assumes "pad \<le> (30 :: u8)"
  shows "command_byte (0x20 OR (pad AND 0x1f)) b = b\<lparr>listeners := insert pad (listeners b)\<rparr>"
    "command_byte (0x40 OR (pad AND 0x1f)) b = b\<lparr>talker := Some pad\<rparr>"
proof -
  have "pad \<in> set (map of_nat [0..<31])"
    using assms by (auto simp: image_iff word_le_nat_alt intro!: bexI[of _ "unat pad"])
  moreover have "\<forall>pad :: u8 \<in> set (map of_nat [0..<31]). let l = 0x20 OR (pad AND 0x1f); t = 0x40 OR (pad AND 0x1f)
      in l \<noteq> 0x3f \<and> l \<noteq> 0x5f \<and> 0x20 \<le> l \<and> l \<le> 0x3e \<and> l AND 0x1f = pad \<and>
         t \<noteq> 0x3f \<and> t \<noteq> 0x5f \<and> \<not> t \<le> 0x3e \<and> 0x40 \<le> t \<and> t \<le> 0x5e \<and> t AND 0x1f = pad"
    by code_simp
  ultimately show "command_byte (0x20 OR (pad AND 0x1f)) b = b\<lparr>listeners := insert pad (listeners b)\<rparr>"
    "command_byte (0x40 OR (pad AND 0x1f)) b = b\<lparr>talker := Some pad\<rparr>"
    by (auto simp: command_byte_def Let_def)
qed

text \<open>UNL, UNT, SPE, SPD, SDC, GET and GTL.\<close>

lemma fixed_bytes [simp]:
  "command_byte 0x3f b = b\<lparr>listeners := {}\<rparr>" "command_byte 0x5f b = b\<lparr>talker := None\<rparr>"
  "command_byte 0x18 b = b\<lparr>polling := True\<rparr>" "command_byte 0x19 b = b\<lparr>polling := False\<rparr>"
  "command_byte 0x04 b = b" "command_byte 0x08 b = b" "command_byte 0x01 b = b"
  by (simp_all add: command_byte_def word_le_nat_alt)

end
