(* ===== verification/Agilent_Protocol.thy ===== *)
theory Agilent_Protocol
  imports Adapter
begin

text \<open>
  The bulk protocol of the Agilent 82357A/B adapters, \<^verbatim>\<open>src/src/backend/agilent_82357/protocol.rs\<close>: packet
  layouts, their decoders and the register and command constants the driver uses.
\<close>

section \<open>Constants\<close>

abbreviation CMD_WRITE :: u8 where "CMD_WRITE \<equiv> 0x01"
abbreviation CMD_READ :: u8 where "CMD_READ \<equiv> 0x03"
abbreviation CMD_WR_REGS :: u8 where "CMD_WR_REGS \<equiv> 0x04"
abbreviation CMD_RD_REGS :: u8 where "CMD_RD_REGS \<equiv> 0x05"

abbreviation WF_SEND_EOI :: u8 where "WF_SEND_EOI \<equiv> 0x01"
abbreviation WF_NO_FAST_TALKER_FIRST_BYTE :: u8 where "WF_NO_FAST_TALKER_FIRST_BYTE \<equiv> 0x02"
abbreviation WF_NO_FAST_TALKER :: u8 where "WF_NO_FAST_TALKER \<equiv> 0x04"
abbreviation WF_NO_ADDRESS :: u8 where "WF_NO_ADDRESS \<equiv> 0x08"
abbreviation WF_ATN :: u8 where "WF_ATN \<equiv> 0x10"

abbreviation RF_END_ON_EOI :: u8 where "RF_END_ON_EOI \<equiv> 0x01"
abbreviation RF_NO_ADDRESS :: u8 where "RF_NO_ADDRESS \<equiv> 0x02"
abbreviation RF_END_ON_EOS_CHAR :: u8 where "RF_END_ON_EOS_CHAR \<equiv> 0x04"

abbreviation ATRF_EOI :: u8 where "ATRF_EOI \<equiv> 0x01"
abbreviation ATRF_ATN :: u8 where "ATRF_ATN \<equiv> 0x02"
abbreviation ATRF_IFC :: u8 where "ATRF_IFC \<equiv> 0x04"
abbreviation ATRF_EOS :: u8 where "ATRF_EOS \<equiv> 0x08"
abbreviation ATRF_ABORT :: u8 where "ATRF_ABORT \<equiv> 0x10"
abbreviation ATRF_COUNT :: u8 where "ATRF_COUNT \<equiv> 0x20"
abbreviation ATRF_DEAD_BUS :: u8 where "ATRF_DEAD_BUS \<equiv> 0x40"
abbreviation ATRF_UNADDRESSED :: u8 where "ATRF_UNADDRESSED \<equiv> 0x80"

abbreviation XFER_ABORT :: u16 where "XFER_ABORT \<equiv> 0xa0"
abbreviation XFER_STATUS :: u16 where "XFER_STATUS \<equiv> 0xb0"
abbreviation CONTROL_REQUEST :: u8 where "CONTROL_REQUEST \<equiv> 0x04"
abbreviation UGP_SUCCESS :: u8 where "UGP_SUCCESS \<equiv> 0x00"
abbreviation UGP_ERR_FLUSHING :: u8 where "UGP_ERR_FLUSHING \<equiv> 0x06"
abbreviation XA_FLUSH :: u16 where "XA_FLUSH \<equiv> 0x01"

abbreviation REG_HW_CONTROL :: u8 where "REG_HW_CONTROL \<equiv> 0x0a"
abbreviation REG_LED_CONTROL :: u8 where "REG_LED_CONTROL \<equiv> 0x0b"
abbreviation REG_RESET_TO_POWERUP :: u8 where "REG_RESET_TO_POWERUP \<equiv> 0x0c"
abbreviation REG_PROTOCOL_CONTROL :: u8 where "REG_PROTOCOL_CONTROL \<equiv> 0x0d"
abbreviation REG_FAST_TALKER_T1 :: u8 where "REG_FAST_TALKER_T1 \<equiv> 0x0e"
abbreviation NOT_TI_RESET :: u8 where "NOT_TI_RESET \<equiv> 0x01"
abbreviation SYSTEM_CONTROLLER :: u8 where "SYSTEM_CONTROLLER \<equiv> 0x02"
abbreviation NOT_PARALLEL_POLL :: u8 where "NOT_PARALLEL_POLL \<equiv> 0x04"
abbreviation FIRMWARE_LED_CONTROL :: u8 where "FIRMWARE_LED_CONTROL \<equiv> 0x01"
abbreviation FAIL_LED_ON :: u8 where "FAIL_LED_ON \<equiv> 0x20"
abbreviation WRITE_COMPLETE_INTERRUPT_EN :: u8 where "WRITE_COMPLETE_INTERRUPT_EN \<equiv> 0x01"
abbreviation RESET_SPACEBALL :: u8 where "RESET_SPACEBALL \<equiv> 0x01"
abbreviation TMS_BSR :: u8 where "TMS_BSR \<equiv> 0x03"
abbreviation TMS_IMR0 :: u8 where "TMS_IMR0 \<equiv> 0x00"
abbreviation TMS_IMR1 :: u8 where "TMS_IMR1 \<equiv> 0x01"
abbreviation TMS_AUXCR :: u8 where "TMS_AUXCR \<equiv> 0x03"
abbreviation TMS_ADR :: u8 where "TMS_ADR \<equiv> 0x04"
abbreviation TMS_SPMR :: u8 where "TMS_SPMR \<equiv> 0x05"
abbreviation TMS_PPR :: u8 where "TMS_PPR \<equiv> 0x06"
abbreviation AUX_CS :: u8 where "AUX_CS \<equiv> 0x80"
abbreviation AUX_CHIP_RESET :: u8 where "AUX_CHIP_RESET \<equiv> 0x00"
abbreviation AUX_INVAL :: u8 where "AUX_INVAL \<equiv> 0x01"
abbreviation AUX_HLDA :: u8 where "AUX_HLDA \<equiv> 0x03"
abbreviation AUX_HLDE :: u8 where "AUX_HLDE \<equiv> 0x04"
abbreviation AUX_NBAF :: u8 where "AUX_NBAF \<equiv> 0x05"
abbreviation AUX_LON :: u8 where "AUX_LON \<equiv> 0x09"
abbreviation AUX_VAL :: u8 where "AUX_VAL \<equiv> 0x81"
abbreviation AUX_TON :: u8 where "AUX_TON \<equiv> 0x0a"
abbreviation AUX_GTS :: u8 where "AUX_GTS \<equiv> 0x0b"
abbreviation AUX_TCA :: u8 where "AUX_TCA \<equiv> 0x0c"
abbreviation AUX_SIC :: u8 where "AUX_SIC \<equiv> 0x0f"
abbreviation AUX_SRE :: u8 where "AUX_SRE \<equiv> 0x10"
abbreviation AUX_RQC :: u8 where "AUX_RQC \<equiv> 0x11"
abbreviation AUX_STDL :: u8 where "AUX_STDL \<equiv> 0x15"
abbreviation AUX_VSTDL :: u8 where "AUX_VSTDL \<equiv> 0x17"
abbreviation AUX_RSV2 :: u8 where "AUX_RSV2 \<equiv> 0x18"
abbreviation AUX_RPP :: u8 where "AUX_RPP \<equiv> 0x0e"
abbreviation HR_BOIE :: u8 where "HR_BOIE \<equiv> 0x10"
abbreviation HR_BIIE :: u8 where "HR_BIIE \<equiv> 0x20"
abbreviation HR_SRQIE :: u8 where "HR_SRQIE \<equiv> 0x02"
abbreviation ADDRESS_MASK :: u8 where "ADDRESS_MASK \<equiv> 0x1f"
abbreviation GPIB_UNL :: u8 where "GPIB_UNL \<equiv> 0x3f"
abbreviation GPIB_UNT :: u8 where "GPIB_UNT \<equiv> 0x5f"
abbreviation GPIB_GTL :: u8 where "GPIB_GTL \<equiv> 0x01"
abbreviation GPIB_LLO :: u8 where "GPIB_LLO \<equiv> 0x11"
abbreviation GPIB_SDC :: u8 where "GPIB_SDC \<equiv> 0x04"
abbreviation GPIB_GET :: u8 where "GPIB_GET \<equiv> 0x08"
abbreviation GPIB_SPE :: u8 where "GPIB_SPE \<equiv> 0x18"
abbreviation GPIB_SPD :: u8 where "GPIB_SPD \<equiv> 0x19"
abbreviation STATUS_DATA_LEN :: nat where "STATUS_DATA_LEN \<equiv> 8"

definition listen_address :: "u8 \<Rightarrow> u8" where
  "listen_address pad = 0x20 OR (pad AND ADDRESS_MASK)"

definition talk_address :: "u8 \<Rightarrow> u8" where
  "talk_address pad = 0x40 OR (pad AND ADDRESS_MASK)"

section \<open>Errors\<close>

datatype protocol_error =
    DeviceError u8 u8
  | BadResponse u8 u8
  | ShortResponse nat nat

fun show_protocol_error :: "protocol_error \<Rightarrow> rstr" where
  "show_protocol_error (DeviceError cmd code) =
     lit ''device returned error code '' @ hex (unat code) @ lit '' for command '' @ hex (unat cmd)"
| "show_protocol_error (BadResponse expected got) =
     lit ''unexpected response byte '' @ hex (unat got) @ lit '', expected '' @ hex (unat expected)"
| "show_protocol_error (ShortResponse need got) =
     lit ''response too short: got '' @ dec got @ lit '' bytes, need at least '' @ dec need"

section \<open>Registers\<close>

record register_pairlet =
  rp_address :: u8
  rp_value :: u8

definition encode_wr_regs :: "register_pairlet list \<Rightarrow> bytes" where
  "encode_wr_regs regs =
     [CMD_WR_REGS, of_nat (length regs)] @ concat (map (\<lambda>r. [rp_address r, rp_value r]) regs)"

definition decode_wr_regs_response :: "bytes \<Rightarrow> (protocol_error, unit) result" where
  "decode_wr_regs_response resp =
     (if length resp < 2 then Inl (ShortResponse 2 (length resp))
      else let expected = NOT CMD_WR_REGS
           in if resp ! 0 \<noteq> expected then Inl (BadResponse expected (resp ! 0))
              else if resp ! 1 \<noteq> UGP_SUCCESS then Inl (DeviceError CMD_WR_REGS (resp ! 1))
              else Inr ())"

definition encode_rd_regs :: "bytes \<Rightarrow> bytes" where
  "encode_rd_regs addrs = [CMD_RD_REGS, of_nat (length addrs)] @ addrs"

text \<open>The registers written through the mutable slice are the result.\<close>

definition decode_rd_regs_response ::
    "bytes \<Rightarrow> register_pairlet list \<Rightarrow> (protocol_error, register_pairlet list) result" where
  "decode_rd_regs_response resp regs =
     (let need = 2 + length regs
      in if length resp < need then Inl (ShortResponse need (length resp))
         else let expected = NOT CMD_RD_REGS
              in if resp ! 0 \<noteq> expected then Inl (BadResponse expected (resp ! 0))
                 else if resp ! 1 \<noteq> UGP_SUCCESS then Inl (DeviceError CMD_RD_REGS (resp ! 1))
                 else Inr (map (\<lambda>(i, r). r\<lparr>rp_value := resp ! (2 + i)\<rparr>) (enumerate 0 regs)))"

section \<open>Data\<close>

definition build_write_packet :: "u8 \<Rightarrow> bytes \<Rightarrow> bytes" where
  "build_write_packet flags d = [CMD_WRITE, 0, 0, flags] @ le32 (of_nat (length d)) @ d"

definition encode_gpib_write :: "bytes \<Rightarrow> bool \<Rightarrow> bytes" where
  "encode_gpib_write d send_eoi =
     build_write_packet
       (WF_NO_ADDRESS OR WF_NO_FAST_TALKER_FIRST_BYTE OR (if send_eoi then WF_SEND_EOI else 0)) d"

definition encode_gpib_command :: "bytes \<Rightarrow> bytes" where
  "encode_gpib_command cmd = build_write_packet (WF_NO_ADDRESS OR WF_ATN OR WF_NO_FAST_TALKER) cmd"

definition encode_gpib_read :: "u32 \<Rightarrow> bool \<Rightarrow> u8 \<Rightarrow> bool \<Rightarrow> bytes" where
  "encode_gpib_read max_len eos_enabled eos_char end_on_eoi =
     (let flags = RF_NO_ADDRESS OR (if end_on_eoi then RF_END_ON_EOI else 0) OR
                  (if eos_enabled \<and> end_on_eoi then RF_END_ON_EOS_CHAR else 0)
      in [CMD_READ, 0, 0, flags] @ le32 max_len @ [eos_char])"

definition decode_gpib_read_response :: "bytes \<Rightarrow> bytes \<times> bool \<times> u8" where
  "decode_gpib_read_response raw =
     (if raw = [] then ([], False, 0)
      else let trailing = raw ! (length raw - 1)
           in (take (length raw - 1) raw, has_flag trailing (ATRF_EOI OR ATRF_EOS), trailing))"

definition describe_read_termination :: "u8 \<Rightarrow> rstr" where
  "describe_read_termination trailing =
     (let names = [(ATRF_EOI, lit ''EOI''), (ATRF_ATN, lit ''ATN''), (ATRF_IFC, lit ''IFC''),
                   (ATRF_EOS, lit ''EOS''), (ATRF_ABORT, lit ''ABORT''), (ATRF_COUNT, lit ''COUNT''),
                   (ATRF_DEAD_BUS, lit ''DEAD_BUS''), (ATRF_UNADDRESSED, lit ''UNADDRESSED'')];
          on = map snd (filter (\<lambda>(b, _). has_flag trailing b) names);
          shown = lit ''0x'' @ [hex_digit (unat trailing div 16), hex_digit (unat trailing mod 16)]
      in shown @ lit '' ('' @
         (if on = [] then lit ''none'' else concat (hd on # map (\<lambda>n. lit ''|'' @ n) (tl on))) @ lit '')'')"

section \<open>Laws\<close>

text \<open>What the adapter takes out of a write packet: its flags and the bytes for the bus.\<close>

definition write_packet :: "bytes \<Rightarrow> (u8 \<times> bytes) option" where
  "write_packet p =
     (if length p < 8 \<or> p ! 0 \<noteq> CMD_WRITE then None
      else Some (p ! 3, take (unat (of_le (take 4 (drop 4 p)) :: u32)) (drop 8 p)))"

lemma write_packet_build:
  "length d < 2 ^ 32 \<Longrightarrow> write_packet (build_write_packet flags d) = Some (flags, d)"
proof -
  assume "length d < 2 ^ 32"
  then have "unat (of_nat (length d) :: u32) = length d"
    using of_nat_unat_len[of "length d", where 'a = 32] by simp
  moreover have "take 4 (le32 (of_nat (length d) :: u32) @ d) = le32 (of_nat (length d))"
    "drop 4 (le32 (of_nat (length d) :: u32) @ d) = d"
    by simp_all
  ultimately show ?thesis
    by (simp add: write_packet_def build_write_packet_def del: drop_append take_append)
qed

lemma decode_gpib_read_response_append:
  "decode_gpib_read_response (d @ [f]) = (d, has_flag f (ATRF_EOI OR ATRF_EOS), f)"
  by (simp add: decode_gpib_read_response_def)

lemma decode_rd_regs_ok:
  "length vs = length regs \<Longrightarrow>
   decode_rd_regs_response (NOT CMD_RD_REGS # UGP_SUCCESS # vs) regs =
     Inr (map2 (\<lambda>r v. r\<lparr>rp_value := v\<rparr>) regs vs)"
  by (auto simp: decode_rd_regs_response_def Let_def intro!: nth_equalityI simp: nth_enumerate_eq)

end
