(* ===== verification/Agilent.thy ===== *)
theory Agilent
  imports Agilent_Protocol
begin

text \<open>
  The Agilent 82357 controller of \<^verbatim>\<open>src/src/backend/agilent_82357/gpib.rs\<close>, over an arbitrary transport: the
  trait \<^verbatim>\<open>Transport\<close> is a record of functions. A read that is raced against a timer takes the milliseconds
  and gives \<^const>\<open>None\<close> when the timer wins; \<open>tr_resume\<close> polls that same read again.
\<close>

record 'u transport =
  tr_write_bulk :: "bytes \<Rightarrow> ('u, unit) act"
  tr_read_bulk :: "nat \<Rightarrow> nat \<Rightarrow> 'u \<Rightarrow> bytes io option \<times> 'u"
  tr_resume :: "nat \<Rightarrow> 'u \<Rightarrow> bytes io option \<times> 'u"
  tr_control_in :: "u8 \<Rightarrow> u16 \<Rightarrow> u16 \<Rightarrow> nat \<Rightarrow> ('u, bytes) act"
  tr_await_write_complete :: "('u, unit) act"
  tr_drain_write_complete :: "'u \<Rightarrow> 'u"
  tr_drain_bulk_in :: "'u \<Rightarrow> 'u"
  tr_can_srq :: "'u \<Rightarrow> bool"

record 'u controller =
  ct_transport :: 'u
  ct_timeout_ms :: u32
  ct_eos_char :: u8
  ct_eos_enabled :: bool
  ct_hw_control_bits :: u8
  ct_listen_only :: bool
  ct_my_pad :: u8

definition new_controller :: "'u \<Rightarrow> u32 \<Rightarrow> 'u controller" where
  "new_controller transport timeout_ms =
     \<lparr>ct_transport = transport, ct_timeout_ms = timeout_ms, ct_eos_char = 10, ct_eos_enabled = False,
      ct_hw_control_bits = 0, ct_listen_only = False, ct_my_pad = 0\<rparr>"

text \<open>A method of the transport as a method of the controller.\<close>

definition usb :: "('u \<Rightarrow> 'a \<times> 'u) \<Rightarrow> 'u controller \<Rightarrow> 'a \<times> 'u controller" where
  "usb f c = (case f (ct_transport c) of (r, u) \<Rightarrow> (r, c\<lparr>ct_transport := u\<rparr>))"

definition usb_do :: "('u \<Rightarrow> 'u) \<Rightarrow> ('u controller, unit) act" where
  "usb_do f = modify (\<lambda>c. c\<lparr>ct_transport := f (ct_transport c)\<rparr>)"

text \<open>A read that must answer within the timeout of the controller.\<close>

definition read_within :: "'u transport \<Rightarrow> nat \<Rightarrow> rstr \<Rightarrow> ('u controller, bytes) act" where
  "read_within tr n complaint c =
     (case usb (tr_read_bulk tr n (unat (ct_timeout_ms c))) c of
        (None, c') \<Rightarrow> (Inl complaint, c')
      | (Some r, c') \<Rightarrow> (r, c'))"

definition protocol_result :: "(protocol_error, 'a) result \<Rightarrow> ('s, 'a) act" where
  "protocol_result r = from_result (map_err show_protocol_error r)"

section \<open>Registers\<close>

definition write_registers :: "'u transport \<Rightarrow> register_pairlet list \<Rightarrow> ('u controller, unit) act" where
  "write_registers tr regs =
     seq (usb (tr_write_bulk tr (encode_wr_regs regs)))
       (andthen (read_within tr 0x20 (lit ''WR_REGS bulk-in timed out''))
         (\<lambda>resp. protocol_result (decode_wr_regs_response resp)))"

definition read_registers :: "'u transport \<Rightarrow> register_pairlet list \<Rightarrow> ('u controller, register_pairlet list) act" where
  "read_registers tr regs =
     seq (usb (tr_write_bulk tr (encode_rd_regs (map rp_address regs))))
       (andthen (read_within tr 0x20 (lit ''RD_REGS bulk-in timed out''))
         (\<lambda>resp. protocol_result (decode_rd_regs_response resp regs)))"

definition reg :: "u8 \<Rightarrow> u8 \<Rightarrow> register_pairlet" where
  "reg a v = \<lparr>rp_address = a, rp_value = v\<rparr>"

definition ifc :: "'u transport \<Rightarrow> ('u controller, unit) act" where
  "ifc tr = seq (write_registers tr [reg TMS_AUXCR (AUX_SIC OR AUX_CS)]) (write_registers tr [reg TMS_AUXCR AUX_SIC])"

definition ren :: "'u transport \<Rightarrow> bool \<Rightarrow> ('u controller, unit) act" where
  "ren tr enable = write_registers tr [reg TMS_AUXCR (if enable then AUX_SRE OR AUX_CS else AUX_SRE)]"

definition request_system_control :: "'u transport \<Rightarrow> ('u controller, unit) act" where
  "request_system_control tr =
     seq (modify (\<lambda>c. c\<lparr>ct_hw_control_bits := ct_hw_control_bits c OR SYSTEM_CONTROLLER\<rparr>))
       (\<lambda>c. write_registers tr [reg TMS_AUXCR AUX_RQC, reg REG_HW_CONTROL (ct_hw_control_bits c)] c)"

definition t1_bits :: u8 where
  "t1_bits = of_nat (max 0x11 (min 0x72 (800 div 21)))"

definition init_batch1 :: "register_pairlet list" where
  "init_batch1 = [reg REG_LED_CONTROL FAIL_LED_ON, reg REG_RESET_TO_POWERUP RESET_SPACEBALL]"

definition init_batch2 :: "u8 \<Rightarrow> register_pairlet list" where
  "init_batch2 my_pad =
     map (reg TMS_AUXCR) [AUX_NBAF, AUX_HLDE, AUX_TON, AUX_LON, AUX_RSV2, AUX_INVAL, AUX_RPP, AUX_STDL, AUX_VSTDL] @
     [reg REG_FAST_TALKER_T1 t1_bits, reg TMS_ADR (my_pad AND ADDRESS_MASK), reg TMS_PPR 0, reg TMS_SPMR 0,
      reg REG_PROTOCOL_CONTROL WRITE_COMPLETE_INTERRUPT_EN, reg TMS_IMR0 (HR_BOIE OR HR_BIIE),
      reg TMS_IMR1 HR_SRQIE, reg TMS_AUXCR AUX_CHIP_RESET, reg REG_LED_CONTROL FIRMWARE_LED_CONTROL]"

definition init :: "'u transport \<Rightarrow> u8 \<Rightarrow> ('u controller, unit) act" where
  "init tr my_pad =
     seq (modify (\<lambda>c. c\<lparr>ct_my_pad := my_pad\<rparr>)) (seq (usb_do (tr_drain_bulk_in tr))
     (seq (write_registers tr init_batch1) (seq (write_registers tr (init_batch2 my_pad))
     (andthen (read_registers tr [reg REG_HW_CONTROL 0]) (\<lambda>hw.
     seq (modify (\<lambda>c. c\<lparr>ct_hw_control_bits :=
            (rp_value (hd hw) AND NOT 0x07) OR NOT_TI_RESET OR NOT_PARALLEL_POLL\<rparr>))
     (seq (request_system_control tr) (seq (ifc tr) (ren tr True))))))))"

section \<open>Recovery\<close>

definition abort :: "'u transport \<Rightarrow> bool \<Rightarrow> ('u controller, unit) act" where
  "abort tr flush =
     andthen (usb (tr_control_in tr CONTROL_REQUEST XFER_ABORT (if flush then XA_FLUSH else 0) 2)) (\<lambda>resp.
       if length resp < 2 then bail (lit ''XFER_ABORT response too short: '' @ dec (length resp) @ lit '' bytes'')
       else let expected = NOT (ucast XFER_ABORT) :: u8
            in if resp ! 0 \<noteq> expected then
                 bail (lit ''XFER_ABORT bad response byte: got '' @ hex (unat (resp ! 0)) @ lit '', expected '' @
                       hex (unat expected))
               else if resp ! 1 = UGP_SUCCESS then ret ()
               else if resp ! 1 = UGP_ERR_FLUSHING \<and> flush then ret ()
               else bail (lit ''XFER_ABORT returned error '' @ hex (unat (resp ! 1))))"

definition get_xfer_status :: "'u transport \<Rightarrow> ('u controller, u32) act" where
  "get_xfer_status tr =
     andthen (usb (tr_control_in tr CONTROL_REQUEST XFER_STATUS 0 STATUS_DATA_LEN)) (\<lambda>resp.
       if length resp < 6 then bail (lit ''XFER_STATUS response too short: '' @ dec (length resp) @ lit '' bytes'')
       else ret (of_le (take 4 (drop 2 resp))))"

definition discard_read :: "'u transport \<Rightarrow> nat \<Rightarrow> nat \<Rightarrow> ('u controller, unit) act" where
  "discard_read tr n ms c = (Inr (), snd (usb (tr_read_bulk tr n ms) c))"

definition recover_from_stall :: "'u transport \<Rightarrow> ('u controller, unit) act" where
  "recover_from_stall tr =
     seq (ignoring (abort tr True)) (seq (discard_read tr 0x20 100) (seq (ignoring (abort tr False))
     (seq (usb_do (tr_drain_write_complete tr)) (seq (ignoring (ifc tr)) (usb_do (tr_drain_write_complete tr))))))"

text \<open>The cleanup without an interface clear, for a capture and for entering listen-only mode.\<close>

definition abandon_transfer :: "'u transport \<Rightarrow> ('u controller, unit) act" where
  "abandon_transfer tr =
     seq (ignoring (abort tr True)) (seq (ignoring (abort tr False))
       (seq (usb_do (tr_drain_write_complete tr)) (usb_do (tr_drain_bulk_in tr))))"

section \<open>Bytes to the bus\<close>

definition wait_write_or_timeout :: "'u transport \<Rightarrow> ('u controller, unit) act" where
  "wait_write_or_timeout tr = usb (tr_await_write_complete tr)"

definition try_command_bytes :: "'u transport \<Rightarrow> bytes \<Rightarrow> ('u controller, unit) act" where
  "try_command_bytes tr cmd =
     seq (usb (tr_write_bulk tr (encode_gpib_command cmd)))
       (seq (wait_write_or_timeout tr) (seq (get_xfer_status tr) (ret ())))"

text \<open>The common tail of the two senders: both waits recover the bus before they report.\<close>

definition completed_write :: "'u transport \<Rightarrow> bytes \<Rightarrow> ('u controller, unit) act" where
  "completed_write tr pkt =
     seq (usb (tr_write_bulk tr pkt))
       (seq (or_recover (wait_write_or_timeout tr) (recover_from_stall tr))
       (seq (or_recover (get_xfer_status tr) (recover_from_stall tr)) (ret ())))"

definition send_command_bytes :: "'u transport \<Rightarrow> bytes \<Rightarrow> ('u controller, unit) act" where
  "send_command_bytes tr cmd = completed_write tr (encode_gpib_command cmd)"

definition send_data_bytes :: "'u transport \<Rightarrow> bytes \<Rightarrow> bool \<Rightarrow> ('u controller, unit) act" where
  "send_data_bytes tr d send_eoi = completed_write tr (encode_gpib_write d send_eoi)"

definition device_clear :: "'u transport \<Rightarrow> u8 \<Rightarrow> ('u controller, unit) act" where
  "device_clear tr pad = send_command_bytes tr [GPIB_UNL, listen_address pad, GPIB_SDC]"

definition go_to_remote :: "'u transport \<Rightarrow> u8 \<Rightarrow> ('u controller, unit) act" where
  "go_to_remote tr pad = seq (ren tr True) (send_command_bytes tr [GPIB_UNL, listen_address pad])"

definition go_to_local :: "'u transport \<Rightarrow> u8 \<Rightarrow> ('u controller, unit) act" where
  "go_to_local tr pad = send_command_bytes tr [GPIB_UNL, listen_address pad, GPIB_GTL]"

definition local_lockout :: "'u transport \<Rightarrow> ('u controller, unit) act" where
  "local_lockout tr = send_command_bytes tr [GPIB_LLO]"

definition trigger :: "'u transport \<Rightarrow> u8 \<Rightarrow> ('u controller, unit) act" where
  "trigger tr pad = send_command_bytes tr [GPIB_UNL, listen_address pad, GPIB_GET]"

abbreviation listen_only_refusal :: rstr where
  "listen_only_refusal \<equiv> lit ''cannot write while in listen-only mode (++lon 0 to leave)''"

definition write_to :: "'u transport \<Rightarrow> u8 \<Rightarrow> bytes \<Rightarrow> bool \<Rightarrow> ('u controller, unit) act" where
  "write_to tr pad d send_eoi =
     andthen (asks ct_listen_only) (\<lambda>lon.
       if lon then bail listen_only_refusal
       else seq (send_command_bytes tr [GPIB_UNL, talk_address 0, listen_address pad]) (send_data_bytes tr d send_eoi))"

section \<open>Reading\<close>

text \<open>The raced read of \<^verbatim>\<open>read_data_body\<close>: its outcome, and whether the capture salvage ran.\<close>

definition raced_read :: "'u transport \<Rightarrow> nat \<Rightarrow> 'u controller \<Rightarrow> bytes io option \<times> 'u controller" where
  "raced_read tr max_len c =
     (case usb (tr_read_bulk tr (max_len + 1) (unat (ct_timeout_ms c))) c of
        (Some r, c1) \<Rightarrow> (Some r, c1)
      | (None, c1) \<Rightarrow>
          if ct_listen_only c then
            let c2 = snd (usb (tr_control_in tr CONTROL_REQUEST XFER_ABORT XA_FLUSH 2) c1);
                (r, c3) = usb (tr_resume tr 1000) c2
            in (r, snd (ignoring (abort tr False) c3))
          else (None, c1))"

definition read_data_body :: "'u transport \<Rightarrow> nat \<Rightarrow> ('u controller, bytes \<times> bool) act" where
  "read_data_body tr max_len =
     seq (write_registers tr [reg TMS_AUXCR AUX_GTS])
     (andthen (asks (\<lambda>c. encode_gpib_read (of_nat max_len) (ct_eos_enabled c) (ct_eos_char c) True)) (\<lambda>pkt.
     seq (usb (tr_write_bulk tr pkt)) (\<lambda>c.
       case raced_read tr max_len c of
         (Some (Inr raw), c1) \<Rightarrow>
           (case decode_gpib_read_response raw of (d, eom, _) \<Rightarrow> (Inr (d, eom), c1))
       | (Some (Inl e), c1) \<Rightarrow> (Inl e, snd (recover_from_stall tr c1))
       | (None, c1) \<Rightarrow>
           seq (if ct_listen_only c1 then abandon_transfer tr else recover_from_stall tr)
             (andthen (asks ct_timeout_ms) (\<lambda>ms.
               bail (lit ''gpib read timed out after '' @ dec (unat ms) @ lit '' ms''))) c1)))"

definition read_from :: "'u transport \<Rightarrow> u8 \<Rightarrow> nat \<Rightarrow> ('u controller, bytes \<times> bool) act" where
  "read_from tr pad max_len =
     andthen (asks ct_listen_only) (\<lambda>lon.
       seq (if lon then ret () else send_command_bytes tr [GPIB_UNL, listen_address 0, talk_address pad])
         (read_data_body tr max_len))"

definition poll_outcome :: "'u transport \<Rightarrow> u8 \<Rightarrow> ('u controller, bytes) act" where
  "poll_outcome tr pad c =
     (case usb (tr_read_bulk tr 2 (unat (ct_timeout_ms c))) c of
        (Some (Inr raw), c1) \<Rightarrow> (Inr (fst (decode_gpib_read_response raw)), c1)
      | (Some (Inl e), c1) \<Rightarrow> (Inl e, c1)
      | (None, c1) \<Rightarrow>
          (Inl (lit ''serial poll of pad '' @ dec (unat pad) @ lit '' timed out after '' @
                dec (unat (ct_timeout_ms c1)) @ lit '' ms''), c1))"

definition serial_poll :: "'u transport \<Rightarrow> u8 \<Rightarrow> ('u controller, u8) act" where
  "serial_poll tr pad =
     seq (send_command_bytes tr [GPIB_UNL, GPIB_SPE, talk_address pad, listen_address 0])
     (seq (write_registers tr [reg TMS_AUXCR AUX_GTS])
     (seq (usb (tr_write_bulk tr (encode_gpib_read 1 False 0 True)))
     (andthen (attempt (poll_outcome tr pad)) (\<lambda>outcome.
       case outcome of
         Inr d \<Rightarrow>
           seq (send_command_bytes tr [GPIB_SPD, GPIB_UNT])
             (case d of
                [] \<Rightarrow> bail (lit ''serial poll of pad '' @ dec (unat pad) @ lit '' returned no status byte'')
              | stb # _ \<Rightarrow> ret stb)
       | Inl e \<Rightarrow>
           seq (recover_from_stall tr) (seq (ignoring (send_command_bytes tr [GPIB_SPD, GPIB_UNT])) (bail e))))))"

section \<open>Lines and modes\<close>

definition read_bus_lines :: "'u transport \<Rightarrow> ('u controller, bus_lines) act" where
  "read_bus_lines tr = andthen (read_registers tr [reg TMS_BSR 0]) (\<lambda>regs. ret (from_bsr (rp_value (hd regs))))"

definition srq_asserted :: "'u transport \<Rightarrow> ('u controller, bool) act" where
  "srq_asserted tr = andthen (read_bus_lines tr) (\<lambda>l. ret (bl_srq l))"

definition listen_only_regs :: "bool \<Rightarrow> register_pairlet list" where
  "listen_only_regs enable =
     map (reg TMS_AUXCR)
       (if enable then [AUX_LON OR AUX_CS, AUX_HLDA OR AUX_CS, AUX_VAL, AUX_GTS] else [AUX_LON, AUX_HLDA])"

definition set_listen_only :: "'u transport \<Rightarrow> bool \<Rightarrow> ('u controller, unit) act" where
  "set_listen_only tr enable =
     seq (if enable then
            seq (ignoring (try_command_bytes tr [GPIB_UNL, listen_address 0])) (abandon_transfer tr)
          else ret ())
     (seq (write_registers tr (listen_only_regs enable)) (modify (\<lambda>c. c\<lparr>ct_listen_only := enable\<rparr>)))"

definition send_data_unaddressed :: "'u transport \<Rightarrow> bytes \<Rightarrow> bool \<Rightarrow> ('u controller, unit) act" where
  "send_data_unaddressed tr d send_eoi =
     andthen (asks ct_listen_only) (\<lambda>lon. if lon then bail listen_only_refusal else send_data_bytes tr d send_eoi)"

definition set_controller_pad :: "'u transport \<Rightarrow> u8 \<Rightarrow> ('u controller, unit) act" where
  "set_controller_pad tr pad =
     (if pad > 30 then bail (lit ''controller address '' @ dec (unat pad) @ lit '' is out of range (0-30)'')
      else seq (with_context (lit ''82357 set controller address'')
                 (write_registers tr [reg TMS_ADR (pad AND ADDRESS_MASK)]))
             (modify (\<lambda>c. c\<lparr>ct_my_pad := pad\<rparr>)))"

definition set_atn :: "'u transport \<Rightarrow> bool \<Rightarrow> ('u controller, unit) act" where
  "set_atn tr assert_it =
     with_context (lit ''82357 ATN control'')
       (write_registers tr [reg TMS_AUXCR (if assert_it then AUX_TCA else AUX_GTS)])"

section \<open>The backend\<close>

definition agilent_ops :: "'u transport \<Rightarrow> 'u controller backend_ops" where
  "agilent_ops tr =
     \<lparr>op_write = write_to tr, op_read = read_from tr, op_device_clear = device_clear tr, op_trigger = trigger tr,
      op_ifc = ifc tr, op_ren = ren tr, op_go_to_remote = go_to_remote tr, op_go_to_local = go_to_local tr,
      op_local_lockout = local_lockout tr, op_serial_poll = serial_poll tr, op_srq_asserted = srq_asserted tr,
      op_bus_lines = read_bus_lines tr, op_set_listen_only = set_listen_only tr, op_listen_only = ct_listen_only,
      op_set_device_mode = default_set_device_mode (lit ''agilent-82357''), op_device_address = default_device_address,
      op_can_subscribe_srq = (\<lambda>c. tr_can_srq tr (ct_transport c)), op_send_bus_command = send_command_bytes tr,
      op_set_atn = set_atn tr, op_controller_pad = ct_my_pad, op_set_controller_pad = set_controller_pad tr,
      op_send_data_unaddressed = send_data_unaddressed tr, op_read_unaddressed = read_data_body tr,
      op_set_eos = (\<lambda>ch on c. c\<lparr>ct_eos_char := ch, ct_eos_enabled := on\<rparr>),
      op_eos = (\<lambda>c. (ct_eos_char c, ct_eos_enabled c)),
      op_set_timeout = (\<lambda>ms c. c\<lparr>ct_timeout_ms := ms\<rparr>), op_read_slice_ms = default_read_slice_ms\<rparr>"

end
