(* ===== verification/Agilent_Laws.thy ===== *)
theory Agilent_Laws
  imports Agilent Scripted_Bus
begin

text \<open>
  What the Agilent driver promises: the settings survive every operation, the bytes on the USB pipe address
  exactly the instrument that was meant, and a serial poll leaves the bus out of serial-poll mode.
\<close>

section \<open>Settings\<close>

text \<open>A projection of the controller that does not see the transport.\<close>

definition blind :: "('u controller \<Rightarrow> 'p) \<Rightarrow> bool" where
  "blind p \<longleftrightarrow> (\<forall>c u. p (c\<lparr>ct_transport := u\<rparr>) = p c)"

lemma usb_snd: "blind p \<Longrightarrow> p (snd (usb f c)) = p c"
  by (simp add: usb_def blind_def split: prod.split)

lemma keeps_usb [keep]: "blind p \<Longrightarrow> keeps p (usb f)"
  by (simp add: keeps_def usb_snd)

lemma usb_blind: "blind p \<Longrightarrow> usb f c = (r, c') \<Longrightarrow> p c' = p c"
  by (auto simp: usb_def blind_def split: prod.splits)

lemma keeps_usb_do [keep]: "blind p \<Longrightarrow> keeps p (usb_do f)"
  unfolding usb_do_def by (intro keep) (simp add: blind_def)

lemma keeps_read_within [keep]: "blind p \<Longrightarrow> keeps p (read_within tr n e)"
  by (auto simp: keeps_def read_within_def split: prod.split option.split dest: usb_blind)

lemma keeps_discard_read [keep]: "blind p \<Longrightarrow> keeps p (discard_read tr n ms)"
  by (simp add: keeps_def discard_read_def usb_snd)

lemma keeps_protocol_result [keep]: "keeps p (protocol_result r)"
  unfolding protocol_result_def by (intro keep)

lemma keeps_write_registers [keep]: "blind p \<Longrightarrow> keeps p (write_registers tr rs)"
  unfolding write_registers_def by (intro keep)

lemma keeps_ifc [keep]: "blind p \<Longrightarrow> keeps p (ifc tr)"
  unfolding ifc_def by (intro keep)

lemma keeps_abort [keep]: "blind p \<Longrightarrow> keeps p (abort tr f)"
  unfolding abort_def Let_def by (intro keep)

lemma keeps_get_xfer_status [keep]: "blind p \<Longrightarrow> keeps p (get_xfer_status tr)"
  unfolding get_xfer_status_def by (intro keep)

lemma keeps_recover [keep]: "blind p \<Longrightarrow> keeps p (recover_from_stall tr)"
  unfolding recover_from_stall_def by (intro keep)

lemma keeps_abandon [keep]: "blind p \<Longrightarrow> keeps p (abandon_transfer tr)"
  unfolding abandon_transfer_def by (intro keep)

lemma keeps_completed_write [keep]: "blind p \<Longrightarrow> keeps p (completed_write tr pkt)"
  unfolding completed_write_def wait_write_or_timeout_def by (intro keep)

lemma keeps_write_to [keep]: "blind p \<Longrightarrow> keeps p (write_to tr pad d e)"
  unfolding write_to_def send_command_bytes_def send_data_bytes_def by (intro keep)

lemma keeps_send_data_unaddressed [keep]: "blind p \<Longrightarrow> keeps p (send_data_unaddressed tr d e)"
  unfolding send_data_unaddressed_def send_data_bytes_def by (intro keep)

lemma raced_read_snd: "blind p \<Longrightarrow> p (snd (raced_read tr n c)) = p c"
  using keepsD[OF keeps_ignoring[OF keeps_abort[of p tr False]]]
  by (simp add: raced_read_def Let_def case_prod_beta usb_snd split: option.split)

lemma keeps_read_data_body [keep]:
  assumes "blind p"
  shows "keeps p (read_data_body tr n)"
proof -
  have "keeps p (\<lambda>c. case raced_read tr n c of
         (Some (Inr raw), c1) \<Rightarrow> (case decode_gpib_read_response raw of (d, eom, _) \<Rightarrow> (Inr (d, eom), c1))
       | (Some (Inl e), c1) \<Rightarrow> (Inl e, snd (recover_from_stall tr c1))
       | (None, c1) \<Rightarrow>
           seq (if ct_listen_only c1 then abandon_transfer tr else recover_from_stall tr)
             (andthen (asks ct_timeout_ms) (\<lambda>ms.
               bail (lit ''gpib read timed out after '' @ dec (unat ms) @ lit '' ms''))) c1)" (is "keeps p ?f")
    unfolding keeps_def
  proof
    fix c
    obtain r c1 where r: "raced_read tr n c = (r, c1)" by (cases "raced_read tr n c")
    have same: "p c1 = p c"
      using raced_read_snd[OF assms, of tr n c] r by simp
    note rec = keepsD[OF keeps_recover[OF assms, of tr]]
    have "keeps p (seq (if ct_listen_only c1 then abandon_transfer tr else recover_from_stall tr)
             (andthen (asks ct_timeout_ms) (\<lambda>ms.
               bail (lit ''gpib read timed out after '' @ dec (unat ms) @ lit '' ms''))) :: ('a controller, bytes \<times> bool) act)"
      by (intro keep assms)
    from keepsD[OF this] show "p (snd (?f c)) = p c"
      using same by (auto simp: r rec split: option.split sum.split prod.split)
  qed
  then show ?thesis
    unfolding read_data_body_def by (intro keep assms)
qed

lemma keeps_read_from [keep]: "blind p \<Longrightarrow> keeps p (read_from tr pad n)"
  unfolding read_from_def send_command_bytes_def by (intro keep)

interpretation agilent: gpib_backend "agilent_ops tr" ct_timeout_ms for tr
proof (unfold_locales, goal_cases)
  have eos: "blind (\<lambda>c. (ct_eos_char c, ct_eos_enabled c))" and ms: "blind ct_timeout_ms"
    by (simp_all add: blind_def)
  note laws = keepsD[OF keeps_write_to] keepsD[OF keeps_send_data_unaddressed] keepsD[OF keeps_read_from]
    keepsD[OF keeps_read_data_body]
  {
    case (5 pad d eoi b)
    then show ?case using laws(1)[OF eos] by (simp add: agilent_ops_def)
  next
    case (6 d eoi b)
    then show ?case using laws(2)[OF eos] by (simp add: agilent_ops_def)
  next
    case (7 pad n b)
    then show ?case using laws(3)[OF eos] by (simp add: agilent_ops_def)
  next
    case (8 n b)
    then show ?case using laws(4)[OF eos] by (simp add: agilent_ops_def)
  next
    case (9 pad n b)
    then show ?case using laws(3)[OF ms] by (simp add: agilent_ops_def)
  next
    case (10 n b)
    then show ?case using laws(4)[OF ms] by (simp add: agilent_ops_def)
  next
    case (11 pad d eoi b)
    then show ?case using laws(1)[OF ms] by (simp add: agilent_ops_def)
  next
    case (12 d eoi b)
    then show ?case using laws(2)[OF ms] by (simp add: agilent_ops_def)
  }
qed (simp_all add: agilent_ops_def)

section \<open>Packets\<close>

text \<open>A log of the packets the transport took for the adapter.\<close>

definition records_packets :: "'u transport \<Rightarrow> ('u \<Rightarrow> bytes list) \<Rightarrow> bool" where
  "records_packets tr lg \<longleftrightarrow>
     (\<forall>d u. lg (snd (tr_write_bulk tr d u)) = lg u @ (if isl (fst (tr_write_bulk tr d u)) then [] else [d])) \<and>
     (\<forall>n t u. lg (snd (tr_read_bulk tr n t u)) = lg u) \<and> (\<forall>t u. lg (snd (tr_resume tr t u)) = lg u) \<and>
     (\<forall>a b c n u. lg (snd (tr_control_in tr a b c n u)) = lg u) \<and>
     (\<forall>u. lg (snd (tr_await_write_complete tr u)) = lg u) \<and>
     (\<forall>u. lg (tr_drain_write_complete tr u) = lg u) \<and> (\<forall>u. lg (tr_drain_bulk_in tr u) = lg u)"

definition packets :: "('u \<Rightarrow> bytes list) \<Rightarrow> 'u controller \<Rightarrow> bytes list" where
  "packets lg c = lg (ct_transport c)"

lemma packets_usb: "packets lg (snd (usb f c)) = lg (snd (f (ct_transport c)))"
  by (simp add: packets_def usb_def split: prod.split)

lemma sends_bulk [sent]:
  assumes "records_packets tr lg"
  shows "sends (packets lg) (usb (tr_write_bulk tr d)) [d]"
proof (rule sendsI)
  fix c r c'
  assume "usb (tr_write_bulk tr d) c = (r, c')"
  then have "packets lg c' = lg (snd (tr_write_bulk tr d (ct_transport c)))" "fst (tr_write_bulk tr d (ct_transport c)) = r"
    by (auto simp: packets_def usb_def split: prod.splits)
  then show "\<exists>qs. packets lg c' = packets lg c @ qs \<and> (\<forall>x. r = Inr x \<longrightarrow> qs = [d])"
    using assms by (cases r) (simp_all add: records_packets_def packets_def)
qed

lemma quiet_usb:
  assumes "records_packets tr lg"
  shows "packets lg (snd (usb (tr_read_bulk tr n t) c)) = packets lg c"
    "packets lg (snd (usb (tr_resume tr t) c)) = packets lg c"
    "packets lg (snd (usb (tr_control_in tr a b i n) c)) = packets lg c"
    "packets lg (snd (usb (tr_await_write_complete tr) c)) = packets lg c"
  using assms by (simp_all add: packets_usb records_packets_def) (simp_all add: packets_def)

lemma keeps_quiet:
  assumes "records_packets tr lg"
  shows "keeps (packets lg) (usb (tr_control_in tr a b i n))" "keeps (packets lg) (usb (tr_await_write_complete tr))"
    "keeps (packets lg) (usb_do (tr_drain_write_complete tr))" "keeps (packets lg) (usb_do (tr_drain_bulk_in tr))"
    "keeps (packets lg) (discard_read tr n t)" "keeps (packets lg) (read_within tr n e)"
  using assms quiet_usb[OF assms]
  by (auto simp: keeps_def discard_read_def usb_do_def modify_def read_within_def records_packets_def packets_def
      case_prod_beta split: option.split)

lemma sends_write_registers [sent]:
  "records_packets tr lg \<Longrightarrow> sends (packets lg) (write_registers tr rs) [encode_wr_regs rs]"
  unfolding write_registers_def protocol_result_def
  by (rule sends_seq_eq[OF sends_bulk sends_quiet]) (auto intro: keeps_struct keeps_quiet)

lemma keeps_get_xfer_status_packets: "records_packets tr lg \<Longrightarrow> keeps (packets lg) (get_xfer_status tr)"
  unfolding get_xfer_status_def by (intro keeps_struct keeps_quiet)

lemma keeps_abort_packets: "records_packets tr lg \<Longrightarrow> keeps (packets lg) (abort tr f)"
  unfolding abort_def Let_def by (intro keeps_struct keeps_quiet)

lemma sends_ifc [sent]:
  "records_packets tr lg \<Longrightarrow>
   sends (packets lg) (ifc tr) [encode_wr_regs [reg TMS_AUXCR (AUX_SIC OR AUX_CS)], encode_wr_regs [reg TMS_AUXCR AUX_SIC]]"
  unfolding ifc_def by (rule sends_seq_eq[OF sends_write_registers sends_write_registers]) auto

lemma grows_recover: "records_packets tr lg \<Longrightarrow> grows (packets lg) (recover_from_stall tr)"
  unfolding recover_from_stall_def
  by (intro grows_seq grows_ignoring grows_sends[OF sends_ifc] grows_keeps keeps_abort_packets keeps_quiet)

lemma sends_completed_write [sent]:
  assumes "records_packets tr lg"
  shows "sends (packets lg) (completed_write tr pkt) [pkt]"
  unfolding completed_write_def wait_write_or_timeout_def
  by (rule sends_seq_eq[OF sends_bulk[OF assms]
        sends_seq_eq[OF sends_or_recover sends_seq_eq[OF sends_or_recover sends_basic(1)]]])
    (auto intro: sends_quiet keeps_quiet keeps_get_xfer_status_packets grows_recover assms)

lemma sends_commands [sent]:
  "records_packets tr lg \<Longrightarrow> sends (packets lg) (send_command_bytes tr cs) [encode_gpib_command cs]"
  by (simp add: send_command_bytes_def sends_completed_write)

lemma sends_write_to:
  assumes "records_packets tr lg" "write_to tr pad d e c = (Inr (), c')"
  shows "packets lg c' = packets lg c @ [encode_gpib_command [GPIB_UNL, talk_address 0, listen_address pad],
    encode_gpib_write d e]"
proof -
  have "sends (packets lg) (seq (send_command_bytes tr [GPIB_UNL, talk_address 0, listen_address pad])
      (send_data_bytes tr d e)) [encode_gpib_command [GPIB_UNL, talk_address 0, listen_address pad], encode_gpib_write d e]"
    unfolding send_data_bytes_def
    by (rule sends_seq_eq[OF sends_commands[OF assms(1)] sends_completed_write[OF assms(1)]]) simp
  moreover have "\<not> ct_listen_only c"
    using assms(2) by (auto simp: write_to_def act_defs)
  ultimately show ?thesis
    using assms(2) sends_ok by (fastforce simp: write_to_def andthen_def asks_def)
qed

lemma sends_read_data_body:
  assumes log: "records_packets tr lg" and run: "read_data_body tr n c = (Inr x, c')"
  shows "packets lg c' = packets lg c @ [encode_wr_regs [reg TMS_AUXCR AUX_GTS],
    encode_gpib_read (of_nat n) (ct_eos_enabled c) (ct_eos_char c) True]"
proof -
  obtain c1 where gts: "write_registers tr [reg TMS_AUXCR AUX_GTS] c = (Inr (), c1)"
    using run by (auto simp: read_data_body_def seq_def andthen_def split: prod.splits sum.splits)
  have same: "ct_eos_enabled c1 = ct_eos_enabled c" "ct_eos_char c1 = ct_eos_char c"
    using keepsD[OF keeps_write_registers, of ct_eos_enabled tr _ c] keepsD[OF keeps_write_registers, of ct_eos_char tr _ c] gts
    by (simp_all add: blind_def) (metis snd_conv)+
  let ?pkt = "encode_gpib_read (of_nat n) (ct_eos_enabled c) (ct_eos_char c) True"
  obtain c2 where bulk: "usb (tr_write_bulk tr ?pkt) c1 = (Inr (), c2)"
    using run gts same by (auto simp: read_data_body_def seq_def andthen_def asks_def split: prod.splits sum.splits)
  have "packets lg (snd (raced_read tr n c2)) = packets lg c2"
    using keepsD[OF keeps_ignoring[OF keeps_abort_packets[OF log]]] quiet_usb[OF log]
    by (simp add: raced_read_def Let_def case_prod_beta split: option.split)
  moreover have "c' = snd (raced_read tr n c2)"
    using run gts same bulk by (auto simp: read_data_body_def seq_def andthen_def asks_def bail_def
        split: prod.splits sum.splits option.splits)
  ultimately show ?thesis
    using sends_ok[OF sends_write_registers[OF log] gts] sends_ok[OF sends_bulk[OF log] bulk] by simp
qed

lemma sends_serial_poll:
  assumes log: "records_packets tr lg" and run: "serial_poll tr pad c = (Inr stb, c')"
  shows "packets lg c' = packets lg c @ [encode_gpib_command [GPIB_UNL, GPIB_SPE, talk_address pad, listen_address 0],
    encode_wr_regs [reg TMS_AUXCR AUX_GTS], encode_gpib_read 1 False 0 True, encode_gpib_command [GPIB_SPD, GPIB_UNT]]"
proof -
  have poll: "keeps (packets lg) (poll_outcome tr pad)"
    using quiet_usb[OF log] by (simp add: keeps_def poll_outcome_def case_prod_beta split: option.split sum.split)
  have tail: "sends (packets lg) (case outcome of
         Inr d \<Rightarrow> seq (send_command_bytes tr [GPIB_SPD, GPIB_UNT])
             (case d of [] \<Rightarrow> bail (lit ''serial poll of pad '' @ dec (unat pad) @ lit '' returned no status byte'')
              | stb # _ \<Rightarrow> ret stb)
       | Inl e \<Rightarrow> seq (recover_from_stall tr) (seq (ignoring (send_command_bytes tr [GPIB_SPD, GPIB_UNT])) (bail e)))
      [encode_gpib_command [GPIB_SPD, GPIB_UNT]]" for outcome :: "bytes io"
  proof (cases outcome)
    case (Inl e)
    have "fst (seq (recover_from_stall tr) (seq (ignoring (send_command_bytes tr [GPIB_SPD, GPIB_UNT])) (bail e :: ('a controller, u8) act)) s) = Inl e" for s
      by (simp add: seq_def andthen_def ignoring_def bail_def recover_from_stall_def discard_read_def usb_do_def modify_def)
    moreover have "grows (packets lg) (seq (recover_from_stall tr) (seq (ignoring (send_command_bytes tr [GPIB_SPD, GPIB_UNT])) (bail e :: ('a controller, u8) act)))"
      by (intro grows_seq grows_recover grows_ignoring grows_sends[OF sends_commands] grows_keeps keeps_struct log)
    ultimately show ?thesis
      using Inl by (simp add: sends_def grows_def)
  next
    case (Inr d)
    then show ?thesis
      by (cases d) (auto intro!: sends_seq_eq[OF sends_commands[OF log]] sends_bail sends_basic)
  qed
  have "sends (packets lg) (serial_poll tr pad) [encode_gpib_command [GPIB_UNL, GPIB_SPE, talk_address pad, listen_address 0],
    encode_wr_regs [reg TMS_AUXCR AUX_GTS], encode_gpib_read 1 False 0 True, encode_gpib_command [GPIB_SPD, GPIB_UNT]]"
    unfolding serial_poll_def
    by (rule sends_seq_eq[OF sends_commands[OF log] sends_seq_eq[OF sends_write_registers[OF log]
          sends_seq_eq[OF sends_bulk[OF log] sends_andthen_eq[OF sends_quiet tail]]]])
      (auto intro: keeps_attempt poll)
  from sends_ok[OF this run] show ?thesis .
qed

section \<open>The bus behind the packets\<close>

text \<open>What a packet does to the addressing state: bytes sent with attention asserted are commands, the
  register write that asserts interface clear unaddresses everybody, everything else leaves it alone.\<close>

definition bus_effect :: "bytes \<Rightarrow> bus488 \<Rightarrow> bus488" where
  "bus_effect p b =
     (if p = encode_wr_regs [reg TMS_AUXCR (AUX_SIC OR AUX_CS)] then b\<lparr>listeners := {}, talker := None\<rparr>
      else case write_packet p of
             Some (flags, d) \<Rightarrow> if has_flag flags WF_ATN then command_bytes d b else b
           | None \<Rightarrow> b)"

definition bus_after :: "bytes list \<Rightarrow> bus488 \<Rightarrow> bus488" where
  "bus_after ps = fold bus_effect ps"

lemma bus_after_simps [simp]:
  "bus_after [] b = b" "bus_after (p # ps) b = bus_after ps (bus_effect p b)"
  "bus_after (ps @ qs) b = bus_after qs (bus_after ps b)"
  by (simp_all add: bus_after_def)

lemma bus_effect_command [simp]:
  assumes "length cs < 2 ^ 32"
  shows "bus_effect (encode_gpib_command cs) b = command_bytes cs b"
proof -
  have "encode_gpib_command cs \<noteq> encode_wr_regs rs" for rs
    by (simp add: encode_gpib_command_def build_write_packet_def encode_wr_regs_def)
  moreover have "has_flag (WF_NO_ADDRESS OR WF_ATN OR WF_NO_FAST_TALKER) WF_ATN"
    by code_simp
  ultimately show ?thesis
    using assms by (simp add: bus_effect_def encode_gpib_command_def write_packet_build)
qed

lemma bus_effect_data [simp]:
  assumes "length d < 2 ^ 32"
  shows "bus_effect (encode_gpib_write d e) b = b"
proof -
  have "encode_gpib_write d e \<noteq> encode_wr_regs rs" for rs
    by (simp add: encode_gpib_write_def build_write_packet_def encode_wr_regs_def)
  moreover have "\<not> has_flag (WF_NO_ADDRESS OR WF_NO_FAST_TALKER_FIRST_BYTE OR (if e then WF_SEND_EOI else 0)) WF_ATN"
    by (cases e; simp; code_simp)
  ultimately show ?thesis
    using assms by (simp add: bus_effect_def encode_gpib_write_def write_packet_build)
qed

lemma bus_effect_read [simp]: "bus_effect (encode_gpib_read n on ch True) b = b"
  by (simp add: bus_effect_def encode_gpib_read_def encode_wr_regs_def write_packet_def
      Let_def)

lemma bus_effect_gts [simp]: "bus_effect (encode_wr_regs [reg TMS_AUXCR AUX_GTS]) b = b"
  by (simp add: bus_effect_def encode_wr_regs_def write_packet_def reg_def)

lemma address_bytes:
  assumes "pad \<le> (30 :: u8)"
  shows "command_byte (listen_address pad) b = b\<lparr>listeners := insert pad (listeners b)\<rparr>"
    "command_byte (talk_address pad) b = b\<lparr>talker := Some pad\<rparr>"
  using address_commands[OF assms] by (simp_all add: listen_address_def talk_address_def)

lemma zero_address: "(0 :: u8) \<le> 30"
  by simp

lemma failed_registers_packets:
  assumes "records_packets tr lg" "write_registers tr rs c = (r, c')"
  shows "packets lg c' = packets lg c \<or> packets lg c' = packets lg c @ [encode_wr_regs rs]"
proof -
  obtain x c1 where bulk: "usb (tr_write_bulk tr (encode_wr_regs rs)) c = (x, c1)"
    by (cases "usb (tr_write_bulk tr (encode_wr_regs rs)) c")
  have "packets lg c1 = packets lg c \<or> packets lg c1 = packets lg c @ [encode_wr_regs rs]"
    using assms(1) packets_usb[of lg "tr_write_bulk tr (encode_wr_regs rs)" c] bulk
    by (auto simp: records_packets_def packets_def)
  moreover let ?tail = "andthen (read_within tr 0x20 (lit ''WR_REGS bulk-in timed out''))
         (\<lambda>resp. protocol_result (decode_wr_regs_response resp))"
  have "keeps (packets lg) ?tail"
    by (intro keeps_struct keeps_quiet[OF assms(1)] keeps_protocol_result)
  then have "packets lg (snd (?tail c1)) = packets lg c1"
    by (rule keepsD)
  moreover have "c' = c1 \<or> c' = snd (?tail c1)"
    using assms(2) bulk by (cases x) (auto simp: write_registers_def seq_def andthen_def[of "usb _"])
  ultimately show ?thesis
    by auto
qed

section \<open>A transport that answers from a script\<close>

text \<open>The transport the unit tests of the driver run on: it records what it is given and answers from two
  queues.  Its reads are ready at once, so a resumed read does not occur.\<close>

record mock_transport =
  mt_written :: "bytes list"
  mt_responses :: "bytes list"
  mt_control :: "bytes list"

definition mock_transport :: "mock_transport transport" where
  "mock_transport =
     \<lparr>tr_write_bulk = \<lambda>d u. (Inr (), u\<lparr>mt_written := mt_written u @ [d]\<rparr>),
      tr_read_bulk = \<lambda>n ms u. (case mt_responses u of
          [] \<Rightarrow> (Some (Inl (lit ''mock: read_bulk called with no response queued'')), u)
        | r # rs \<Rightarrow> (Some (Inr r), u\<lparr>mt_responses := rs\<rparr>)),
      tr_resume = \<lambda>ms u. (None, u),
      tr_control_in = \<lambda>req val idx n u. (case mt_control u of
          [] \<Rightarrow> (Inl (lit ''mock: control_in called with no response queued''), u)
        | r # rs \<Rightarrow> (Inr r, u\<lparr>mt_control := rs\<rparr>)),
      tr_await_write_complete = \<lambda>u. (Inr (), u), tr_drain_write_complete = \<lambda>u. u,
      tr_drain_bulk_in = \<lambda>u. u, tr_can_srq = \<lambda>u. False\<rparr>"

lemma mock_records: "records_packets mock_transport mt_written"
  by (simp add: records_packets_def mock_transport_def split: list.split)

abbreviation wr_regs_ok :: bytes where
  "wr_regs_ok \<equiv> [NOT CMD_WR_REGS, 0, 0, 0, 0, 0, 0, 0]"

definition mock_controller :: "bytes list \<Rightarrow> bytes list \<Rightarrow> mock_transport controller" where
  "mock_controller responses control =
     new_controller \<lparr>mt_written = [], mt_responses = responses, mt_control = control\<rparr> 3000"

section \<open>Properties\<close>



text \<open>C33. A serial poll that fails half way can leave the bus in serial-poll mode: when the adapter has sent
  the serial-poll enable but refuses the register write that releases attention, the operation returns the
  error at once, without the serial-poll disable and untalk that its documentation promises on every path.\<close>

theorem serial_poll_can_leave_polling:
  assumes "records_packets tr lg" "pad \<le> 30"
    and "send_command_bytes tr [GPIB_UNL, GPIB_SPE, talk_address pad, listen_address 0] c = (Inr (), c1)"
    and "write_registers tr [reg TMS_AUXCR AUX_GTS] c1 = (Inl e, c2)"
  shows "serial_poll tr pad c = (Inl e, c2) \<and>
    (\<exists>ps rest. packets lg c2 = packets lg c @ ps @ rest \<and> (rest = [] \<or> rest = [encode_wr_regs [reg TMS_AUXCR AUX_GTS]]) \<and>
      polling (bus_after (ps @ rest) b) \<and> talker (bus_after (ps @ rest) b) = Some pad)"
proof
  show "serial_poll tr pad c = (Inl e, c2)"
    using assms(3,4) by (simp add: serial_poll_def seq_def andthen_def)
  let ?ps = "[encode_gpib_command [GPIB_UNL, GPIB_SPE, talk_address pad, listen_address 0]]"
  have "packets lg c1 = packets lg c @ ?ps"
    by (rule sends_ok[OF sends_commands[OF assms(1)] assms(3)])
  then have "packets lg c2 = packets lg c @ ?ps @ [] \<or>
      packets lg c2 = packets lg c @ ?ps @ [encode_wr_regs [reg TMS_AUXCR AUX_GTS]]"
    using failed_registers_packets[OF assms(1,4)] by auto
  moreover have "polling (bus_after ?ps b)" "talker (bus_after ?ps b) = Some pad"
    by (simp_all add: address_bytes assms(2) zero_address)
  ultimately show "\<exists>ps rest. packets lg c2 = packets lg c @ ps @ rest \<and>
      (rest = [] \<or> rest = [encode_wr_regs [reg TMS_AUXCR AUX_GTS]]) \<and>
      polling (bus_after (ps @ rest) b) \<and> talker (bus_after (ps @ rest) b) = Some pad"
  proof (elim disjE, goal_cases)
    case 1
    then show ?case by (intro exI[of _ ?ps] exI[of _ "[]"]) simp
  next
    case 2
    then show ?case by (intro exI[of _ ?ps] exI[of _ "[encode_wr_regs [reg TMS_AUXCR AUX_GTS]]"]) simp
  qed
qed

theorem serial_poll_can_leave_polling_witness:
  "\<exists>e c2. serial_poll mock_transport 5 (mock_controller [] [replicate 8 0]) = (Inl e, c2) \<and>
     (\<exists>ps rest. packets mt_written c2 = ps @ rest \<and>
        polling (bus_after (ps @ rest) \<lparr>listeners = {}, talker = None, polling = False\<rparr>))"
proof -
  let ?c = "mock_controller [] [replicate 8 0]"
  let ?r = "send_command_bytes mock_transport [GPIB_UNL, GPIB_SPE, talk_address 5, listen_address 0] ?c"
  let ?w = "write_registers mock_transport [reg TMS_AUXCR AUX_GTS] (snd ?r)"
  have "fst ?r = Inr ()" "isl (fst ?w)"
    by code_simp+
  then obtain c1 e c2 where "?r = (Inr (), c1)" "?w = (Inl e, c2)" "snd ?r = c1"
    by (metis isl_def prod.collapse)
  moreover have "packets mt_written ?c = []"
    by (simp add: packets_def mock_controller_def new_controller_def)
  ultimately show ?thesis
    using serial_poll_can_leave_polling[OF mock_records, of 5 ?c c1 e c2] by fastforce
qed

end
