(* ===== verification/Hislip_Messages.thy ===== *)
theory Hislip_Messages
  imports Rust_Str Byte_Stream
begin

text \<open>
  The message layer of the HiSLIP front-end: \<^verbatim>\<open>src/src/hislip/errors.rs\<close>, \<^verbatim>\<open>src/src/hislip/protocol.rs\<close>
  and \<^verbatim>\<open>src/src/hislip/messages.rs\<close>. A message is read from a byte stream and written as bytes; the
  bit-field structures are the functions that pack and unpack their words.
\<close>

section \<open>Errors\<close>

datatype fatal_error_code =
  UnidentifiedError | PoorlyFormattedMessageHeader | AttemptUseWithoutBothChannels | InvalidInitialization
| MaximumClientsExceeded | SecureConnectionFailed | Extension u8 | DeviceDefined u8 | IoError | LockError

fun fatal_code :: "fatal_error_code \<Rightarrow> u8" where
  "fatal_code UnidentifiedError = 0"
| "fatal_code PoorlyFormattedMessageHeader = 1"
| "fatal_code AttemptUseWithoutBothChannels = 2"
| "fatal_code InvalidInitialization = 3"
| "fatal_code MaximumClientsExceeded = 4"
| "fatal_code SecureConnectionFailed = 5"
| "fatal_code (Extension x) = x"
| "fatal_code (DeviceDefined x) = x"
| "fatal_code IoError = 128"
| "fatal_code LockError = 129"

definition fatal_from_code :: "u8 \<Rightarrow> fatal_error_code" where
  "fatal_from_code code =
     (if code = 0 then UnidentifiedError else if code = 1 then PoorlyFormattedMessageHeader
      else if code = 2 then AttemptUseWithoutBothChannels else if code = 3 then InvalidInitialization
      else if code = 4 then MaximumClientsExceeded else if code = 5 then SecureConnectionFailed
      else if 6 \<le> code \<and> code \<le> 127 then Extension code else DeviceDefined code)"

datatype nonfatal_error_code =
  NfUnidentifiedError | UnrecognizedMessageType | UnrecognizedControlCode | UnrecognizedVendorDefinedMessage
| MessageTooLarge | AuthenticationFailed | NfExtension u8 | NfDeviceDefined u8

fun nonfatal_code :: "nonfatal_error_code \<Rightarrow> u8" where
  "nonfatal_code NfUnidentifiedError = 0"
| "nonfatal_code UnrecognizedMessageType = 1"
| "nonfatal_code UnrecognizedControlCode = 2"
| "nonfatal_code UnrecognizedVendorDefinedMessage = 3"
| "nonfatal_code MessageTooLarge = 4"
| "nonfatal_code AuthenticationFailed = 5"
| "nonfatal_code (NfExtension x) = x"
| "nonfatal_code (NfDeviceDefined x) = x"

definition nonfatal_from_code :: "u8 \<Rightarrow> nonfatal_error_code" where
  "nonfatal_from_code code =
     (if code = 0 then NfUnidentifiedError else if code = 1 then UnrecognizedMessageType
      else if code = 2 then UnrecognizedControlCode else if code = 3 then UnrecognizedVendorDefinedMessage
      else if code = 4 then MessageTooLarge else if code = 5 then AuthenticationFailed
      else if 6 \<le> code \<and> code \<le> 127 then NfExtension code else NfDeviceDefined code)"

datatype hislip_error = Fatal fatal_error_code rstr | NonFatal nonfatal_error_code rstr

fun is_fatal :: "hislip_error \<Rightarrow> bool" where
  "is_fatal (Fatal _ _) = True"
| "is_fatal (NonFatal _ _) = False"

fun show_hislip_error :: "hislip_error \<Rightarrow> rstr" where
  "show_hislip_error (Fatal c m) = lit ''fatal '' @ dec (unat (fatal_code c)) @ lit '' ('' @ m @ lit '')''"
| "show_hislip_error (NonFatal c m) =
     lit ''non-fatal '' @ dec (unat (nonfatal_code c)) @ lit '' ('' @ m @ lit '')''"

section \<open>Message types\<close>

datatype message_type =
  Initialize | InitializeResponse | FatalError | Error | AsyncLock | AsyncLockResponse | Data | DataEnd |
  DeviceClearComplete | DeviceClearAcknowledge | AsyncRemoteLocalControl | AsyncRemoteLocalResponse |
  Trigger | Interrupted | AsyncInterrupted | AsyncMaximumMessageSize | AsyncMaximumMessageSizeResponse |
  AsyncInitialize | AsyncInitializeResponse | AsyncDeviceClear | AsyncServiceRequest | AsyncStatusQuery |
  AsyncStatusResponse | AsyncDeviceClearAcknowledge | AsyncLockInfo | AsyncLockInfoResponse |
  GetDescriptors | GetDescriptorsResponse | StartTLS | AsyncStartTLS | AsyncStartTLSResponse | EndTLS |
  AsyncEndTLS | AsyncEndTLSResponse | GetSaslMechanismList | GetSaslMechanismListResponse |
  AuthenticationStart | AuthenticationExchange | AuthenticationResult | VendorSpecific u8

fun get_message_type :: "message_type \<Rightarrow> u8" where
  "get_message_type Initialize = 0"
| "get_message_type InitializeResponse = 1"
| "get_message_type FatalError = 2"
| "get_message_type Error = 3"
| "get_message_type AsyncLock = 4"
| "get_message_type AsyncLockResponse = 5"
| "get_message_type Data = 6"
| "get_message_type DataEnd = 7"
| "get_message_type DeviceClearComplete = 8"
| "get_message_type DeviceClearAcknowledge = 9"
| "get_message_type AsyncRemoteLocalControl = 10"
| "get_message_type AsyncRemoteLocalResponse = 11"
| "get_message_type Trigger = 12"
| "get_message_type Interrupted = 13"
| "get_message_type AsyncInterrupted = 14"
| "get_message_type AsyncMaximumMessageSize = 15"
| "get_message_type AsyncMaximumMessageSizeResponse = 16"
| "get_message_type AsyncInitialize = 17"
| "get_message_type AsyncInitializeResponse = 18"
| "get_message_type AsyncDeviceClear = 19"
| "get_message_type AsyncServiceRequest = 20"
| "get_message_type AsyncStatusQuery = 21"
| "get_message_type AsyncStatusResponse = 22"
| "get_message_type AsyncDeviceClearAcknowledge = 23"
| "get_message_type AsyncLockInfo = 24"
| "get_message_type AsyncLockInfoResponse = 25"
| "get_message_type GetDescriptors = 26"
| "get_message_type GetDescriptorsResponse = 27"
| "get_message_type StartTLS = 28"
| "get_message_type AsyncStartTLS = 29"
| "get_message_type AsyncStartTLSResponse = 30"
| "get_message_type EndTLS = 31"
| "get_message_type AsyncEndTLS = 32"
| "get_message_type AsyncEndTLSResponse = 33"
| "get_message_type GetSaslMechanismList = 34"
| "get_message_type GetSaslMechanismListResponse = 35"
| "get_message_type AuthenticationStart = 36"
| "get_message_type AuthenticationExchange = 37"
| "get_message_type AuthenticationResult = 38"
| "get_message_type (VendorSpecific x) = x"

definition from_message_type :: "u8 \<Rightarrow> message_type option" where
  "from_message_type typ =
     (if typ = 0 then Some Initialize
      else if typ = 1 then Some InitializeResponse
      else if typ = 2 then Some FatalError
      else if typ = 3 then Some Error
      else if typ = 4 then Some AsyncLock
      else if typ = 5 then Some AsyncLockResponse
      else if typ = 6 then Some Data
      else if typ = 7 then Some DataEnd
      else if typ = 8 then Some DeviceClearComplete
      else if typ = 9 then Some DeviceClearAcknowledge
      else if typ = 10 then Some AsyncRemoteLocalControl
      else if typ = 11 then Some AsyncRemoteLocalResponse
      else if typ = 12 then Some Trigger
      else if typ = 13 then Some Interrupted
      else if typ = 14 then Some AsyncInterrupted
      else if typ = 15 then Some AsyncMaximumMessageSize
      else if typ = 16 then Some AsyncMaximumMessageSizeResponse
      else if typ = 17 then Some AsyncInitialize
      else if typ = 18 then Some AsyncInitializeResponse
      else if typ = 19 then Some AsyncDeviceClear
      else if typ = 20 then Some AsyncServiceRequest
      else if typ = 21 then Some AsyncStatusQuery
      else if typ = 22 then Some AsyncStatusResponse
      else if typ = 23 then Some AsyncDeviceClearAcknowledge
      else if typ = 24 then Some AsyncLockInfo
      else if typ = 25 then Some AsyncLockInfoResponse
      else if typ = 26 then Some GetDescriptors
      else if typ = 27 then Some GetDescriptorsResponse
      else if typ = 28 then Some StartTLS
      else if typ = 29 then Some AsyncStartTLS
      else if typ = 30 then Some AsyncStartTLSResponse
      else if typ = 31 then Some EndTLS
      else if typ = 32 then Some AsyncEndTLS
      else if typ = 33 then Some AsyncEndTLSResponse
      else if typ = 34 then Some GetSaslMechanismList
      else if typ = 35 then Some GetSaslMechanismListResponse
      else if typ = 36 then Some AuthenticationStart
      else if typ = 37 then Some AuthenticationExchange
      else if typ = 38 then Some AuthenticationResult
      else if 128 \<le> typ then Some (VendorSpecific typ)
      else None)"

text \<open>The derived \<^verbatim>\<open>Debug\<close> output, which two error replies quote.\<close>

fun debug_message_type :: "message_type \<Rightarrow> rstr" where
  "debug_message_type Initialize = lit ''Initialize''"
| "debug_message_type InitializeResponse = lit ''InitializeResponse''"
| "debug_message_type FatalError = lit ''FatalError''"
| "debug_message_type Error = lit ''Error''"
| "debug_message_type AsyncLock = lit ''AsyncLock''"
| "debug_message_type AsyncLockResponse = lit ''AsyncLockResponse''"
| "debug_message_type Data = lit ''Data''"
| "debug_message_type DataEnd = lit ''DataEnd''"
| "debug_message_type DeviceClearComplete = lit ''DeviceClearComplete''"
| "debug_message_type DeviceClearAcknowledge = lit ''DeviceClearAcknowledge''"
| "debug_message_type AsyncRemoteLocalControl = lit ''AsyncRemoteLocalControl''"
| "debug_message_type AsyncRemoteLocalResponse = lit ''AsyncRemoteLocalResponse''"
| "debug_message_type Trigger = lit ''Trigger''"
| "debug_message_type Interrupted = lit ''Interrupted''"
| "debug_message_type AsyncInterrupted = lit ''AsyncInterrupted''"
| "debug_message_type AsyncMaximumMessageSize = lit ''AsyncMaximumMessageSize''"
| "debug_message_type AsyncMaximumMessageSizeResponse = lit ''AsyncMaximumMessageSizeResponse''"
| "debug_message_type AsyncInitialize = lit ''AsyncInitialize''"
| "debug_message_type AsyncInitializeResponse = lit ''AsyncInitializeResponse''"
| "debug_message_type AsyncDeviceClear = lit ''AsyncDeviceClear''"
| "debug_message_type AsyncServiceRequest = lit ''AsyncServiceRequest''"
| "debug_message_type AsyncStatusQuery = lit ''AsyncStatusQuery''"
| "debug_message_type AsyncStatusResponse = lit ''AsyncStatusResponse''"
| "debug_message_type AsyncDeviceClearAcknowledge = lit ''AsyncDeviceClearAcknowledge''"
| "debug_message_type AsyncLockInfo = lit ''AsyncLockInfo''"
| "debug_message_type AsyncLockInfoResponse = lit ''AsyncLockInfoResponse''"
| "debug_message_type GetDescriptors = lit ''GetDescriptors''"
| "debug_message_type GetDescriptorsResponse = lit ''GetDescriptorsResponse''"
| "debug_message_type StartTLS = lit ''StartTLS''"
| "debug_message_type AsyncStartTLS = lit ''AsyncStartTLS''"
| "debug_message_type AsyncStartTLSResponse = lit ''AsyncStartTLSResponse''"
| "debug_message_type EndTLS = lit ''EndTLS''"
| "debug_message_type AsyncEndTLS = lit ''AsyncEndTLS''"
| "debug_message_type AsyncEndTLSResponse = lit ''AsyncEndTLSResponse''"
| "debug_message_type GetSaslMechanismList = lit ''GetSaslMechanismList''"
| "debug_message_type GetSaslMechanismListResponse = lit ''GetSaslMechanismListResponse''"
| "debug_message_type AuthenticationStart = lit ''AuthenticationStart''"
| "debug_message_type AuthenticationExchange = lit ''AuthenticationExchange''"
| "debug_message_type AuthenticationResult = lit ''AuthenticationResult''"
| "debug_message_type (VendorSpecific x) = lit ''VendorSpecific('' @ dec (unat x) @ lit '')''"

section \<open>Messages\<close>

record message =
  msg_type :: message_type
  msg_control :: u8
  msg_parameter :: u32
  msg_payload :: bytes

abbreviation MESSAGE_HEADER_SIZE :: nat where "MESSAGE_HEADER_SIZE \<equiv> 16"

definition message_params :: "message_type \<Rightarrow> u8 \<Rightarrow> u32 \<Rightarrow> message" where
  "message_params ty control_code message_parameter =
     \<lparr>msg_type = ty, msg_control = control_code, msg_parameter = message_parameter, msg_payload = []\<rparr>"

definition with_payload :: "message \<Rightarrow> bytes \<Rightarrow> message" where
  "with_payload m payload = m\<lparr>msg_payload := payload\<rparr>"

definition no_payload :: "message \<Rightarrow> message" where
  "no_payload m = m\<lparr>msg_payload := []\<rparr>"

text \<open>\<^verbatim>\<open>reader.take(len).read_to_end\<close>: everything up to the limit; the orderly end of the stream is no error.\<close>

definition read_to_limit :: "nat \<Rightarrow> stream \<Rightarrow> (io_error, bytes \<times> stream) result" where
  "read_to_limit n s =
     (if length (pending s) < n \<and> broken s \<noteq> None then Inl (the (broken s))
      else Inr (take n (pending s), s\<lparr>pending := drop n (pending s)\<rparr>))"

text \<open>The outer result is that of the connection, the inner one that of the message. The allocation of
  the payload fails beyond \<^verbatim>\<open>isize::MAX\<close>; below it memory is taken to suffice.\<close>

definition isize_max :: nat where "isize_max = 2 ^ 63 - 1"

definition read_from :: "u64 \<Rightarrow> stream \<Rightarrow> (io_error, (hislip_error, message) result \<times> stream) result" where
  "read_from maxlen s =
     rbind (read_exact MESSAGE_HEADER_SIZE s) (\<lambda>(buf, s1).
       if take 2 buf \<noteq> [0x48, 0x53] then
         Inr (Inl (Fatal PoorlyFormattedMessageHeader (lit ''invalid prologue'')), s1)
       else
         let control_code = buf ! 3;
             len = of_be (take 8 (drop 8 buf)) :: u64;
             message_parameter = of_be (take 4 (drop 4 buf)) :: u32
         in if maxlen < len then
              Inr (Inl (NonFatal MessageTooLarge (lit ''message payload too large'')), s1)
            else if isize_max < unat len then
              Inr (Inl (Fatal UnidentifiedError (lit ''out of memory'')), s1)
            else rbind (read_to_limit (unat len) s1) (\<lambda>(payload, s2).
              case from_message_type (buf ! 2) of
                Some ty \<Rightarrow>
                  Inr (Inr \<lparr>msg_type = ty, msg_control = control_code, msg_parameter = message_parameter,
                           msg_payload = payload\<rparr>, s2)
              | None \<Rightarrow>
                  Inr (Inl (NonFatal UnrecognizedMessageType
                         (lit ''unrecognized message type '' @ dec (unat (buf ! 2)))), s2)))"

definition write_to :: "message \<Rightarrow> bytes" where
  "write_to m =
     [0x48, 0x53, get_message_type (msg_type m), msg_control m] @ be32 (msg_parameter m) @
     be64 (of_nat (length (msg_payload m))) @ msg_payload m"

fun message_of_error :: "hislip_error \<Rightarrow> message" where
  "message_of_error (Fatal code m) = with_payload (message_params FatalError (fatal_code code) 0) (as_bytes m)"
| "message_of_error (NonFatal code m) = with_payload (message_params Error (nonfatal_code code) 0) (as_bytes m)"

section \<open>Bit fields\<close>

abbreviation PROTOCOL_1_0 :: u16 where "PROTOCOL_1_0 \<equiv> 0x0100"
abbreviation PROTOCOL_1_1 :: u16 where "PROTOCOL_1_1 \<equiv> 0x0101"
abbreviation PROTOCOL_2_0 :: u16 where "PROTOCOL_2_0 \<equiv> 0x0200"
abbreviation SUPPORTED_PROTOCOL :: u16 where "SUPPORTED_PROTOCOL \<equiv> PROTOCOL_2_0"

abbreviation protocol_major :: "u16 \<Rightarrow> u8" where "protocol_major p \<equiv> ucast (drop_bit 8 p)"
abbreviation protocol_minor :: "u16 \<Rightarrow> u8" where "protocol_minor p \<equiv> ucast p"

abbreviation show_protocol :: "u16 \<Rightarrow> rstr" where
  "show_protocol p \<equiv> dec (unat (protocol_major p)) @ lit ''.'' @ dec (unat (protocol_minor p))"

abbreviation as_parameter :: "u16 \<Rightarrow> u16 \<Rightarrow> u32" where
  "as_parameter p session_id \<equiv> push_bit 16 (ucast p) OR ucast session_id"

definition client_protocol :: "u32 \<Rightarrow> u16" where "client_protocol w = ucast (drop_bit 16 w)"
abbreviation client_vendorid :: "u32 \<Rightarrow> u16" where "client_vendorid w \<equiv> ucast w"

definition initialize_response_parameter :: "u16 \<Rightarrow> u16 \<Rightarrow> u32" where
  "initialize_response_parameter negotiated_protocol session_id =
     push_bit 16 (ucast negotiated_protocol) OR ucast session_id"

abbreviation negotiated_protocol :: "u32 \<Rightarrow> u16" where "negotiated_protocol w \<equiv> ucast (drop_bit 16 w)"
abbreviation response_session_id :: "u32 \<Rightarrow> u16" where "response_session_id w \<equiv> ucast w"

text \<open>Three flag bytes share one layout: bits 0, 1 and 2.\<close>

definition flag_byte :: "bool \<Rightarrow> bool \<Rightarrow> bool \<Rightarrow> u8" where
  "flag_byte b0 b1 b2 = (if b0 then 1 else 0) OR (if b1 then 2 else 0) OR (if b2 then 4 else 0)"

definition initialize_response_control :: "bool \<Rightarrow> bool \<Rightarrow> bool \<Rightarrow> u8" where
  "initialize_response_control prefer_overlap encryption_mode initial_encryption =
     flag_byte prefer_overlap encryption_mode initial_encryption"

definition feature_bitmap :: "bool \<Rightarrow> bool \<Rightarrow> bool \<Rightarrow> u8" where
  "feature_bitmap overlapped encryption initial_encryption = flag_byte overlapped encryption initial_encryption"

abbreviation feature_overlapped :: "u8 \<Rightarrow> bool" where "feature_overlapped w \<equiv> has_flag w 1"

definition async_initialize_response_parameter :: "u16 \<Rightarrow> u32" where
  "async_initialize_response_parameter server_vendor_id = ucast server_vendor_id"

definition async_initialize_response_control :: "bool \<Rightarrow> u8" where
  "async_initialize_response_control secure_connection = (if secure_connection then 1 else 0)"

abbreviation rmt_delivered :: "u8 \<Rightarrow> bool" where "rmt_delivered w \<equiv> has_flag w 1"

section \<open>Laws\<close>

definition type_ok :: "message_type \<Rightarrow> bool" where
  "type_ok ty = (case ty of VendorSpecific x \<Rightarrow> 128 \<le> x | _ \<Rightarrow> True)"

lemma from_get_message_type [wire]: "type_ok ty \<Longrightarrow> from_message_type (get_message_type ty) = Some ty"
  by (cases ty) (auto simp: from_message_type_def type_ok_def word_le_nat_alt)

lemma get_from_message_type:
  "from_message_type c = Some ty \<Longrightarrow> get_message_type ty = c \<and> type_ok ty"
  by (auto simp: from_message_type_def type_ok_def split: if_splits)

lemma read_to_limit_feed: "n = length bs \<Longrightarrow> read_to_limit n (feed bs s) = Inr (bs, s)"
  by (simp add: read_to_limit_def feed_def)

definition message_header :: "message \<Rightarrow> u64 \<Rightarrow> bytes" where
  "message_header m len = [0x48, 0x53, get_message_type (msg_type m), msg_control m] @ be32 (msg_parameter m) @ be64 len"

text \<open>What \<^verbatim>\<open>read_from\<close> does once the sixteen header bytes of a message are in front of it.\<close>

lemma read_from_header:
  assumes "type_ok (msg_type m)"
  shows "read_from maxlen (feed (message_header m len) s) =
    (if maxlen < len then Inr (Inl (NonFatal MessageTooLarge (lit ''message payload too large'')), s)
     else if isize_max < unat len then Inr (Inl (Fatal UnidentifiedError (lit ''out of memory'')), s)
     else rbind (read_to_limit (unat len) s) (\<lambda>(payload, s2). Inr (Inr (m\<lparr>msg_payload := payload\<rparr>), s2)))"
proof -
  let ?h = "message_header m len"
  have "read_exact MESSAGE_HEADER_SIZE (feed ?h s) = Inr (?h, s)"
    by (rule read_exact_feed) (simp add: message_header_def)
  moreover have "take 2 ?h = [0x48, 0x53]" "?h ! 2 = get_message_type (msg_type m)" "?h ! 3 = msg_control m"
    by (simp_all add: message_header_def numeral_2_eq_2 numeral_3_eq_3)
  moreover have "drop 8 ?h = be64 len" "take 4 (drop 4 ?h) = be32 (msg_parameter m)"
    by (simp_all add: message_header_def)
  ultimately show ?thesis
    unfolding read_from_def
    by (cases "read_to_limit (unat len) s") (simp_all add: from_get_message_type[OF assms] split: prod.splits)
qed

definition message_ok :: "u64 \<Rightarrow> message \<Rightarrow> bool" where
  "message_ok maxlen m \<longleftrightarrow> type_ok (msg_type m) \<and> length (msg_payload m) \<le> unat maxlen \<and> length (msg_payload m) \<le> isize_max"

lemma payload_length: "length d \<le> isize_max \<Longrightarrow> unat (of_nat (length d) :: u64) = length d"
  by (rule of_nat_unat_len) (simp add: isize_max_def)

lemma write_to_feed:
  "feed (write_to m) s =
     feed (message_header m (of_nat (length (msg_payload m)))) (feed (msg_payload m) s)"
  by (simp add: write_to_def message_header_def feed_def)

lemma read_from_write_to:
  assumes "message_ok maxlen m"
  shows "read_from maxlen (feed (write_to m) s) = Inr (Inr m, s)"
proof -
  have "unat (of_nat (length (msg_payload m)) :: u64) = length (msg_payload m)"
    using assms by (simp add: message_ok_def payload_length)
  moreover from this have "\<not> maxlen < of_nat (length (msg_payload m))"
    using assms by (simp add: message_ok_def word_less_nat_alt)
  ultimately show ?thesis
    using assms by (simp add: write_to_feed read_from_header message_ok_def read_to_limit_feed del: feed_append)
qed

interpretation hislip_framing: framing "message_ok maxlen" write_to
  "\<lambda>s. case read_from maxlen s of
         Inl e \<Rightarrow> Inl None | Inr (Inl e, _) \<Rightarrow> Inl (Some e) | Inr (Inr m, s') \<Rightarrow> Inr (m, s')" for maxlen
  by unfold_locales (simp add: read_from_write_to)

section \<open>Properties\<close>

text \<open>HiSLIP messages survive the wire: any sequence of well-formed messages within the size limit is
  read back exactly, message by message, from the bytes it was written as; no message is a prefix of
  another; and a type byte that is accepted at all is the byte its message type is written as.\<close>

theorem hislip_message_roundtrip:
  "(list_all (message_ok maxlen) ms \<longrightarrow>
      hislip_framing.recv_n maxlen (length ms) (feed (concat (map write_to ms)) s) = Inr (ms, s)) \<and>
   (message_ok maxlen m \<and> message_ok maxlen m' \<and> write_to m @ bs = write_to m' @ cs \<longrightarrow> m = m' \<and> bs = cs) \<and>
   (from_message_type c = Some ty \<longrightarrow> get_message_type ty = c)"
  using hislip_framing.recv_all_emitted hislip_framing.emit_prefix_free[of maxlen m m' bs cs] get_from_message_type[of c ty]
  by blast

theorem hislip_message_roundtrip_witness:
  "\<exists>m. hislip_framing.recv_n 1048576 2 (feed (write_to m @ write_to m) \<lparr>pending = [], broken = None\<rparr>) =
       Inr ([m, m], \<lparr>pending = [], broken = None\<rparr>) \<and> msg_type m = Data \<and> msg_payload m = [0x2A]"
proof -
  let ?m = "\<lparr>msg_type = Data, msg_control = 1, msg_parameter = 0xffffff00, msg_payload = [0x2A]\<rparr>"
  have "message_ok 1048576 ?m"
    by code_simp
  then have "hislip_framing.recv_n 1048576 (length [?m, ?m])
      (feed (concat (map write_to [?m, ?m])) \<lparr>pending = [], broken = None\<rparr>) = Inr ([?m, ?m], \<lparr>pending = [], broken = None\<rparr>)"
    using hislip_message_roundtrip[where ms = "[?m, ?m]" and maxlen = 1048576] by simp
  then show ?thesis
    by (intro exI[of _ ?m]) (simp add: numeral_2_eq_2)
qed

end
