(* ===== verification/Hislip_Server.thy ===== *)
theory Hislip_Server
  imports Hislip_Messages Lock_Registry Backend
begin

text \<open>
  The HiSLIP server of \<^verbatim>\<open>src/src/hislip/server.rs\<close>: sessions made of a synchronous and an asynchronous
  channel, the registry that pairs them, the message loops of the two channels, lock requests, device
  clear, status queries and service requests.

  A session entry is shared by reference (\<^verbatim>\<open>Arc\<close>) between the registry and the tasks of the two channels, and
  it outlives its registration; the entries are therefore a store, and the registry and the tasks hold
  indices into it. The server state holds the store, the registry, the locks and the state \<open>'b\<close> of the bus.
  One turn of a channel loop is one function; what other tasks do to the server while it waits is an
  argument, and a turn that is still waiting when that argument is used up is \<^const>\<open>None\<close>.
\<close>

section \<open>Devices\<close>

record execution =
  ex_data :: "bytes option"
  ex_service_request :: "u8 option"

definition execution_of :: "bytes option \<Rightarrow> execution" where
  "execution_of d = \<lparr>ex_data = d, ex_service_request = None\<rparr>"

text \<open>The trait object \<^verbatim>\<open>dyn Device\<close> over the bus. The first argument of \<open>dv_execute\<close> tells whether a service
  request notification arrives while the command runs.\<close>

record 'b device =
  dv_execute :: "bool \<Rightarrow> bytes \<Rightarrow> bool \<Rightarrow> 'b \<Rightarrow> execution io \<times> 'b"
  dv_trigger :: "'b \<Rightarrow> unit io \<times> 'b"
  dv_clear :: "'b \<Rightarrow> unit io \<times> 'b"
  dv_set_remote :: "bool \<Rightarrow> 'b \<Rightarrow> unit io \<times> 'b"
  dv_go_to_remote :: "'b \<Rightarrow> unit io \<times> 'b"
  dv_go_to_local :: "'b \<Rightarrow> unit io \<times> 'b"
  dv_local_lockout :: "'b \<Rightarrow> unit io \<times> 'b"
  dv_get_status :: "'b \<Rightarrow> u8 io \<times> 'b"
  dv_can_srq :: "'b \<Rightarrow> bool"
  dv_srq_asserted :: "'b \<Rightarrow> bool io \<times> 'b"
  dv_resource_key :: rstr

text \<open>The methods of the trait that have a body.\<close>

abbreviation default_go_to_remote :: "'b \<Rightarrow> unit io \<times> 'b" where
  "default_go_to_remote b \<equiv> (Inl (lit ''this device cannot be addressed into remote state''), b)"

abbreviation default_go_to_local :: "'b \<Rightarrow> unit io \<times> 'b" where
  "default_go_to_local b \<equiv> (Inl (lit ''this device cannot be sent Go To Local''), b)"

abbreviation default_local_lockout :: "'b \<Rightarrow> unit io \<times> 'b" where
  "default_local_lockout b \<equiv> (Inl (lit ''this device cannot be sent Local Lockout''), b)"

abbreviation default_can_srq :: "'b \<Rightarrow> bool" where
  "default_can_srq b \<equiv> False"

abbreviation default_device_srq :: "'b \<Rightarrow> bool io \<times> 'b" where
  "default_device_srq b \<equiv> (Inl (lit ''this device cannot read the SRQ line''), b)"

abbreviation default_resource_key :: rstr where
  "default_resource_key \<equiv> lit ''default''"

section \<open>Configuration\<close>

abbreviation FIRST_MESSAGE_ID :: u32 where "FIRST_MESSAGE_ID \<equiv> 0xffffff00"
abbreviation STB_RQS :: u8 where "STB_RQS \<equiv> 0x40"
definition STB_MAV :: u8 where "STB_MAV = 0x10"
abbreviation SRQ_RECHECK_BUDGET :: nat where "SRQ_RECHECK_BUDGET \<equiv> 500 * 1000000"
abbreviation SRQ_QUEUE_DEPTH :: nat where "SRQ_QUEUE_DEPTH \<equiv> 4"
abbreviation MIN_CHUNK :: nat where "MIN_CHUNK \<equiv> 256"
abbreviation DEFAULT_SUBADDRESS :: rstr where "DEFAULT_SUBADDRESS \<equiv> lit ''hislip0''"

datatype modes = Synchronized | PreferSynchronized | PreferOverlapped

abbreviation supports_overlapped :: "modes \<Rightarrow> bool" where
  "supports_overlapped m \<equiv> m \<noteq> Synchronized"

definition prefers_overlapped :: "modes \<Rightarrow> bool" where
  "prefers_overlapped m \<longleftrightarrow> m = PreferOverlapped"

record hislip_config =
  hc_vendor_id :: u16
  hc_max_message_size :: u64
  hc_max_sessions :: nat
  hc_modes :: modes

definition default_hislip_config :: hislip_config where
  "default_hislip_config =
     \<lparr>hc_vendor_id = 0xBEEF, hc_max_message_size = 1048576, hc_max_sessions = 16, hc_modes = Synchronized\<rparr>"

section \<open>Sessions\<close>

datatype async_push = ServiceRequest u8 | PushFatal fatal_error_code rstr

text \<open>The two bounded queues of an entry are their contents; \<open>se_async_open\<close> and \<open>se_sync_open\<close> tell whether the
  receiving end still exists, \<open>se_async_taken\<close> and \<open>se_sync_taken\<close> whether a task has taken it.\<close>

record 'b session_entry =
  se_id :: u16
  se_protocol :: u16
  se_client_max :: u64
  se_device :: "'b device"
  se_async_bound :: bool
  se_resource :: rstr
  se_consumed_stb :: "u8 option"
  se_clear_epoch :: u64
  se_mav :: bool
  se_last_message_id :: u32
  se_overlapped :: bool
  se_next_server_id :: u32
  se_async_queue :: "async_push list"
  se_async_taken :: bool
  se_async_open :: bool
  se_sync_queue :: "(fatal_error_code \<times> rstr) list"
  se_sync_taken :: bool
  se_sync_open :: bool

definition new_entry :: "u16 \<Rightarrow> u16 \<Rightarrow> 'b device \<Rightarrow> u64 \<Rightarrow> bool \<Rightarrow> 'b session_entry" where
  "new_entry sid protocol device max_message_size overlapped =
     \<lparr>se_id = sid, se_protocol = protocol, se_client_max = max_message_size, se_device = device,
      se_async_bound = False, se_resource = dv_resource_key device, se_consumed_stb = None, se_clear_epoch = 0,
      se_mav = False, se_last_message_id = FIRST_MESSAGE_ID - 2, se_overlapped = overlapped,
      se_next_server_id = FIRST_MESSAGE_ID, se_async_queue = [], se_async_taken = False, se_async_open = True,
      se_sync_queue = [], se_sync_taken = False, se_sync_open = True\<rparr>"

record 'b hislip =
  hs_entries :: "'b session_entry list"
  hs_registry :: "(u16 \<times> nat) list"
  hs_locks :: lock_registry
  hs_bus :: 'b

definition new_hislip :: "lock_registry \<Rightarrow> 'b \<Rightarrow> 'b hislip" where
  "new_hislip locks bus = \<lparr>hs_entries = [], hs_registry = [], hs_locks = locks, hs_bus = bus\<rparr>"

definition entry_at :: "nat \<Rightarrow> 'b hislip \<Rightarrow> 'b session_entry" where
  "entry_at r st = hs_entries st ! r"

definition on_entry :: "nat \<Rightarrow> ('b session_entry \<Rightarrow> 'b session_entry) \<Rightarrow> 'b hislip \<Rightarrow> 'b hislip" where
  "on_entry r f st = st\<lparr>hs_entries := (hs_entries st)[r := f (hs_entries st ! r)]\<rparr>"

text \<open>An operation of the device of a session on the bus.\<close>

definition on_bus :: "('b \<Rightarrow> 'r \<times> 'b) \<Rightarrow> 'b hislip \<Rightarrow> 'r \<times> 'b hislip" where
  "on_bus f st = (case f (hs_bus st) of (x, b) \<Rightarrow> (x, st\<lparr>hs_bus := b\<rparr>))"

definition session_holder :: "'b session_entry \<Rightarrow> holder_id" where
  "session_holder e = hislip_id (se_id e)"

definition session_has_access :: "nat \<Rightarrow> 'b hislip \<Rightarrow> bool" where
  "session_has_access r st =
     has_access (hs_locks st) (se_resource (entry_at r st)) (session_holder (entry_at r st))"

text \<open>\<^verbatim>\<open>wait_for_access\<close> of an entry: it parks until a release lets it through.\<close>

fun await_access :: "('b hislip \<Rightarrow> 'b hislip) list \<Rightarrow> nat \<Rightarrow> 'b hislip \<Rightarrow> 'b hislip option" where
  "await_access [] r st = (if session_has_access r st then Some st else None)"
| "await_access (others # sched) r st =
     (if session_has_access r st then Some st else await_access sched r (others st))"

definition take_consumed_stb :: "'b session_entry \<Rightarrow> 'b session_entry" where
  "take_consumed_stb e = e\<lparr>se_consumed_stb := None\<rparr>"

definition note_client_message :: "message \<Rightarrow> 'b session_entry \<Rightarrow> 'b session_entry" where
  "note_client_message m e =
     take_consumed_stb (e\<lparr>se_last_message_id := msg_parameter m,
                          se_mav := (if rmt_delivered (msg_control m) then False else se_mav e)\<rparr>)"

definition set_overlapped :: "bool \<Rightarrow> 'b session_entry \<Rightarrow> 'b session_entry" where
  "set_overlapped overlapped e =
     e\<lparr>se_mav := False, se_overlapped := overlapped, se_next_server_id := FIRST_MESSAGE_ID\<rparr>"

definition response_message_id :: "u32 \<Rightarrow> 'b session_entry \<Rightarrow> u32 \<times> 'b session_entry" where
  "response_message_id request_id e =
     (if se_overlapped e then (se_next_server_id e, e\<lparr>se_next_server_id := se_next_server_id e + 2\<rparr>)
      else (request_id, e))"

definition mav_bit :: "u32 \<Rightarrow> 'b session_entry \<Rightarrow> u8" where
  "mav_bit message_id e =
     (if se_overlapped e then (if message_id = se_next_server_id e - 2 then 0 else STB_MAV)
      else if \<not> se_mav e then 0
      else if message_id \<noteq> se_last_message_id e then 0
      else STB_MAV)"

text \<open>\<^verbatim>\<open>try_send\<close> on the bounded queues: refused when full or when the receiver is gone.\<close>

definition async_send :: "async_push \<Rightarrow> 'b session_entry \<Rightarrow> 'b session_entry" where
  "async_send p e =
     (if se_async_open e \<and> length (se_async_queue e) < SRQ_QUEUE_DEPTH
      then e\<lparr>se_async_queue := se_async_queue e @ [p]\<rparr> else e)"

definition raise_service_request :: "u8 \<Rightarrow> 'b session_entry \<Rightarrow> 'b session_entry" where
  "raise_service_request stb e = async_send (ServiceRequest stb) (e\<lparr>se_consumed_stb := Some stb\<rparr>)"

definition mirror_fatal :: "fatal_error_code \<Rightarrow> rstr \<Rightarrow> 'b session_entry \<Rightarrow> 'b session_entry" where
  "mirror_fatal code msg = async_send (PushFatal code msg)"

definition mirror_fatal_to_sync :: "fatal_error_code \<Rightarrow> rstr \<Rightarrow> 'b session_entry \<Rightarrow> 'b session_entry" where
  "mirror_fatal_to_sync code msg e =
     (if se_sync_open e \<and> length (se_sync_queue e) < 1
      then e\<lparr>se_sync_queue := se_sync_queue e @ [(code, msg)]\<rparr> else e)"

section \<open>Writers\<close>

text \<open>A writer is the messages it has taken and how many more the peer accepts; a write beyond that fails with
  a broken pipe. A write error ends the calling function wherever in a reply it happens.\<close>

record writer =
  wr_sent :: "message list"
  wr_left :: nat

definition broken_pipe :: io_error where "broken_pipe = OtherIo 32"

definition put :: "message \<Rightarrow> writer \<Rightarrow> (io_error, writer) result" where
  "put m w = (if wr_left w = 0 then Inl broken_pipe
              else Inr \<lparr>wr_sent = wr_sent w @ [m], wr_left = wr_left w - 1\<rparr>)"

definition send_fatal :: "fatal_error_code \<Rightarrow> rstr \<Rightarrow> writer \<Rightarrow> (io_error, writer) result" where
  "send_fatal code msg = put (message_of_error (Fatal code msg))"

definition send_nonfatal :: "nonfatal_error_code \<Rightarrow> rstr \<Rightarrow> writer \<Rightarrow> (io_error, writer) result" where
  "send_nonfatal code msg = put (message_of_error (NonFatal code msg))"

section \<open>Command texts and subaddresses\<close>

text \<open>Whether a question mark occurs outside string literals; the state is the open quote character.\<close>

fun query_scan :: "u8 option \<Rightarrow> bytes \<Rightarrow> bool" where
  "query_scan q [] = False"
| "query_scan (Some q) (b # bs) = query_scan (if b = q then None else Some q) bs"
| "query_scan None (b # bs) =
     (if b = 0x22 \<or> b = 0x27 then query_scan (Some b) bs
      else if b = 0x3F then True
      else query_scan None bs)"

definition query_hint :: "bytes \<Rightarrow> bool" where
  "query_hint cmd = query_scan None cmd"

definition is_ascii_digit :: "nat \<Rightarrow> bool" where
  "is_ascii_digit c \<longleftrightarrow> 48 \<le> c \<and> c \<le> 57"

definition eq_ignore_ascii_case :: "rstr \<Rightarrow> rstr \<Rightarrow> bool" where
  "eq_ignore_ascii_case s u \<longleftrightarrow> to_ascii_lowercase s = to_ascii_lowercase u"

definition parse_subaddress_pad :: "rstr \<Rightarrow> u8 option" where
  "parse_subaddress_pad sub =
     (let s = rev (dropWhile (\<lambda>c. c = 0) (rev (trim sub)))
      in if s = [] \<or> eq_ignore_ascii_case s (lit ''hislip0'') \<or> eq_ignore_ascii_case s (lit ''gpib0'') then None
         else
           let tail = rev (takeWhile (\<lambda>c. c \<noteq> 44 \<and> c \<noteq> 58) (rev s));
               digits = rev (takeWhile is_ascii_digit (rev tail))
           in if digits = [] then None
              else case parse_u8 digits of
                     Some n \<Rightarrow> if n \<le> 30 then Some n else None
                   | None \<Rightarrow> None)"

definition escape_byte :: "u8 \<Rightarrow> rstr" where
  "escape_byte b =
     (if b = 0x0A then [92, 110] else if b = 0x0D then [92, 114] else if b = 0x09 then [92, 116]
      else if b = 0x5C then [92, 92]
      else if 0x20 \<le> b \<and> b \<le> 0x7E then [unat b]
      else [92, 120, hex_digit (unat b div 16), hex_digit (unat b mod 16)])"

definition escape_bytes :: "bytes \<Rightarrow> rstr" where
  "escape_bytes bs = concat (map escape_byte bs)"

definition escape_bytes_truncated :: "bytes \<Rightarrow> nat \<Rightarrow> rstr" where
  "escape_bytes_truncated bs n =
     (if length bs \<le> n then escape_bytes bs
      else escape_bytes (take n bs) @ [0x2026] @ lit '' (+'' @ dec (length bs - n) @ lit '' bytes)'')"

section \<open>Replies\<close>

fun write_chunks ::
    "u32 \<Rightarrow> bytes list \<Rightarrow> 'b session_entry \<Rightarrow> writer \<Rightarrow> (io_error, writer) result \<times> 'b session_entry" where
  "write_chunks request_id [] e w = (Inr w, e)"
| "write_chunks request_id (c # cs) e w =
     (let (mid, e1) = response_message_id request_id e
      in case put (with_payload (message_params (if cs = [] then DataEnd else Data) 0 mid) c) w of
           Inl err \<Rightarrow> (Inl err, e1)
         | Inr w1 \<Rightarrow> write_chunks request_id cs e1 w1)"

definition response_chunk :: "'b session_entry \<Rightarrow> nat" where
  "response_chunk e = max (unat (se_client_max e) - MESSAGE_HEADER_SIZE) MIN_CHUNK"

definition write_response ::
    "u32 \<Rightarrow> bytes \<Rightarrow> 'b session_entry \<Rightarrow> writer \<Rightarrow> (io_error, writer) result \<times> 'b session_entry" where
  "write_response request_id d e w =
     (if d = [] then
        (let (mid, e1) = response_message_id request_id e
         in (put (no_payload (message_params DataEnd 0 mid)) w, e1))
      else write_chunks request_id (chunks (response_chunk e) d) e w)"

section \<open>The synchronous channel\<close>

text \<open>How a turn of a channel loop ends: the loop goes on, returns, or fails with an I/O error.\<close>

datatype flow = Continue | Finish | Broken io_error

text \<open>What the other tasks of the server do around one turn: before its message arrives, while it waits for a
  lock, while it contends for one (with the clock of each attempt) and while the device is busy; and
  whether a service request notification arrives during the command.\<close>

record 'b task_env =
  te_before :: "'b hislip \<Rightarrow> 'b hislip"
  te_waits :: "('b hislip \<Rightarrow> 'b hislip) list"
  te_now :: nat
  te_contend :: "(nat \<times> ('b hislip \<Rightarrow> 'b hislip)) list"
  te_meanwhile :: "'b hislip \<Rightarrow> 'b hislip"
  te_fired :: bool

record sync_task =
  sy_buffer :: bytes
  sy_epoch :: u64

type_synonym 'b sync_outcome = "flow \<times> sync_task \<times> writer \<times> 'b hislip"

text \<open>The end of a turn that writes a message.\<close>

definition after_put :: "(io_error, writer) result \<Rightarrow> flow \<Rightarrow> writer \<Rightarrow> flow \<times> writer" where
  "after_put res fl w = (case res of Inl e \<Rightarrow> (Broken e, w) | Inr w1 \<Rightarrow> (fl, w1))"

definition sync_error :: "nat \<Rightarrow> hislip_error \<Rightarrow> sync_task \<Rightarrow> writer \<Rightarrow> 'b hislip \<Rightarrow> 'b sync_outcome" where
  "sync_error r e task w st =
     (let st1 = (case e of Fatal code m \<Rightarrow> on_entry r (mirror_fatal code m) st | NonFatal _ _ \<Rightarrow> st);
          (fl, w1) = after_put (put (message_of_error e) w) (if is_fatal e then Finish else Continue) w
      in (fl, task, w1, st1))"

text \<open>The reply to a command: the flag for a waiting response goes up with its first message, the service
  request follows the reply.\<close>

definition deliver :: "nat \<Rightarrow> u32 \<Rightarrow> execution \<Rightarrow> sync_task \<Rightarrow> writer \<Rightarrow> 'b hislip \<Rightarrow> 'b sync_outcome" where
  "deliver r request_id ex task w st =
     (let (res, st1) =
        (case ex_data ex of
           None \<Rightarrow> (Inr w, st)
         | Some d \<Rightarrow>
             let st0 = on_entry r (\<lambda>e. e\<lparr>se_mav := True\<rparr>) st;
                 (res, e1) = write_response request_id d (entry_at r st0) w
             in (res, on_entry r (\<lambda>_. e1) st0))
      in case res of
           Inl err \<Rightarrow> (Broken err, task, w, st1)
         | Inr w1 \<Rightarrow>
             (Continue, task, w1,
              case ex_service_request ex of Some stb \<Rightarrow> on_entry r (raise_service_request stb) st1 | None \<Rightarrow> st1))"

text \<open>Data and DataEnd: the last piece of a command is executed once the session has access. The text of a
  device error in the reply is the whole chain of causes.\<close>

definition sync_data :: "'b task_env \<Rightarrow> nat \<Rightarrow> message \<Rightarrow> sync_task \<Rightarrow> writer \<Rightarrow> 'b hislip \<Rightarrow> 'b sync_outcome option" where
  "sync_data env r m task w st =
     (let buffer = sy_buffer task @ msg_payload m
      in if msg_type m \<noteq> DataEnd then Some (Continue, task\<lparr>sy_buffer := buffer\<rparr>, w, st)
         else case await_access (te_waits env) r st of
                None \<Rightarrow> None
              | Some st1 \<Rightarrow>
                  let task1 = task\<lparr>sy_buffer := []\<rparr>;
                      (executed, st2) =
                        on_bus (dv_execute (se_device (entry_at r st)) (te_fired env) buffer (query_hint buffer)) st1;
                      st3 = te_meanwhile env st2
                  in case executed of
                       Inl e \<Rightarrow>
                         let (fl, w1) = after_put (send_nonfatal NfUnidentifiedError (lit ''device error: '' @ e) w) Continue w
                         in Some (fl, task1, w1, st3)
                     | Inr ex \<Rightarrow> Some (deliver r (msg_parameter m) ex task1 w st3))"

definition sync_trigger :: "'b task_env \<Rightarrow> nat \<Rightarrow> sync_task \<Rightarrow> writer \<Rightarrow> 'b hislip \<Rightarrow> 'b sync_outcome option" where
  "sync_trigger env r task w st =
     (case await_access (te_waits env) r st of
        None \<Rightarrow> None
      | Some st1 \<Rightarrow> Some (Continue, task, w, snd (on_bus (dv_trigger (se_device (entry_at r st))) st1)))"

definition sync_clear_complete ::
    "hislip_config \<Rightarrow> nat \<Rightarrow> message \<Rightarrow> sync_task \<Rightarrow> writer \<Rightarrow> 'b hislip \<Rightarrow> 'b sync_outcome" where
  "sync_clear_complete cfg r m task w st =
     (let overlapped = feature_overlapped (msg_control m) \<and> supports_overlapped (hc_modes cfg);
          st1 = on_entry r (set_overlapped overlapped) st;
          (fl, w1) = after_put (put (no_payload (message_params DeviceClearAcknowledge
                                                  (feature_bitmap overlapped False False) 0)) w) Continue w
      in (fl, task, w1, st1))"

definition sync_secure :: "message_type \<Rightarrow> bool" where
  "sync_secure ty \<longleftrightarrow>
     ty = StartTLS \<or> ty = EndTLS \<or> ty = GetSaslMechanismList \<or> ty = AuthenticationStart \<or> ty = AuthenticationExchange"

definition sync_refuse_tls :: "nat \<Rightarrow> sync_task \<Rightarrow> writer \<Rightarrow> 'b hislip \<Rightarrow> 'b sync_outcome" where
  "sync_refuse_tls r task w st =
     (let text = lit ''TLS/SASL not supported'';
          st1 = on_entry r (mirror_fatal SecureConnectionFailed text) st;
          (fl, w1) = after_put (send_fatal SecureConnectionFailed text w) Finish w
      in (fl, task, w1, st1))"

definition sync_unexpected :: "message \<Rightarrow> sync_task \<Rightarrow> writer \<Rightarrow> 'b hislip \<Rightarrow> 'b sync_outcome" where
  "sync_unexpected m task w st =
     (let (fl, w1) = after_put (send_nonfatal UnrecognizedMessageType
                       (lit ''unexpected sync message: '' @ debug_message_type (msg_type m)) w) Continue w
      in (fl, task, w1, st))"

definition sync_message ::
    "'b task_env \<Rightarrow> hislip_config \<Rightarrow> nat \<Rightarrow> message \<Rightarrow> sync_task \<Rightarrow> writer \<Rightarrow> 'b hislip \<Rightarrow> 'b sync_outcome option" where
  "sync_message env cfg r m task w st =
     (let current = se_clear_epoch (entry_at r st);
          task1 = (if current \<noteq> sy_epoch task then \<lparr>sy_buffer = [], sy_epoch = current\<rparr> else task);
          ty = msg_type m;
          st1 = (if ty = Data \<or> ty = DataEnd \<or> ty = Trigger then on_entry r (note_client_message m) st else st)
      in if ty = Data \<or> ty = DataEnd then sync_data env r m task1 w st1
         else if ty = Trigger then sync_trigger env r task1 w st1
         else if ty = DeviceClearComplete then Some (sync_clear_complete cfg r m task1 w st1)
         else if ty = FatalError then Some (Finish, task1, w, st1)
         else if ty = Error then Some (Continue, task1, w, st1)
         else if sync_secure ty \<and> PROTOCOL_2_0 \<le> se_protocol (entry_at r st1) then
           Some (sync_refuse_tls r task1 w st1)
         else Some (sync_unexpected m task1 w st1))"

definition sync_turn ::
    "'b task_env \<Rightarrow> hislip_config \<Rightarrow> nat \<Rightarrow> (hislip_error, message) result \<Rightarrow> sync_task \<Rightarrow> writer \<Rightarrow> 'b hislip \<Rightarrow>
     'b sync_outcome option" where
  "sync_turn env cfg r incoming task w st =
     (case incoming of
        Inl e \<Rightarrow> Some (sync_error r e task w st)
      | Inr m \<Rightarrow> sync_message env cfg r m task w st)"

fun sync_loop ::
    "'b task_env list \<Rightarrow> hislip_config \<Rightarrow> nat \<Rightarrow> stream \<Rightarrow> sync_task \<Rightarrow> writer \<Rightarrow> 'b hislip \<Rightarrow>
     ((io_error, unit) result \<times> writer \<times> 'b hislip) option" where
  "sync_loop [] cfg r s task w st = None"
| "sync_loop (env # envs) cfg r s task w st =
     (let st1 = te_before env st
      in case read_from (hc_max_message_size cfg) s of
           Inl e \<Rightarrow> Some (Inl e, w, st1)
         | Inr (incoming, s1) \<Rightarrow>
             (case sync_turn env cfg r incoming task w st1 of
                None \<Rightarrow> None
              | Some (Continue, task1, w1, st2) \<Rightarrow> sync_loop envs cfg r s1 task1 w1 st2
              | Some (Finish, task1, w1, st2) \<Rightarrow> Some (Inr (), w1, st2)
              | Some (Broken e, task1, w1, st2) \<Rightarrow> Some (Inl e, w1, st2)))"

text \<open>The task that writes an error of the asynchronous channel to the synchronous one, and is gone after it.\<close>

definition sync_fatal_pusher :: "nat \<Rightarrow> writer \<Rightarrow> 'b hislip \<Rightarrow> writer \<times> 'b hislip" where
  "sync_fatal_pusher r w st =
     (case se_sync_queue (entry_at r st) of
        [] \<Rightarrow> (w, st)
      | (code, m) # rest \<Rightarrow>
          (snd (after_put (send_fatal code m w) Continue w),
           on_entry r (\<lambda>e. e\<lparr>se_sync_queue := rest, se_sync_open := False\<rparr>) st))"

section \<open>Opening the synchronous channel\<close>

text \<open>The search for a free session id walks the even numbers; it has been through all of them when the id wraps
  to zero.\<close>

function free_id :: "(u16 \<times> nat) list \<Rightarrow> nat \<Rightarrow> u16 option" where
  "free_id reg k =
     (if 32768 \<le> k then None
      else if map_of reg (of_nat (2 * k)) \<noteq> None then free_id reg (k + 1)
      else Some (of_nat (2 * k)))"
  by pat_completeness auto
termination
  by (relation "measure (\<lambda>(_, k). 32768 - k)") auto

declare free_id.simps [simp del]

definition subaddress :: "bytes \<Rightarrow> rstr option" where
  "subaddress payload =
     map_option (\<lambda>s. if s = [] then DEFAULT_SUBADDRESS else s) (from_utf8 payload)"

text \<open>What \<^verbatim>\<open>init_sync\<close> does before the session exists: a refusal, or the device and the id.\<close>

definition admit ::
    "hislip_config \<Rightarrow> (rstr \<Rightarrow> 'b device option) \<Rightarrow> message \<Rightarrow> 'b hislip \<Rightarrow>
     (fatal_error_code \<times> rstr, 'b device \<times> u16) result" where
  "admit cfg device_for init st =
     (case subaddress (msg_payload init) of
        None \<Rightarrow> Inl (InvalidInitialization, lit ''subaddress is not valid UTF-8'')
      | Some sub \<Rightarrow>
          (case device_for sub of
             None \<Rightarrow> Inl (InvalidInitialization, lit ''unknown subaddress: '' @ sub)
           | Some device \<Rightarrow>
               if hc_max_sessions cfg \<le> length (hs_registry st) then
                 Inl (MaximumClientsExceeded, lit ''too many active sessions'')
               else case free_id (hs_registry st) 0 of
                      None \<Rightarrow> Inl (MaximumClientsExceeded, lit ''out of session ids'')
                    | Some sid \<Rightarrow> Inr (device, sid)))"

definition register :: "hislip_config \<Rightarrow> message \<Rightarrow> 'b device \<Rightarrow> u16 \<Rightarrow> 'b hislip \<Rightarrow> nat \<times> 'b hislip" where
  "register cfg init device sid st =
     (let protocol = min SUPPORTED_PROTOCOL (client_protocol (msg_parameter init));
          e = new_entry sid protocol device (hc_max_message_size cfg) (prefers_overlapped (hc_modes cfg));
          r = length (hs_entries st)
      in (r, st\<lparr>hs_entries := hs_entries st @ [e], hs_registry := AList.update sid r (hs_registry st)\<rparr>))"

definition initialize_response :: "hislip_config \<Rightarrow> 'b session_entry \<Rightarrow> message" where
  "initialize_response cfg e =
     no_payload (message_params InitializeResponse
       (initialize_response_control (prefers_overlapped (hc_modes cfg)) False False)
       (initialize_response_parameter (se_protocol e) (se_id e)))"

text \<open>The end of a synchronous channel: the guard releases the locks of the session and removes its
  registration, and the receiving end of the error queue goes away.\<close>

definition drop_registration :: "nat \<Rightarrow> 'b hislip \<Rightarrow> 'b hislip" where
  "drop_registration r st =
     (let sid = se_id (entry_at r st)
      in on_entry r (\<lambda>e. e\<lparr>se_sync_open := False\<rparr>)
           (st\<lparr>hs_locks := release_all (hs_locks st) (hislip_id sid),
               hs_registry := AList.delete sid (hs_registry st)\<rparr>))"

definition init_sync ::
    "'b task_env list \<Rightarrow> hislip_config \<Rightarrow> (rstr \<Rightarrow> 'b device option) \<Rightarrow> message \<Rightarrow> stream \<Rightarrow> writer \<Rightarrow> 'b hislip \<Rightarrow>
     ((io_error, unit) result \<times> writer \<times> 'b hislip) option" where
  "init_sync envs cfg device_for init s w st =
     (case admit cfg device_for init st of
        Inl (code, text) \<Rightarrow>
          (case send_fatal code text w of
             Inl e \<Rightarrow> Some (Inl e, w, st)
           | Inr w1 \<Rightarrow> Some (Inr (), w1, st))
      | Inr (device, sid) \<Rightarrow>
          let (r, st1) = register cfg init device sid st
          in case put (initialize_response cfg (entry_at r st1)) w of
               Inl e \<Rightarrow> Some (Inl e, w, st1)
             | Inr w1 \<Rightarrow>
                 let st2 = on_entry r (\<lambda>e. e\<lparr>se_sync_taken := True\<rparr>) st1;
                     task = \<lparr>sy_buffer = [], sy_epoch = se_clear_epoch (entry_at r st2)\<rparr>
                 in map_option (\<lambda>(res, w2, st3). (res, w2, drop_registration r st3))
                      (sync_loop envs cfg r s task w1 st2))"

section \<open>Service requests\<close>

text \<open>One element of the schedule is the clock after a poll that found nothing and what happens on the bus until
  the next one.\<close>

fun poll_for_service_request ::
    "(nat \<times> ('b \<Rightarrow> 'b)) list \<Rightarrow> nat \<Rightarrow> 'b device \<Rightarrow> 'b \<Rightarrow> (u8 option \<times> 'b) option" where
  "poll_for_service_request [] deadline d b = None"
| "poll_for_service_request ((now, others) # sched) deadline d b =
     (case dv_get_status d b of
        (Inl e, b1) \<Rightarrow> Some (None, b1)
      | (Inr stb, b1) \<Rightarrow>
          if has_flag stb STB_RQS then Some (Some stb, b1)
          else case dv_srq_asserted d b1 of
                 (Inl e, b2) \<Rightarrow> Some (None, b2)
               | (Inr False, b2) \<Rightarrow> Some (None, b2)
               | (Inr True, b2) \<Rightarrow>
                   if now < deadline then poll_for_service_request sched deadline d (others b2)
                   else Some (None, b2))"

text \<open>One notification handled by the forwarder: its result tells whether the task goes on.\<close>

definition service_request_message :: "u8 \<Rightarrow> message" where
  "service_request_message stb = no_payload (message_params AsyncServiceRequest stb 0)"

definition srq_forward_one ::
    "(nat \<times> ('b \<Rightarrow> 'b)) list \<Rightarrow> nat \<Rightarrow> nat \<Rightarrow> writer \<Rightarrow> 'b hislip \<Rightarrow> (bool \<times> writer \<times> 'b hislip) option" where
  "srq_forward_one sched start r w st =
     (case poll_for_service_request sched (start + SRQ_RECHECK_BUDGET) (se_device (entry_at r st)) (hs_bus st) of
        None \<Rightarrow> None
      | Some (None, b) \<Rightarrow> Some (True, w, st\<lparr>hs_bus := b\<rparr>)
      | Some (Some stb, b) \<Rightarrow>
          let st1 = on_entry r (\<lambda>e. e\<lparr>se_consumed_stb := Some stb\<rparr>) (st\<lparr>hs_bus := b\<rparr>)
          in case put (service_request_message stb) w of
               Inl e \<Rightarrow> Some (False, w, st1)
             | Inr w1 \<Rightarrow> Some (True, w1, st1))"

text \<open>One element of the queue written by the pusher; \<^const>\<open>None\<close> while there is nothing to write.\<close>

definition push_message :: "async_push \<Rightarrow> message" where
  "push_message p =
     (case p of ServiceRequest stb \<Rightarrow> service_request_message stb
      | PushFatal code text \<Rightarrow> message_of_error (Fatal code text))"

definition async_pusher_one :: "nat \<Rightarrow> writer \<Rightarrow> 'b hislip \<Rightarrow> (bool \<times> writer \<times> 'b hislip) option" where
  "async_pusher_one r w st =
     (case se_async_queue (entry_at r st) of
        [] \<Rightarrow> None
      | p # rest \<Rightarrow>
          let st1 = on_entry r (\<lambda>e. e\<lparr>se_async_queue := rest\<rparr>) st
          in case put (push_message p) w of
               Inl e \<Rightarrow> Some (False, w, on_entry r (\<lambda>e. e\<lparr>se_async_open := False\<rparr>) st1)
             | Inr w1 \<Rightarrow> Some (True, w1, st1))"

section \<open>The asynchronous channel\<close>

text \<open>A lock request contends with the other sessions until it is granted or its deadline has passed, as
  \<^verbatim>\<open>LockRegistry::request\<close> does.\<close>

fun contend ::
    "(nat \<times> ('b hislip \<Rightarrow> 'b hislip)) list \<Rightarrow> rstr \<Rightarrow> holder_id \<Rightarrow> rstr \<Rightarrow> nat \<Rightarrow> 'b hislip \<Rightarrow>
     (lock_response \<times> 'b hislip) option" where
  "contend [] resource hid lock_string deadline st = None"
| "contend ((now, others) # sched) resource hid lock_string deadline st =
     (case try_request (hs_locks st) resource hid lock_string of
        (Some granted, locks') \<Rightarrow> Some (granted, st\<lparr>hs_locks := locks'\<rparr>)
      | (None, locks') \<Rightarrow>
          if deadline \<le> now then Some (Failure, st\<lparr>hs_locks := locks'\<rparr>)
          else contend sched resource hid lock_string deadline (others (st\<lparr>hs_locks := locks'\<rparr>)))"

definition lock_request :: "'b task_env \<Rightarrow> nat \<Rightarrow> message \<Rightarrow> 'b hislip \<Rightarrow> (lock_response \<times> 'b hislip) option" where
  "lock_request env r m st =
     contend (te_contend env) (se_resource (entry_at r st)) (session_holder (entry_at r st))
       (from_utf8_lossy (msg_payload m)) (te_now env + unat (msg_parameter m) * 1000000) st"

type_synonym 'b async_outcome = "flow \<times> writer \<times> 'b hislip"

text \<open>A turn that ends by writing one message.\<close>

definition answer :: "message \<Rightarrow> writer \<Rightarrow> 'b hislip \<Rightarrow> 'b async_outcome" where
  "answer m w st = (let (fl, w1) = after_put (put m w) Continue w in (fl, w1, st))"

definition reply_with :: "message_type \<Rightarrow> u8 \<Rightarrow> u32 \<Rightarrow> message" where
  "reply_with ty code parameter = no_payload (message_params ty code parameter)"

definition async_error :: "nat \<Rightarrow> hislip_error \<Rightarrow> writer \<Rightarrow> 'b hislip \<Rightarrow> 'b async_outcome" where
  "async_error r e w st =
     (let st1 = (case e of Fatal code m \<Rightarrow> on_entry r (mirror_fatal_to_sync code m) st | NonFatal _ _ \<Rightarrow> st);
          (fl, w1) = after_put (put (message_of_error e) w) (if is_fatal e then Finish else Continue) w
      in (fl, w1, st1))"

definition async_lock :: "'b task_env \<Rightarrow> nat \<Rightarrow> message \<Rightarrow> writer \<Rightarrow> 'b hislip \<Rightarrow> 'b async_outcome option" where
  "async_lock env r m w st =
     (case (if msg_control m \<noteq> 0 then lock_request env r m st
            else (case release (hs_locks st) (se_resource (entry_at r st)) (session_holder (entry_at r st)) of
                    (response, locks') \<Rightarrow> Some (response, st\<lparr>hs_locks := locks'\<rparr>))) of
        None \<Rightarrow> None
      | Some (response, st1) \<Rightarrow> Some (answer (reply_with AsyncLockResponse (control_code response) 0) w st1))"

definition async_lock_info :: "nat \<Rightarrow> writer \<Rightarrow> 'b hislip \<Rightarrow> 'b async_outcome" where
  "async_lock_info r w st =
     (case info (hs_locks st) (se_resource (entry_at r st)) of
        (excl, n) \<Rightarrow> answer (reply_with AsyncLockInfoResponse (if excl then 1 else 0) n) w st)"

definition async_max_size :: "hislip_config \<Rightarrow> nat \<Rightarrow> message \<Rightarrow> writer \<Rightarrow> 'b hislip \<Rightarrow> 'b async_outcome" where
  "async_max_size cfg r m w st =
     (if length (msg_payload m) \<noteq> 8 then
        (let (fl, w1) = after_put (send_fatal PoorlyFormattedMessageHeader
                          (lit ''AsyncMaximumMessageSize payload must be 8 bytes'') w) Finish w
         in (fl, w1, st))
      else answer (with_payload (message_params AsyncMaximumMessageSizeResponse 0 0) (be64 (hc_max_message_size cfg))) w
             (on_entry r (\<lambda>e. e\<lparr>se_client_max := of_be (msg_payload m)\<rparr>) st))"

definition async_clear :: "'b task_env \<Rightarrow> hislip_config \<Rightarrow> nat \<Rightarrow> writer \<Rightarrow> 'b hislip \<Rightarrow> 'b async_outcome option" where
  "async_clear env cfg r w st =
     (case await_access (te_waits env) r st of
        None \<Rightarrow> None
      | Some st1 \<Rightarrow>
          let st2 = on_entry r (\<lambda>e. e\<lparr>se_clear_epoch := se_clear_epoch e + 1\<rparr>) st1;
              st3 = te_meanwhile env (snd (on_bus (dv_clear (se_device (entry_at r st))) st2))
          in Some (answer (reply_with AsyncDeviceClearAcknowledge
                            (feature_bitmap (prefers_overlapped (hc_modes cfg)) False False) 0) w st3))"

text \<open>Two steps on the bus, the second only after a success of the first.\<close>

definition then_bus :: "('b \<Rightarrow> unit io \<times> 'b) \<Rightarrow> ('b \<Rightarrow> unit io \<times> 'b) \<Rightarrow> 'b \<Rightarrow> unit io \<times> 'b" where
  "then_bus f g b = (case f b of (Inr _, b1) \<Rightarrow> g b1 | (Inl e, b1) \<Rightarrow> (Inl e, b1))"

definition remote_local :: "u8 \<Rightarrow> 'b device \<Rightarrow> ('b \<Rightarrow> unit io \<times> 'b) option" where
  "remote_local code d =
     (if code = 0 then Some (dv_set_remote d False)
      else if code = 1 then Some (dv_set_remote d True)
      else if code = 2 then Some (then_bus (dv_go_to_local d) (dv_set_remote d False))
      else if code = 3 then Some (dv_go_to_remote d)
      else if code = 4 then Some (then_bus (dv_set_remote d True) (dv_local_lockout d))
      else if code = 5 then Some (then_bus (dv_go_to_remote d) (dv_local_lockout d))
      else if code = 6 then Some (dv_go_to_local d)
      else None)"

definition async_remote_local :: "nat \<Rightarrow> message \<Rightarrow> writer \<Rightarrow> 'b hislip \<Rightarrow> 'b async_outcome" where
  "async_remote_local r m w st =
     (case remote_local (msg_control m) (se_device (entry_at r st)) of
        None \<Rightarrow>
          (let (fl, w1) = after_put (send_nonfatal UnrecognizedControlCode
                            (lit ''unknown remote/local code '' @ dec (unat (msg_control m))) w) Continue w
           in (fl, w1, st))
      | Some f \<Rightarrow> answer (reply_with AsyncRemoteLocalResponse 0 0) w (snd (on_bus f st)))"

definition status_byte :: "u8 io \<Rightarrow> u32 \<Rightarrow> 'b session_entry \<Rightarrow> u8" where
  "status_byte polled message_id e =
     (let live = (case polled of Inr stb \<Rightarrow> stb | Inl _ \<Rightarrow> 0);
          stb = (if live = 0 then (case se_consumed_stb e of Some c \<Rightarrow> c | None \<Rightarrow> live) else live)
      in (stb AND NOT STB_MAV) OR mav_bit message_id e)"

definition async_status :: "'b task_env \<Rightarrow> nat \<Rightarrow> message \<Rightarrow> writer \<Rightarrow> 'b hislip \<Rightarrow> 'b async_outcome" where
  "async_status env r m w st =
     (let (polled, st0) = on_bus (dv_get_status (se_device (entry_at r st))) st;
          st1 = te_meanwhile env st0;
          stb = status_byte polled (msg_parameter m) (entry_at r st1)
      in answer (reply_with AsyncStatusResponse stb 0) w (on_entry r take_consumed_stb st1))"

definition async_refuse_tls :: "writer \<Rightarrow> 'b hislip \<Rightarrow> 'b async_outcome" where
  "async_refuse_tls w st =
     (let (fl, w1) = after_put (send_fatal SecureConnectionFailed (lit ''TLS not supported'') w) Finish w in (fl, w1, st))"

definition async_unexpected :: "message \<Rightarrow> writer \<Rightarrow> 'b hislip \<Rightarrow> 'b async_outcome" where
  "async_unexpected m w st =
     (let (fl, w1) = after_put (send_nonfatal UnrecognizedMessageType
                       (lit ''unexpected async message: '' @ debug_message_type (msg_type m)) w) Continue w
      in (fl, w1, st))"

definition async_message ::
    "'b task_env \<Rightarrow> hislip_config \<Rightarrow> nat \<Rightarrow> message \<Rightarrow> writer \<Rightarrow> 'b hislip \<Rightarrow> 'b async_outcome option" where
  "async_message env cfg r m w st =
     (let ty = msg_type m
      in if ty = AsyncLock then async_lock env r m w st
         else if ty = AsyncLockInfo then Some (async_lock_info r w st)
         else if ty = AsyncMaximumMessageSize then Some (async_max_size cfg r m w st)
         else if ty = AsyncDeviceClear then async_clear env cfg r w st
         else if ty = AsyncRemoteLocalControl then Some (async_remote_local r m w st)
         else if ty = AsyncStatusQuery then Some (async_status env r m w st)
         else if (ty = AsyncStartTLS \<or> ty = AsyncEndTLS) \<and> PROTOCOL_2_0 \<le> se_protocol (entry_at r st) then
           Some (async_refuse_tls w st)
         else if ty = FatalError then Some (Finish, w, st)
         else if ty = Error then Some (Continue, w, st)
         else Some (async_unexpected m w st))"

definition async_turn ::
    "'b task_env \<Rightarrow> hislip_config \<Rightarrow> nat \<Rightarrow> (hislip_error, message) result \<Rightarrow> writer \<Rightarrow> 'b hislip \<Rightarrow>
     'b async_outcome option" where
  "async_turn env cfg r incoming w st =
     (case incoming of
        Inl e \<Rightarrow> Some (async_error r e w st)
      | Inr m \<Rightarrow> async_message env cfg r m w st)"

fun async_turns ::
    "'b task_env list \<Rightarrow> hislip_config \<Rightarrow> nat \<Rightarrow> stream \<Rightarrow> writer \<Rightarrow> 'b hislip \<Rightarrow>
     ((io_error, unit) result \<times> writer \<times> 'b hislip) option" where
  "async_turns [] cfg r s w st = None"
| "async_turns (env # envs) cfg r s w st =
     (let st1 = te_before env st
      in case read_from (hc_max_message_size cfg) s of
           Inl e \<Rightarrow> Some (Inl e, w, st1)
         | Inr (incoming, s1) \<Rightarrow>
             (case async_turn env cfg r incoming w st1 of
                None \<Rightarrow> None
              | Some (Continue, w1, st2) \<Rightarrow> async_turns envs cfg r s1 w1 st2
              | Some (Finish, w1, st2) \<Rightarrow> Some (Inr (), w1, st2)
              | Some (Broken e, w1, st2) \<Rightarrow> Some (Inl e, w1, st2)))"

text \<open>The loop takes the receiving end of the push queue if nobody has, and drops it at its end.\<close>

definition async_loop ::
    "'b task_env list \<Rightarrow> hislip_config \<Rightarrow> nat \<Rightarrow> stream \<Rightarrow> writer \<Rightarrow> 'b hislip \<Rightarrow>
     ((io_error, unit) result \<times> writer \<times> 'b hislip) option" where
  "async_loop envs cfg r s w st =
     (let mine = \<not> se_async_taken (entry_at r st)
      in map_option (\<lambda>(res, w1, st1).
             (res, w1, if mine then on_entry r (\<lambda>e. e\<lparr>se_async_open := False\<rparr>) st1 else st1))
           (async_turns envs cfg r s w (on_entry r (\<lambda>e. e\<lparr>se_async_taken := True\<rparr>) st)))"

definition async_initialize_response :: "hislip_config \<Rightarrow> message" where
  "async_initialize_response cfg =
     no_payload (message_params AsyncInitializeResponse (async_initialize_response_control False)
       (async_initialize_response_parameter (hc_vendor_id cfg)))"

definition init_async ::
    "'b task_env list \<Rightarrow> hislip_config \<Rightarrow> message \<Rightarrow> stream \<Rightarrow> writer \<Rightarrow> 'b hislip \<Rightarrow>
     ((io_error, unit) result \<times> writer \<times> 'b hislip) option" where
  "init_async envs cfg init s w st =
     (let sid = ucast (msg_parameter init) :: u16;
          refuse = (\<lambda>text. case send_fatal InvalidInitialization text w of
                            Inl e \<Rightarrow> Some (Inl e, w, st) | Inr w1 \<Rightarrow> Some (Inr (), w1, st))
      in case map_of (hs_registry st) sid of
           None \<Rightarrow> refuse (lit ''unknown session id '' @ dec (unat sid))
         | Some r \<Rightarrow>
             if se_async_bound (entry_at r st) then refuse (lit ''async channel already bound for this session'')
             else
               let st1 = on_entry r (\<lambda>e. e\<lparr>se_async_bound := True\<rparr>) st
               in case put (async_initialize_response cfg) w of
                    Inl e \<Rightarrow> Some (Inl e, w, st1)
                  | Inr w1 \<Rightarrow> async_loop envs cfg r s w1 st1)"

section \<open>Connections\<close>

definition handle_connection ::
    "'b task_env list \<Rightarrow> hislip_config \<Rightarrow> (rstr \<Rightarrow> 'b device option) \<Rightarrow> stream \<Rightarrow> writer \<Rightarrow> 'b hislip \<Rightarrow>
     ((io_error, unit) result \<times> writer \<times> 'b hislip) option" where
  "handle_connection envs cfg device_for s w st =
     (case read_from (hc_max_message_size cfg) s of
        Inl e \<Rightarrow> Some (Inl e, w, st)
      | Inr (Inl e, _) \<Rightarrow>
          (case put (message_of_error e) w of Inl x \<Rightarrow> Some (Inl x, w, st) | Inr w1 \<Rightarrow> Some (Inr (), w1, st))
      | Inr (Inr first, s1) \<Rightarrow>
          if msg_type first = Initialize then init_sync envs cfg device_for first s1 w st
          else if msg_type first = AsyncInitialize then init_async envs cfg first s1 w st
          else case send_fatal InvalidInitialization
                      (lit ''first message must be (Async)Initialize, got '' @ debug_message_type (msg_type first)) w of
                 Inl x \<Rightarrow> Some (Inl x, w, st)
               | Inr w1 \<Rightarrow> Some (Inr (), w1, st))"

end
