(* ===== verification/Hislip_Instrument.thy ===== *)
theory Hislip_Instrument
  imports Hislip_Server
begin

text \<open>
  The instrument behind a HiSLIP session, \<^verbatim>\<open>src/src/hislip/instrument.rs\<close>: a command is written, the instrument
  is asked whether it has anything to say, its reply is read, and a service request raised on the way is
  noticed. The whole of \<^verbatim>\<open>execute\<close> is one tenure of the bus.
\<close>

section \<open>Commands\<close>

text \<open>Whether the subscription taken at the start has fired: a notification arrived, and there was a subscription.\<close>

definition srq_fired :: "bool \<Rightarrow> bool \<Rightarrow> bool" where
  "srq_fired subscribed fired \<longleftrightarrow> subscribed \<and> fired"

text \<open>The part before the read. \<^const>\<open>Inl\<close> is the return without a read, \<^const>\<open>Inr\<close> goes on to read; both carry
  the service request found so far.\<close>

definition before_read :: "'b backend_ops \<Rightarrow> u8 \<Rightarrow> bool \<Rightarrow> 'b \<Rightarrow> (u8 option + u8 option) \<times> 'b" where
  "before_read ops pad expect_response b =
     (if \<not> expect_response then
        (case op_serial_poll ops pad b of
           (Inr stb, b1) \<Rightarrow>
             let service_request = (if has_flag stb STB_RQS then Some stb else None)
             in if has_flag stb STB_MAV then (Inr service_request, b1) else (Inl service_request, b1)
         | (Inl e, b1) \<Rightarrow> (Inl None, b1))
      else
        (case op_srq_asserted ops b of
           (Inr True, b1) \<Rightarrow>
             (case op_serial_poll ops pad b1 of
                (Inr stb, b2) \<Rightarrow> (Inr (if has_flag stb STB_RQS then Some stb else None), b2)
              | (Inl e, b2) \<Rightarrow> (Inr None, b2))
         | (_, b1) \<Rightarrow> (Inr None, b1)))"

text \<open>The read and what it says about a request that was raised meanwhile.\<close>

definition read_reply ::
    "'b backend_ops \<Rightarrow> u8 \<Rightarrow> bool \<Rightarrow> u8 option \<Rightarrow> 'b \<Rightarrow> execution io \<times> 'b" where
  "read_reply ops pad fired service_request b =
     (case held_read ops pad MAX_READ b of
        (Inl e, b1) \<Rightarrow> (Inl e, b1)
      | (Inr (d, ended), b1) \<Rightarrow>
          if d = [] \<and> \<not> ended then (Inl (lit ''instrument returned no data (is the query supported?)''), b1)
          else if service_request = None \<and> d \<noteq> [] \<and> fired then
            (case op_srq_asserted ops b1 of
               (Inr False, b2) \<Rightarrow> (Inr \<lparr>ex_data = Some d, ex_service_request = Some (STB_RQS OR STB_MAV)\<rparr>, b2)
             | (_, b2) \<Rightarrow> (Inr \<lparr>ex_data = Some d, ex_service_request = None\<rparr>, b2))
          else (Inr \<lparr>ex_data = Some d, ex_service_request = service_request\<rparr>, b1))"

definition execute :: "'b backend_ops \<Rightarrow> u8 \<Rightarrow> bool \<Rightarrow> bytes \<Rightarrow> bool \<Rightarrow> 'b \<Rightarrow> execution io \<times> 'b" where
  "execute ops pad fired cmd expect_response b =
     (let subscribed = op_can_subscribe_srq ops b
      in case op_write ops pad cmd True b of
           (Inl e, b1) \<Rightarrow> (Inl e, b1)
         | (Inr _, b1) \<Rightarrow>
             (case before_read ops pad expect_response b1 of
                (Inl service_request, b2) \<Rightarrow> (Inr \<lparr>ex_data = None, ex_service_request = service_request\<rparr>, b2)
              | (Inr service_request, b2) \<Rightarrow> read_reply ops pad (srq_fired subscribed fired) service_request b2))"

definition gpib_instrument :: "'b backend_ops \<Rightarrow> u8 \<Rightarrow> 'b device" where
  "gpib_instrument ops pad =
     \<lparr>dv_execute = execute ops pad, dv_trigger = op_trigger ops pad, dv_clear = op_device_clear ops pad,
      dv_set_remote = op_ren ops, dv_go_to_remote = op_go_to_remote ops pad, dv_go_to_local = op_go_to_local ops pad,
      dv_local_lockout = op_local_lockout ops, dv_get_status = op_serial_poll ops pad,
      dv_can_srq = op_can_subscribe_srq ops, dv_srq_asserted = op_srq_asserted ops,
      dv_resource_key = resource_key pad\<rparr>"

text \<open>How the daemon resolves a subaddress: every one names an instrument, the default one unless it names another.\<close>

definition device_for :: "'b backend_ops \<Rightarrow> u8 \<Rightarrow> rstr \<Rightarrow> 'b device option" where
  "device_for ops default_pad subaddr =
     Some (gpib_instrument ops (case parse_subaddress_pad subaddr of Some pad \<Rightarrow> pad | None \<Rightarrow> default_pad))"

end
