(* ===== verification/Hislip_Laws.thy ===== *)
theory Hislip_Laws
  imports Hislip_Instrument Scripted_Bus
begin

text \<open>
  What the HiSLIP front-end promises about command texts, replies and the lock gate, and the two ways in which its
  message framing lets go of the stream.
\<close>

section \<open>Command texts\<close>

definition is_quote :: "u8 \<Rightarrow> bool" where
  "is_quote b \<longleftrightarrow> b = 0x22 \<or> b = 0x27"

text \<open>A command without its string literals, literal by literal: an opening quote takes everything up to the next
  quote of its kind with it, or the rest of the command when there is none.\<close>

function strip_literals :: "bytes \<Rightarrow> bytes" where
  "strip_literals bs =
     (case dropWhile (\<lambda>b. \<not> is_quote b) bs of
        [] \<Rightarrow> bs
      | q # rest \<Rightarrow>
          takeWhile (\<lambda>b. \<not> is_quote b) bs @ strip_literals (drop 1 (dropWhile (\<lambda>b. b \<noteq> q) rest)))"
  by pat_completeness auto
termination
proof (relation "measure length")
  fix bs q rest
  assume "dropWhile (\<lambda>b. \<not> is_quote b) bs = q # rest"
  then have "length (q # rest) \<le> length bs"
    by (metis length_dropWhile_le)
  moreover have "length (drop 1 (dropWhile (\<lambda>b. b \<noteq> q) rest)) \<le> length rest"
    by (metis diff_le_self le_trans length_drop length_dropWhile_le)
  ultimately show "(drop 1 (dropWhile (\<lambda>b. b \<noteq> q) rest), bs) \<in> measure length"
    by simp
qed simp

declare strip_literals.simps [simp del]

lemma query_scan_quoted: "query_scan (Some q) bs = query_scan None (drop 1 (dropWhile (\<lambda>b. b \<noteq> q) bs))"
  by (induction bs) auto

lemma query_scan_plain:
  "query_scan None bs \<longleftrightarrow> 0x3F \<in> set (takeWhile (\<lambda>b. \<not> is_quote b) bs) \<or>
     (case dropWhile (\<lambda>b. \<not> is_quote b) bs of [] \<Rightarrow> False | q # rest \<Rightarrow> query_scan (Some q) rest)"
  by (induction bs) (auto simp: is_quote_def)

lemma query_scan_strip: "query_scan None bs \<longleftrightarrow> 0x3F \<in> set (strip_literals bs)"
proof (induction bs rule: strip_literals.induct)
  case (1 bs)
  show ?case
  proof (cases "dropWhile (\<lambda>b. \<not> is_quote b) bs")
    case Nil
    then have whole: "takeWhile (\<lambda>b. \<not> is_quote b) bs = bs"
      by (metis append_Nil2 takeWhile_dropWhile_id)
    show ?thesis
      unfolding query_scan_plain[of bs] strip_literals.simps[of bs] Nil whole by simp
  next
    case (Cons q rest)
    with 1 show ?thesis
      by (simp add: query_scan_plain[of bs] strip_literals.simps[of bs] query_scan_quoted)
  qed
qed

section \<open>Subaddresses\<close>

lemma parse_subaddress_bound: "parse_subaddress_pad s = Some p \<Longrightarrow> p \<le> 30"
  by (auto simp: parse_subaddress_pad_def Let_def split: if_splits option.splits)

section \<open>Replies\<close>

lemma put_Inr: "put m w = Inr w' \<longleftrightarrow> 0 < wr_left w \<and> w' = \<lparr>wr_sent = wr_sent w @ [m], wr_left = wr_left w - 1\<rparr>"
  by (auto simp: put_def)

text \<open>The identifiers of the messages of a reply.\<close>

fun reply_ids :: "u32 \<Rightarrow> 'b session_entry \<Rightarrow> nat \<Rightarrow> u32 list" where
  "reply_ids request_id e 0 = []"
| "reply_ids request_id e (Suc n) =
     (case response_message_id request_id e of (mid, e1) \<Rightarrow> mid # reply_ids request_id e1 n)"

definition after_reply :: "nat \<Rightarrow> 'b session_entry \<Rightarrow> 'b session_entry" where
  "after_reply n e = (if se_overlapped e then e\<lparr>se_next_server_id := se_next_server_id e + of_nat (2 * n)\<rparr> else e)"

lemma after_reply_fields [simp]:
  "se_overlapped (after_reply n e) = se_overlapped e" "se_last_message_id (after_reply n e) = se_last_message_id e"
  "se_mav (after_reply n e) = se_mav e"
  by (simp_all add: after_reply_def)

lemma raise_fields [simp]:
  "se_overlapped (raise_service_request stb e) = se_overlapped e"
  "se_last_message_id (raise_service_request stb e) = se_last_message_id e"
  "se_mav (raise_service_request stb e) = se_mav e" "se_next_server_id (raise_service_request stb e) = se_next_server_id e"
  by (simp_all add: raise_service_request_def async_send_def)

lemma after_reply_Suc: "after_reply n (snd (response_message_id rid e)) = after_reply (Suc n) e"
  by (simp add: after_reply_def response_message_id_def algebra_simps)

lemma reply_ids_nth:
  "i < n \<Longrightarrow> reply_ids rid e n ! i = (if se_overlapped e then se_next_server_id e + of_nat (2 * i) else rid)"
proof (induction n arbitrary: e i)
  case (Suc n)
  then show ?case
    by (cases i) (auto simp: response_message_id_def split: prod.splits)
qed simp

lemma length_reply_ids [simp]: "length (reply_ids rid e n) = n"
  by (induction n arbitrary: e) (auto split: prod.splits)

text \<open>The messages of a reply cut into \<open>cs\<close>.\<close>

fun reply_messages :: "bytes list \<Rightarrow> u32 list \<Rightarrow> message list" where
  "reply_messages (c # cs) (i # is) =
     with_payload (message_params (if cs = [] then DataEnd else Data) 0 i) c # reply_messages cs is"
| "reply_messages _ _ = []"

lemma write_chunks_ok:
  "length cs \<le> wr_left w \<Longrightarrow>
   write_chunks rid cs e w =
     (Inr \<lparr>wr_sent = wr_sent w @ reply_messages cs (reply_ids rid e (length cs)), wr_left = wr_left w - length cs\<rparr>,
      after_reply (length cs) e)"
proof (induction cs arbitrary: e w)
  case Nil
  then show ?case by (simp add: after_reply_def)
next
  case (Cons c cs)
  obtain mid e1 where mid: "response_message_id rid e = (mid, e1)"
    by (cases "response_message_id rid e")
  have "after_reply (length cs) e1 = after_reply (length (c # cs)) e"
    using after_reply_Suc[of "length cs" rid e] by (simp add: mid)
  with Cons show ?case
    by (simp add: mid put_def)
qed

lemma write_chunks_short:
  "wr_left w < length cs \<Longrightarrow> fst (write_chunks rid cs e w) = Inl broken_pipe"
proof (induction cs arbitrary: e w)
  case (Cons c cs)
  then show ?case
    by (auto simp: put_def split: prod.splits)
qed simp

text \<open>The pieces a reply is cut into; an empty reply is one empty piece.\<close>

definition reply_pieces :: "bytes \<Rightarrow> 'b session_entry \<Rightarrow> bytes list" where
  "reply_pieces d e = (if d = [] then [[]] else chunks (response_chunk e) d)"

lemma write_response_pieces: "write_response rid d e w = write_chunks rid (reply_pieces d e) e w"
proof (cases "d = []")
  case True
  then show ?thesis
    by (auto simp: write_response_def reply_pieces_def no_payload_def with_payload_def message_params_def
        split: prod.splits sum.splits)
qed (simp add: write_response_def reply_pieces_def)

lemma response_chunk_pos: "response_chunk e \<noteq> 0"
  by (simp add: response_chunk_def)

lemma reply_pieces_concat: "concat (reply_pieces d e) = d"
  by (simp add: reply_pieces_def concat_chunks response_chunk_pos)

lemma reply_pieces_bound: "c \<in> set (reply_pieces d e) \<Longrightarrow> length c \<le> response_chunk e"
  using chunks_bounds[OF response_chunk_pos] by (auto simp: reply_pieces_def split: if_splits)

lemma reply_pieces_nonempty: "reply_pieces d e \<noteq> []"
  by (simp add: reply_pieces_def response_chunk_pos)

lemma reply_messages_length: "length cs = length is \<Longrightarrow> length (reply_messages cs is) = length cs"
  by (induction cs "is" rule: list_induct2) simp_all

lemma reply_messages_nth:
  "length cs = length is \<Longrightarrow> i < length cs \<Longrightarrow>
   reply_messages cs is ! i = with_payload (message_params (if Suc i = length cs then DataEnd else Data) 0 (is ! i)) (cs ! i)"
proof (induction cs "is" arbitrary: i rule: list_induct2)
  case (Cons c cs j "is")
  then show ?case by (cases i) auto
qed simp

lemma length_write_to: "length (write_to m) = MESSAGE_HEADER_SIZE + length (msg_payload m)"
  by (simp add: write_to_def)

lemma write_response_whole:
  assumes "length (reply_pieces d e) \<le> wr_left w"
  shows "\<exists>ms w'. write_response rid d e w = (Inr w', after_reply (length ms) e) \<and> wr_sent w' = wr_sent w @ ms \<and>
     concat (map msg_payload ms) = d \<and> ms \<noteq> [] \<and>
     (\<forall>i<length ms. msg_type (ms ! i) = (if Suc i = length ms then DataEnd else Data) \<and>
        length (write_to (ms ! i)) \<le> max (unat (se_client_max e)) 272 \<and>
        msg_parameter (ms ! i) = (if se_overlapped e then se_next_server_id e + of_nat (2 * i) else rid))"
proof -
  let ?cs = "reply_pieces d e" and ?n = "length (reply_pieces d e)"
  let ?ms = "reply_messages ?cs (reply_ids rid e ?n)"
  have len: "length ?ms = ?n"
    by (simp add: reply_messages_length)
  have nth: "?ms ! i = with_payload (message_params (if Suc i = ?n then DataEnd else Data) 0
      (reply_ids rid e ?n ! i)) (?cs ! i)" if "i < ?n" for i
    using that by (simp add: reply_messages_nth)
  have "map msg_payload ?ms = ?cs"
    by (rule nth_equalityI) (simp_all add: len nth with_payload_def)
  then have "concat (map msg_payload ?ms) = d"
    by (simp add: reply_pieces_concat)
  moreover have "length (write_to (?ms ! i)) \<le> max (unat (se_client_max e)) 272" if "i < ?n" for i
    using reply_pieces_bound[OF nth_mem[OF that]] that
    by (simp add: length_write_to nth with_payload_def response_chunk_def)
  moreover have "?ms \<noteq> []"
    using len reply_pieces_nonempty[of d e] by auto
  moreover have "write_response rid d e w =
      (Inr \<lparr>wr_sent = wr_sent w @ ?ms, wr_left = wr_left w - ?n\<rparr>, after_reply ?n e)"
    using assms by (simp add: write_response_pieces write_chunks_ok)
  ultimately show ?thesis
    by (auto simp: len nth reply_ids_nth with_payload_def message_params_def intro!: exI[of _ ?ms])
qed

lemma length_chunks: "n \<noteq> 0 \<Longrightarrow> length (chunks n xs) \<le> length xs"
proof (induction n xs rule: chunks.induct)
  case (1 n xs)
  show ?case
  proof (cases "xs = []")
    case False
    with 1 have "length (chunks n (drop n xs)) \<le> length xs - n" by simp
    also have "\<dots> < length xs" using False 1(2) by simp
    finally show ?thesis using False 1(2) by (simp add: chunks_step Suc_le_eq)
  qed simp
qed

lemma reply_pieces_few: "length (reply_pieces d e) \<le> Suc (length d)"
  using length_chunks[OF response_chunk_pos, of e d] by (simp add: reply_pieces_def)

section \<open>The lock gate\<close>

lemma await_access_Some:
  "await_access sched r st = Some st1 \<Longrightarrow> session_has_access r st1"
  by (induction sched r st rule: await_access.induct) (auto split: if_splits)

lemma await_access_now: "session_has_access r st \<Longrightarrow> await_access sched r st = Some st"
  by (cases sched) auto

lemma await_access_keeps:
  assumes "\<And>f st. f \<in> set sched \<Longrightarrow> P st \<Longrightarrow> P (f st)" "\<And>st. P st \<Longrightarrow> \<not> session_has_access r st" "P st"
  shows "await_access sched r st = None"
  using assms by (induction sched arbitrary: st) auto

text \<open>Parking on the whole server is parking on its locks when the others only touch the locks.\<close>

lemma entry_at_locks [simp]:
  "entry_at r (st\<lparr>hs_locks := l\<rparr>) = entry_at r st" "entry_at r (st\<lparr>hs_bus := b\<rparr>) = entry_at r st"
  by (simp_all add: entry_at_def)

lemma await_access_locks:
  "await_access (map (\<lambda>f st. st\<lparr>hs_locks := f (hs_locks st)\<rparr>) sched) r st =
     map_option (\<lambda>l. st\<lparr>hs_locks := l\<rparr>)
       (wait_for_access sched (se_resource (entry_at r st)) (session_holder (entry_at r st)) (hs_locks st))"
proof (induction sched arbitrary: st)
  case (Cons f sched)
  show ?case
    by (simp add: session_has_access_def Cons.IH[of "st\<lparr>hs_locks := f (hs_locks st)\<rparr>"])
qed (simp add: session_has_access_def)

lemma contend_locks:
  "contend (map (\<lambda>(now, f). (now, \<lambda>st. st\<lparr>hs_locks := f (hs_locks st)\<rparr>)) sched) resource hid ls deadline st =
     map_option (\<lambda>(g, l). (g, st\<lparr>hs_locks := l\<rparr>)) (request_loop sched resource hid ls deadline (hs_locks st))"
proof (induction sched arbitrary: st)
  case (Cons a sched)
  obtain now f where a: "a = (now, f)" by (cases a)
  obtain g l where g: "try_request (hs_locks st) resource hid ls = (g, l)"
    by (cases "try_request (hs_locks st) resource hid ls")
  show ?case
    using Cons.IH[of "st\<lparr>hs_locks := f l\<rparr>"] by (cases g) (simp_all add: a g)
qed simp

section \<open>Properties\<close>

text \<open>C38. The query test of the server is the textbook one: a command is taken for a query exactly when a
  question mark is left after its string literals have been cut out one after the other, where a literal
  without its closing quote extends to the end of the command.\<close>

theorem query_hint_reference: "query_hint cmd \<longleftrightarrow> 0x3F \<in> set (strip_literals cmd)"
  by (simp add: query_hint_def query_scan_strip)


definition demo_instrument :: "scripted device" where
  "demo_instrument = gpib_instrument scripted_ops 5"

definition demo_entry :: "scripted session_entry" where
  "demo_entry = new_entry 0 PROTOCOL_2_0 demo_instrument 1048576 False"

definition quiet_env :: "'b task_env" where
  "quiet_env = \<lparr>te_before = \<lambda>st. st, te_waits = [], te_now = 0, te_contend = [(0, \<lambda>st. st)], te_meanwhile = \<lambda>st. st, te_fired = False\<rparr>"

definition demo_hislip :: "scripted hislip" where
  "demo_hislip = \<lparr>hs_entries = [demo_entry], hs_registry = [(0, 0)], hs_locks = new_registry, hs_bus = scripted0\<rparr>"

definition demo_task :: sync_task where
  "demo_task = \<lparr>sy_buffer = [], sy_epoch = 0\<rparr>"


text \<open>Two holes in the framing. A message that announces more than the server accepts is answered with a
  non-fatal error, but its payload stays in the stream: the loop goes on and takes the payload for messages, so
  whoever controls the payload controls the session. And a connection that ends inside a payload yields
  the message with the truncated payload, as if it had been sent like that.\<close>

theorem framing_lets_go:
  assumes "type_ok (msg_type big)" "unat (hc_max_message_size cfg) < length (msg_payload big)"
    "length (msg_payload big) \<le> isize_max" "0 < wr_left w"
    and "msg_payload big = write_to m @ rest" "message_ok (hc_max_message_size cfg) m"
    and "type_ok (msg_type t)" "length p < unat len" "len \<le> hc_max_message_size cfg" "unat len \<le> isize_max"
  shows "(\<exists>w1. sync_loop (env # envs) cfg r (feed (write_to big) s) task w st =
            sync_loop envs cfg r (feed (write_to m) (feed rest s)) task w1 (te_before env st)) \<and>
     read_from (hc_max_message_size cfg) (feed (write_to m) (feed rest s)) = Inr (Inr m, feed rest s) \<and>
     read_from (hc_max_message_size cfg) (feed (message_header t len) \<lparr>pending = p, broken = None\<rparr>) =
       Inr (Inr (t\<lparr>msg_payload := p\<rparr>), \<lparr>pending = [], broken = None\<rparr>)"
proof (intro conjI)
  have "hc_max_message_size cfg < of_nat (length (msg_payload big))"
    using assms(2,3) payload_length[of "msg_payload big"] by (simp add: word_less_nat_alt)
  then have "read_from (hc_max_message_size cfg) (feed (write_to big) s) =
      Inr (Inl (NonFatal MessageTooLarge (lit ''message payload too large'')), feed (msg_payload big) s)"
    by (simp add: write_to_feed read_from_header[OF assms(1)])
  then show "\<exists>w1. sync_loop (env # envs) cfg r (feed (write_to big) s) task w st =
      sync_loop envs cfg r (feed (write_to m) (feed rest s)) task w1 (te_before env st)"
    using assms(4) by (simp add: sync_turn_def sync_error_def after_put_def put_def assms(5)) (rule exI, rule refl)
  show "read_from (hc_max_message_size cfg) (feed (write_to m) (feed rest s)) = Inr (Inr m, feed rest s)"
    by (rule read_from_write_to[OF assms(6)])
  show "read_from (hc_max_message_size cfg) (feed (message_header t len) \<lparr>pending = p, broken = None\<rparr>) =
       Inr (Inr (t\<lparr>msg_payload := p\<rparr>), \<lparr>pending = [], broken = None\<rparr>)"
    using assms(8-10) by (simp add: read_from_header[OF assms(7)] read_to_limit_def)
qed

definition demo_trigger :: message where
  "demo_trigger = \<lparr>msg_type = Trigger, msg_control = 0, msg_parameter = 9, msg_payload = []\<rparr>"

theorem framing_lets_go_witness:
  "\<exists>big w1. length (msg_payload big) = 17 \<and>
     sync_loop [quiet_env, quiet_env] \<lparr>hc_vendor_id = 0, hc_max_message_size = 16, hc_max_sessions = 1, hc_modes = Synchronized\<rparr> 0
       (feed (write_to big) \<lparr>pending = [], broken = None\<rparr>) demo_task \<lparr>wr_sent = [], wr_left = 1\<rparr> demo_hislip =
     sync_loop [quiet_env] \<lparr>hc_vendor_id = 0, hc_max_message_size = 16, hc_max_sessions = 1, hc_modes = Synchronized\<rparr> 0
       (feed (write_to demo_trigger) \<lparr>pending = [0], broken = None\<rparr>) demo_task w1 demo_hislip"
proof -
  let ?cfg = "\<lparr>hc_vendor_id = 0, hc_max_message_size = 16, hc_max_sessions = 1, hc_modes = Synchronized\<rparr>"
  let ?big = "\<lparr>msg_type = Data, msg_control = 0, msg_parameter = 0, msg_payload = write_to demo_trigger @ [0]\<rparr>"
  have len: "length (msg_payload ?big) = 17"
    by (simp add: length_write_to demo_trigger_def)
  have "type_ok Data" "message_ok 16 demo_trigger"
    by code_simp+
  moreover have "17 \<le> isize_max" "unat (1 :: u64) \<le> isize_max"
    by (simp_all add: isize_max_def)
  ultimately show ?thesis
    using framing_lets_go[of ?big ?cfg "\<lparr>wr_sent = [], wr_left = 1\<rparr>" demo_trigger "[0]" ?big "[]" 1 quiet_env "[quiet_env]" 0
        "\<lparr>pending = [], broken = None\<rparr>" demo_task demo_hislip] len
    by (auto simp: feed_def quiet_env_def intro!: exI[of _ ?big])
qed

section \<open>Commands\<close>

lemma entry_at_on [simp]:
  "r < length (hs_entries st) \<Longrightarrow> entry_at r (on_entry r f st) = f (entry_at r st)"
  by (simp add: on_entry_def entry_at_def)

lemma on_entry_fields [simp]:
  "hs_locks (on_entry r f st) = hs_locks st" "hs_bus (on_entry r f st) = hs_bus st"
  "length (hs_entries (on_entry r f st)) = length (hs_entries st)"
  by (simp_all add: on_entry_def)

lemma note_keeps [simp]:
  "se_device (note_client_message m e) = se_device e" "se_resource (note_client_message m e) = se_resource e"
  "se_id (note_client_message m e) = se_id e" "se_overlapped (note_client_message m e) = se_overlapped e"
  "se_clear_epoch (note_client_message m e) = se_clear_epoch e" "se_client_max (note_client_message m e) = se_client_max e"
  "se_async_queue (note_client_message m e) = se_async_queue e" "se_consumed_stb (note_client_message m e) = None"
  "se_last_message_id (note_client_message m e) = msg_parameter m"
  by (simp_all add: note_client_message_def take_consumed_stb_def)

lemma session_has_access_note [simp]:
  "r < length (hs_entries st) \<Longrightarrow> session_has_access r (on_entry r (note_client_message m) st) = session_has_access r st"
  by (simp add: session_has_access_def session_holder_def)

text \<open>One turn of the loop over a message that was just read.\<close>

lemma sync_loop_message:
  assumes "message_ok (hc_max_message_size cfg) m"
  shows "sync_loop (env # envs) cfg r (feed (write_to m) s) task w st =
    (case sync_message env cfg r m task w (te_before env st) of
       None \<Rightarrow> None
     | Some (Continue, task1, w1, st2) \<Rightarrow> sync_loop envs cfg r s task1 w1 st2
     | Some (Finish, task1, w1, st2) \<Rightarrow> Some (Inr (), w1, st2)
     | Some (Broken e, task1, w1, st2) \<Rightarrow> Some (Inl e, w1, st2))"
  by (simp add: read_from_write_to[OF assms] sync_turn_def)

text \<open>The session whose client last sent \<open>m\<close>, after any number of messages.\<close>

definition noted :: "nat \<Rightarrow> message list \<Rightarrow> 'b hislip \<Rightarrow> 'b hislip" where
  "noted r ms = fold (\<lambda>m. on_entry r (note_client_message m)) ms"

lemma noted_simps [simp]:
  "noted r [] st = st" "noted r (m # ms) st = noted r ms (on_entry r (note_client_message m) st)"
  "noted r (ms @ ns) st = noted r ns (noted r ms st)"
  by (simp_all add: noted_def)

lemma noted_fields [simp]:
  "hs_bus (noted r ms st) = hs_bus st" "length (hs_entries (noted r ms st)) = length (hs_entries st)"
  by (induction ms arbitrary: st) simp_all

lemma noted_entry:
  assumes "r < length (hs_entries st)"
  shows "se_device (entry_at r (noted r ms st)) = se_device (entry_at r st)"
    "se_clear_epoch (entry_at r (noted r ms st)) = se_clear_epoch (entry_at r st)"
    "session_has_access r (noted r ms st) = session_has_access r st"
  using assms by (induction ms arbitrary: st) simp_all

lemma data_pieces:
  assumes "list_all (\<lambda>m. msg_type m = Data \<and> message_ok (hc_max_message_size cfg) m) ms"
    and "r < length (hs_entries st)" "sy_epoch task = se_clear_epoch (entry_at r st)"
  shows "sync_loop (replicate (length ms) quiet_env @ envs) cfg r (feed (concat (map write_to ms)) s) task w st =
    sync_loop envs cfg r s (task\<lparr>sy_buffer := sy_buffer task @ concat (map msg_payload ms)\<rparr>) w (noted r ms st)"
  using assms
proof (induction ms arbitrary: task st)
  case (Cons m ms)
  let ?st = "on_entry r (note_client_message m) st" and ?task = "task\<lparr>sy_buffer := sy_buffer task @ msg_payload m\<rparr>"
  have "sync_loop (quiet_env # replicate (length ms) quiet_env @ envs) cfg r (feed (write_to m) (feed (concat (map write_to ms)) s)) task w st =
      sync_loop (replicate (length ms) quiet_env @ envs) cfg r (feed (concat (map write_to ms)) s) ?task w ?st"
    using Cons.prems by (subst sync_loop_message) (simp_all add: sync_message_def sync_data_def quiet_env_def)
  then show ?case
    using Cons.IH[of ?st ?task] Cons.prems by simp
qed simp

lemma command_end:
  assumes "msg_type m = DataEnd" "message_ok (hc_max_message_size cfg) m" "r < length (hs_entries st)"
    "sy_epoch task = se_clear_epoch (entry_at r st)" "session_has_access r st"
    and "dv_execute (se_device (entry_at r st)) False (sy_buffer task @ msg_payload m)
           (query_hint (sy_buffer task @ msg_payload m)) (hs_bus st) = (Inr ex, b)"
  shows "sync_message quiet_env cfg r m task w st =
    Some (deliver r (msg_parameter m) ex (task\<lparr>sy_buffer := []\<rparr>) w (on_entry r (note_client_message m) st\<lparr>hs_bus := b\<rparr>))"
proof -
  let ?st = "on_entry r (note_client_message m) st"
  have "await_access [] r ?st = Some ?st"
    using assms(3,5) by (intro await_access_now) simp
  with assms show ?thesis
    by (simp add: sync_message_def sync_data_def quiet_env_def on_bus_def)
qed

section \<open>Properties of commands\<close>

text \<open>C12. A command reaches the instrument as the client sent it and its answer comes back whole: the pieces of a
  command, any number of Data messages and a final DataEnd, are run as one command made of their payloads in
  order, once, with the query hint of the whole; the bus is then where that command left it, and what was
  written to the client is the answer of the instrument, after which the loop goes on with the rest of the
  stream and an empty buffer.\<close>

theorem command_runs_as_sent:
  assumes "list_all (\<lambda>m. msg_type m = Data \<and> message_ok (hc_max_message_size cfg) m) ms"
    and "msg_type m = DataEnd" "message_ok (hc_max_message_size cfg) m"
    and "r < length (hs_entries st)" "session_has_access r st"
    and "cmd = concat (map msg_payload (ms @ [m]))"
    and "dv_execute (se_device (entry_at r st)) False cmd (query_hint cmd) (hs_bus st) =
           (Inr \<lparr>ex_data = Some d, ex_service_request = None\<rparr>, b)"
    and "length d < wr_left w"
  shows "\<exists>w' st'. sync_loop (replicate (Suc (length ms)) quiet_env @ envs) cfg r
       (feed (concat (map write_to (ms @ [m]))) s) \<lparr>sy_buffer = [], sy_epoch = se_clear_epoch (entry_at r st)\<rparr> w st =
     sync_loop envs cfg r s \<lparr>sy_buffer = [], sy_epoch = se_clear_epoch (entry_at r st)\<rparr> w' st' \<and>
     hs_bus st' = b \<and> (\<exists>reply. wr_sent w' = wr_sent w @ reply \<and> concat (map msg_payload reply) = d \<and>
       msg_type (last reply) = DataEnd)"
proof -
  let ?epoch = "se_clear_epoch (entry_at r st)" and ?st1 = "noted r ms st"
  let ?task = "\<lparr>sy_buffer = concat (map msg_payload ms), sy_epoch = ?epoch\<rparr>"
  let ?ex = "\<lparr>ex_data = Some d, ex_service_request = None\<rparr>"
  have "sync_loop (replicate (Suc (length ms)) quiet_env @ envs) cfg r (feed (concat (map write_to (ms @ [m]))) s)
      \<lparr>sy_buffer = [], sy_epoch = ?epoch\<rparr> w st =
    sync_loop (quiet_env # envs) cfg r (feed (write_to m) s) ?task w ?st1"
    using data_pieces[OF assms(1,4), of "\<lparr>sy_buffer = [], sy_epoch = ?epoch\<rparr>" "quiet_env # envs" "feed (write_to m) s" w]
    by (simp add: replicate_app_Cons_same)
  moreover let ?st2 = "on_entry r (note_client_message m) ?st1\<lparr>hs_bus := b\<rparr>"
  have turn: "sync_message quiet_env cfg r m ?task w ?st1 =
      Some (deliver r (msg_parameter m) ?ex \<lparr>sy_buffer = [], sy_epoch = ?epoch\<rparr> w ?st2)"
    using command_end[of m cfg r ?st1 ?task ?ex b w] assms by (simp add: noted_entry)
  have reply: "\<exists>w' st'. deliver r (msg_parameter m) ?ex task w st2 = (Continue, task, w', st') \<and> hs_bus st' = hs_bus st2 \<and>
      (\<exists>reply. wr_sent w' = wr_sent w @ reply \<and> concat (map msg_payload reply) = d \<and> msg_type (last reply) = DataEnd)" for task st2
  proof -
    let ?st0 = "on_entry r (\<lambda>e. e\<lparr>se_mav := True\<rparr>) st2"
    obtain reply w' where "write_response (msg_parameter m) d (entry_at r ?st0) w = (Inr w', after_reply (length reply) (entry_at r ?st0))"
      "wr_sent w' = wr_sent w @ reply" "concat (map msg_payload reply) = d" "reply \<noteq> []"
      "msg_type (reply ! (length reply - 1)) = DataEnd"
      using write_response_whole[of d "entry_at r ?st0" w "msg_parameter m"] reply_pieces_few[of d "entry_at r ?st0"] assms(8)
      by (fastforce dest: spec[of _ "length _ - 1"])
    then show ?thesis
      by (simp add: deliver_def last_conv_nth Let_def)
  qed
  obtain w' st' where "deliver r (msg_parameter m) ?ex \<lparr>sy_buffer = [], sy_epoch = ?epoch\<rparr> w ?st2 =
      (Continue, \<lparr>sy_buffer = [], sy_epoch = ?epoch\<rparr>, w', st')" "hs_bus st' = b"
    "\<exists>reply. wr_sent w' = wr_sent w @ reply \<and> concat (map msg_payload reply) = d \<and> msg_type (last reply) = DataEnd"
    using reply[of "\<lparr>sy_buffer = [], sy_epoch = ?epoch\<rparr>" ?st2] by auto
  moreover from this(1) turn have "sync_loop (quiet_env # envs) cfg r (feed (write_to m) s) ?task w ?st1 =
      sync_loop envs cfg r s \<lparr>sy_buffer = [], sy_epoch = ?epoch\<rparr> w' st'"
    by (subst sync_loop_message[OF assms(3)]) (simp add: quiet_env_def)
  ultimately show ?thesis
    by (intro exI[of _ w'] exI[of _ st']) simp
qed

definition demo_piece :: "message_type \<Rightarrow> bytes \<Rightarrow> message" where
  "demo_piece ty d = \<lparr>msg_type = ty, msg_control = 0, msg_parameter = 0xffffff00, msg_payload = d\<rparr>"

definition demo_bus :: scripted where
  "demo_bus = scripted0\<lparr>sb_replies := [Inr ([0x41, 0x0A], True)]\<rparr>"

theorem command_runs_as_sent_witness:
  "\<exists>w' st'. sync_loop [quiet_env, quiet_env] default_hislip_config 0
       (feed (write_to (demo_piece Data [0x2A, 0x49]) @ write_to (demo_piece DataEnd [0x44, 0x4E, 0x3F])) \<lparr>pending = [], broken = None\<rparr>)
       demo_task \<lparr>wr_sent = [], wr_left = 9\<rparr> (demo_hislip\<lparr>hs_bus := demo_bus\<rparr>) =
     sync_loop [] default_hislip_config 0 \<lparr>pending = [], broken = None\<rparr> demo_task w' st' \<and>
     sb_log (hs_bus st') = [(True, [0x2A, 0x49, 0x44, 0x4E, 0x3F], True)] \<and> concat (map msg_payload (wr_sent w')) = [0x41, 0x0A]"
proof -
  let ?cmd = "[0x2A, 0x49, 0x44, 0x4E, 0x3F] :: bytes" and ?st = "demo_hislip\<lparr>hs_bus := demo_bus\<rparr>"
  let ?x = "execute scripted_ops 5 False ?cmd (query_hint ?cmd) demo_bus"
  have "fst ?x = Inr \<lparr>ex_data = Some [0x41, 0x0A], ex_service_request = None\<rparr>" and log: "sb_log (snd ?x) = [(True, ?cmd, True)]"
    by code_simp+
  then have run: "dv_execute (se_device (entry_at 0 ?st)) False ?cmd (query_hint ?cmd) (hs_bus ?st) =
      (Inr \<lparr>ex_data = Some [0x41, 0x0A], ex_service_request = None\<rparr>, snd ?x)"
    by (simp add: entry_at_def demo_hislip_def demo_entry_def new_entry_def demo_instrument_def gpib_instrument_def prod_eq_iff)
  have ok: "message_ok 1048576 (demo_piece Data [0x2A, 0x49])" "message_ok 1048576 (demo_piece DataEnd [0x44, 0x4E, 0x3F])"
    by code_simp+
  have "0 < length (hs_entries ?st)" "session_has_access 0 ?st" "se_clear_epoch (entry_at 0 ?st) = 0"
    by (simp_all add: demo_hislip_def session_has_access_def has_access_def new_registry_def entry_at_def demo_entry_def new_entry_def)
  with run ok obtain w' st' where
    "sync_loop (replicate (Suc 1) quiet_env @ []) default_hislip_config 0
       (feed (concat (map write_to ([demo_piece Data [0x2A, 0x49]] @ [demo_piece DataEnd [0x44, 0x4E, 0x3F]]))) \<lparr>pending = [], broken = None\<rparr>)
       \<lparr>sy_buffer = [], sy_epoch = 0\<rparr> \<lparr>wr_sent = [], wr_left = 9\<rparr> ?st =
     sync_loop [] default_hislip_config 0 \<lparr>pending = [], broken = None\<rparr> \<lparr>sy_buffer = [], sy_epoch = 0\<rparr> w' st'"
    "hs_bus st' = snd ?x" "concat (map msg_payload (wr_sent w')) = [0x41, 0x0A]"
    using command_runs_as_sent[of default_hislip_config "[demo_piece Data [0x2A, 0x49]]" "demo_piece DataEnd [0x44, 0x4E, 0x3F]"
        0 ?st ?cmd "[0x41, 0x0A]" "snd ?x" "\<lparr>wr_sent = [], wr_left = 9\<rparr>" "[]" "\<lparr>pending = [], broken = None\<rparr>"]
    by (auto simp: demo_piece_def default_hislip_config_def)
  with log show ?thesis
    by (intro exI[of _ w'] exI[of _ st']) (simp add: demo_task_def)
qed

lemma status_mav: "has_flag (status_byte polled i e) STB_MAV \<longleftrightarrow> mav_bit i e = STB_MAV"
proof -
  have "\<not> has_flag (x AND NOT STB_MAV) STB_MAV" for x :: u8
    by (simp add: has_flag_def and.assoc)
  moreover have "has_flag STB_MAV STB_MAV" "STB_MAV \<noteq> 0"
    by code_simp+
  ultimately show ?thesis
    by (auto simp: status_byte_def has_flag_OR mav_bit_def Let_def)
qed

lemma mav_bit_eq:
  "mav_bit i e = STB_MAV \<longleftrightarrow>
     (if se_overlapped e then i \<noteq> se_next_server_id e - 2 else se_mav e \<and> i = se_last_message_id e)"
  by (auto simp: mav_bit_def STB_MAV_def)

lemma status_rest:
  "status_byte polled i e AND NOT STB_MAV =
      (case polled of Inr stb \<Rightarrow> if stb = 0 then (case se_consumed_stb e of Some c \<Rightarrow> c | None \<Rightarrow> 0) else stb
       | Inl _ \<Rightarrow> (case se_consumed_stb e of Some c \<Rightarrow> c | None \<Rightarrow> 0)) AND NOT STB_MAV"
proof -
  have "mav_bit i e AND NOT STB_MAV = 0"
    by (simp add: mav_bit_def)
  then show ?thesis
    by (simp add: status_byte_def Let_def bit.conj_disj_distrib2 and.assoc split: sum.split option.split)
qed




definition demo_asking :: scripted where
  "demo_asking = scripted0\<lparr>sb_stb := [0x50], sb_replies := [Inl [84]]\<rparr>"


end
