(* ===== verification/Hislip_Sessions.thy ===== *)
theory Hislip_Sessions
  imports Hislip_Laws
begin

text \<open>
  The sessions of the HiSLIP server: the states its tasks can bring about in any interleaving, the invariant of
  the session registry, what the end of a session cleans up and what can escape it, and who a lock keeps out.
\<close>

section \<open>Entries\<close>

named_theorems tame \<open>operations that keep the identity of a session\<close>

definition entry_ok :: "'b session_entry \<Rightarrow> bool" where
  "entry_ok e \<longleftrightarrow> length (se_async_queue e) \<le> SRQ_QUEUE_DEPTH \<and> length (se_sync_queue e) \<le> 1 \<and>
     se_resource e = dv_resource_key (se_device e)"

definition same_session :: "'b session_entry \<Rightarrow> 'b session_entry \<Rightarrow> bool" where
  "same_session e e' \<longleftrightarrow> se_id e' = se_id e \<and> se_device e' = se_device e \<and> se_resource e' = se_resource e \<and>
     (entry_ok e \<longrightarrow> entry_ok e')"

lemma same_session_refl [simp, tame]: "same_session e e"
  by (simp add: same_session_def)

lemma same_session_trans: "same_session e e' \<Longrightarrow> same_session e' e'' \<Longrightarrow> same_session e e''"
  by (auto simp: same_session_def)

lemma same_session_holder: "same_session e e' \<Longrightarrow> session_holder e' = session_holder e"
  by (simp add: same_session_def session_holder_def)

lemma same_session_updates [tame]:
  "same_session e (e\<lparr>se_mav := v\<rparr>)" "same_session e (e\<lparr>se_consumed_stb := c\<rparr>)" "same_session e (e\<lparr>se_client_max := u\<rparr>)"
  "same_session e (e\<lparr>se_clear_epoch := k\<rparr>)" "same_session e (e\<lparr>se_async_bound := v\<rparr>)"
  "same_session e (e\<lparr>se_sync_taken := v\<rparr>)" "same_session e (e\<lparr>se_async_taken := v\<rparr>)"
  "same_session e (e\<lparr>se_async_open := v\<rparr>)" "same_session e (e\<lparr>se_sync_open := v\<rparr>)"
  by (simp_all add: same_session_def entry_ok_def)

lemma same_session_ops [tame]:
  "same_session e (take_consumed_stb e)" "same_session e (note_client_message m e)" "same_session e (set_overlapped v e)"
  "same_session e (raise_service_request stb e)" "same_session e (mirror_fatal code text e)"
  "same_session e (mirror_fatal_to_sync code text e)"
  by (simp_all add: same_session_def entry_ok_def take_consumed_stb_def note_client_message_def set_overlapped_def
      raise_service_request_def mirror_fatal_def mirror_fatal_to_sync_def async_send_def)

lemma same_session_response_id: "same_session e (snd (response_message_id rid e))"
  by (simp add: same_session_def entry_ok_def response_message_id_def)

lemma same_session_chunks: "same_session e (snd (write_chunks rid cs e w))"
proof (induction cs arbitrary: e w)
  case (Cons c cs)
  have "same_session e (snd (response_message_id rid e))"
    by (rule same_session_response_id)
  with Cons show ?case
    by (auto simp: case_prod_beta split: sum.split intro: same_session_trans)
qed simp

lemma same_session_response [tame]: "same_session e (snd (write_response rid d e w))"
  by (simp add: write_response_pieces same_session_chunks)

lemma on_entry_registry [simp]: "hs_registry (on_entry r f st) = hs_registry st"
  by (simp add: on_entry_def)

lemma entry_at_other [simp]: "r \<noteq> r' \<Longrightarrow> entry_at r' (on_entry r f st) = entry_at r' st"
  by (simp add: on_entry_def entry_at_def)

lemma on_bus_simps [simp]:
  "hs_locks (snd (on_bus f st)) = hs_locks st" "hs_registry (snd (on_bus f st)) = hs_registry st"
  "hs_entries (snd (on_bus f st)) = hs_entries st" "entry_at r (snd (on_bus f st)) = entry_at r st"
  by (simp_all add: on_bus_def entry_at_def split: prod.split)

section \<open>The invariant\<close>

definition hislip_inv :: "hislip_config \<Rightarrow> 'b hislip \<Rightarrow> bool" where
  "hislip_inv cfg st \<longleftrightarrow>
     distinct (map fst (hs_registry st)) \<and> length (hs_registry st) \<le> hc_max_sessions cfg \<and>
     (\<forall>(sid, r) \<in> set (hs_registry st).
        r < length (hs_entries st) \<and> se_id (entry_at r st) = sid \<and> even (unat sid)) \<and>
     list_all entry_ok (hs_entries st) \<and> wf_registry (hs_locks st)"

text \<open>A change of the server that leaves every session what it is.\<close>

definition tame_change :: "'b hislip \<Rightarrow> 'b hislip \<Rightarrow> bool" where
  "tame_change st st' \<longleftrightarrow> hs_registry st' = hs_registry st \<and> hs_locks st' = hs_locks st \<and>
     list_all2 same_session (hs_entries st) (hs_entries st')"

lemma tame_change_refl [simp, tame]: "tame_change st st"
  by (simp add: tame_change_def list_all2_same)

lemma tame_change_trans: "tame_change st st' \<Longrightarrow> tame_change st' st'' \<Longrightarrow> tame_change st st''"
  unfolding tame_change_def using list_all2_trans[of same_session same_session same_session] same_session_trans by metis

lemma tame_on_entry [tame]:
  "same_session (entry_at r st) (f (entry_at r st)) \<Longrightarrow> tame_change st (on_entry r f st)"
  by (cases "r < length (hs_entries st)")
    (auto simp: tame_change_def on_entry_def entry_at_def list_all2_conv_all_nth nth_list_update list_update_beyond)

lemma tame_on_bus [tame]: "tame_change st (snd (on_bus f st))"
  by (simp add: tame_change_def list_all2_same)

lemma tame_bus [tame]: "tame_change st (st\<lparr>hs_bus := b\<rparr>)"
  by (simp add: tame_change_def list_all2_same)

lemma tame_change_entry:
  "tame_change st st' \<Longrightarrow> r < length (hs_entries st) \<Longrightarrow>
   r < length (hs_entries st') \<and> same_session (entry_at r st) (entry_at r st')"
  by (auto simp: tame_change_def entry_at_def list_all2_conv_all_nth)

lemma tame_change_inv: "tame_change st st' \<Longrightarrow> hislip_inv cfg st \<Longrightarrow> hislip_inv cfg st'"
  unfolding hislip_inv_def tame_change_def
  by (fastforce simp: list_all2_conv_all_nth list_all_length entry_at_def same_session_def)

section \<open>Turns\<close>

text \<open>The steps of the other tasks that one turn lets in.\<close>

definition env_steps :: "'b task_env \<Rightarrow> ('b hislip \<Rightarrow> 'b hislip) set" where
  "env_steps env = insert (te_before env) (insert (te_meanwhile env) (set (te_waits env) \<union> snd ` set (te_contend env)))"

text \<open>
  A property of the server that every session keeps: it survives the changes that leave the sessions what they
  are and the steps of the lock registry. The turns of both channels then keep it, given that the other tasks do.
\<close>

locale server_property =
  fixes Q :: "'b hislip \<Rightarrow> bool"
  assumes tame_keeps: "tame_change st st' \<Longrightarrow> Q st \<Longrightarrow> Q st'"
    and lock_keeps: "lock_step hid (hs_locks st) l \<Longrightarrow> Q st \<Longrightarrow> Q (st\<lparr>hs_locks := l\<rparr>)"
begin

definition env_keeps :: "'b task_env \<Rightarrow> bool" where
  "env_keeps env \<longleftrightarrow> (\<forall>f \<in> env_steps env. \<forall>st. Q st \<longrightarrow> Q (f st))"

lemma on_entry_keeps: "Q st \<Longrightarrow> same_session (entry_at r st) (f (entry_at r st)) \<Longrightarrow> Q (on_entry r f st)"
  using tame_keeps tame_on_entry by blast

lemma on_bus_keeps: "Q st \<Longrightarrow> Q (snd (on_bus f st))"
  using tame_keeps tame_on_bus by blast

lemma await_keeps: "(\<And>f st. f \<in> set sched \<Longrightarrow> Q st \<Longrightarrow> Q (f st)) \<Longrightarrow> await_access sched r st = Some st1 \<Longrightarrow> Q st \<Longrightarrow> Q st1"
  by (induction sched arbitrary: st) (auto split: if_splits)

lemma env_await: "env_keeps env \<Longrightarrow> await_access (te_waits env) r st = Some st1 \<Longrightarrow> Q st \<Longrightarrow> Q st1"
  by (rule await_keeps[of "te_waits env"]) (auto simp: env_keeps_def env_steps_def)

lemma env_meanwhile: "env_keeps env \<Longrightarrow> Q st \<Longrightarrow> Q (te_meanwhile env st)"
  by (simp add: env_keeps_def env_steps_def)

lemma env_before: "env_keeps env \<Longrightarrow> Q st \<Longrightarrow> Q (te_before env st)"
  by (simp add: env_keeps_def env_steps_def)

lemma deliver_keeps: "Q st \<Longrightarrow> deliver r rid ex task w st = (fl, task', w', st') \<Longrightarrow> Q st'"
proof -
  assume Q: "Q st" and run: "deliver r rid ex task w st = (fl, task', w', st')"
  let ?st0 = "on_entry r (\<lambda>e. e\<lparr>se_mav := True\<rparr>) st"
  have "Q ?st0"
    by (intro on_entry_keeps tame Q)
  moreover have "Q (on_entry r (\<lambda>_. snd (write_response rid d (entry_at r ?st0) w)) ?st0)" for d
    by (intro on_entry_keeps tame \<open>Q ?st0\<close>)
  ultimately show "Q st'"
    using run Q by (auto simp: deliver_def Let_def case_prod_beta split: option.splits sum.splits intro!: on_entry_keeps tame)
qed

lemma sync_data_keeps:
  assumes env: "env_keeps env" and Q: "Q st" and run: "sync_data env r m task w st = Some (fl, task', w', st')"
  shows "Q st'"
proof (cases "msg_type m = DataEnd")
  case True
  then obtain st1 where st1: "await_access (te_waits env) r st = Some st1"
    using run by (auto simp: sync_data_def Let_def split: option.splits)
  let ?st3 = "te_meanwhile env (snd (on_bus (dv_execute (se_device (entry_at r st)) (te_fired env)
    (sy_buffer task @ msg_payload m) (query_hint (sy_buffer task @ msg_payload m))) st1))"
  have "Q ?st3"
    by (intro env_meanwhile[OF env] on_bus_keeps env_await[OF env st1 Q])
  then show ?thesis
    using run True st1 by (auto simp: sync_data_def Let_def case_prod_beta split: sum.splits dest: deliver_keeps)
qed (use run Q in \<open>auto simp: sync_data_def Let_def\<close>)

lemma sync_message_keeps:
  assumes env: "env_keeps env" and Q: "Q st" and run: "sync_message env cfg r m task w st = Some (fl, task', w', st')"
  shows "Q st'"
proof -
  let ?st1 = "if msg_type m = Data \<or> msg_type m = DataEnd \<or> msg_type m = Trigger
    then on_entry r (note_client_message m) st else st"
  have Q1: "Q ?st1"
    using Q by (auto intro!: on_entry_keeps tame)
  show ?thesis
    using run env Q1
    by (auto simp: sync_message_def Let_def case_prod_beta sync_trigger_def sync_clear_complete_def sync_refuse_tls_def
        sync_unexpected_def split: if_splits option.splits
        dest: env_await sync_data_keeps intro!: on_entry_keeps on_bus_keeps tame)
qed

lemma sync_turn_keeps:
  "env_keeps env \<Longrightarrow> Q st \<Longrightarrow> sync_turn env cfg r incoming task w st = Some (fl, task', w', st') \<Longrightarrow> Q st'"
  by (cases incoming)
    (auto simp: sync_turn_def sync_error_def Let_def case_prod_beta split: hislip_error.splits
      intro!: on_entry_keeps tame dest: sync_message_keeps)

lemma sync_loop_keeps:
  "list_all env_keeps envs \<Longrightarrow> Q st \<Longrightarrow> sync_loop envs cfg r s task w st = Some (res, w', st') \<Longrightarrow> Q st'"
proof (induction envs arbitrary: s task w st)
  case (Cons env envs)
  have "Q (te_before env st)"
    using Cons.prems by (simp add: env_before)
  then show ?case
    using Cons.prems(1,3) by (auto simp: Let_def split: sum.splits prod.splits option.splits flow.splits
        dest: sync_turn_keeps intro: Cons.IH)
qed simp

lemma contend_keeps:
  "(\<And>f st. f \<in> snd ` set sched \<Longrightarrow> Q st \<Longrightarrow> Q (f st)) \<Longrightarrow> Q st \<Longrightarrow>
   contend sched resource hid ls deadline st = Some (g, st') \<Longrightarrow> Q st'"
proof (induction sched arbitrary: st)
  case (Cons a sched)
  obtain now f where a: "a = (now, f)" by (cases a)
  obtain x l where x: "try_request (hs_locks st) resource hid ls = (x, l)"
    by (cases "try_request (hs_locks st) resource hid ls")
  have "Q (st\<lparr>hs_locks := l\<rparr>)"
    using lock_keeps[OF step_request[OF x] Cons.prems(2)] .
  then show ?case
    using Cons.prems(1,3) Cons.IH by (auto simp: a x split: option.splits if_splits)
qed simp

lemma release_keeps: "Q st \<Longrightarrow> Q (st\<lparr>hs_locks := snd (release (hs_locks st) res hid)\<rparr>)"
  by (rule lock_keeps[OF step_release[OF surjective_pairing]])

lemma async_lock_keeps:
  assumes env: "env_keeps env" and Q: "Q st" and run: "async_lock env r m w st = Some (fl, w', st')"
  shows "Q st'"
proof -
  have "Q st1" if "lock_request env r m st = Some (g, st1)" for g st1
  proof (rule contend_keeps[OF _ Q that[unfolded lock_request_def]])
    show "Q (f s)" if "f \<in> snd ` set (te_contend env)" "Q s" for f s
      using that env by (auto simp: env_keeps_def env_steps_def)
  qed
  then show ?thesis
    using run Q by (auto simp: async_lock_def answer_def case_prod_beta split: if_splits option.splits prod.splits
        intro: release_keeps)
qed

lemma async_message_keeps:
  assumes env: "env_keeps env" and Q: "Q st" and run: "async_message env cfg r m w st = Some (fl, w', st')"
  shows "Q st'"
  using run env Q
  by (auto simp: async_message_def Let_def case_prod_beta async_lock_info_def async_max_size_def async_clear_def
      async_remote_local_def async_status_def async_refuse_tls_def async_unexpected_def answer_def
      split: if_splits option.splits
      dest: env_await async_lock_keeps intro!: on_entry_keeps on_bus_keeps env_meanwhile tame)

lemma async_turn_keeps:
  "env_keeps env \<Longrightarrow> Q st \<Longrightarrow> async_turn env cfg r incoming w st = Some (fl, w', st') \<Longrightarrow> Q st'"
  by (cases incoming)
    (auto simp: async_turn_def async_error_def Let_def case_prod_beta split: hislip_error.splits
      intro!: on_entry_keeps tame dest: async_message_keeps)

end

lemma inv_locks: "hislip_inv cfg st \<Longrightarrow> wf_registry l \<Longrightarrow> hislip_inv cfg (st\<lparr>hs_locks := l\<rparr>)"
  by (simp add: hislip_inv_def)

interpretation inv: server_property "hislip_inv cfg" for cfg
proof
  show "hislip_inv cfg (st\<lparr>hs_locks := l\<rparr>)" if "lock_step hid (hs_locks st) l" "hislip_inv cfg st" for hid l and st :: "'a hislip"
    using lock_step_wf[OF that(1)] that(2) by (simp add: hislip_inv_def)
qed (rule tame_change_inv)

text \<open>That task \<open>r\<close> still has the session it started with.\<close>

definition session_at :: "nat \<Rightarrow> 'b session_entry \<Rightarrow> 'b hislip \<Rightarrow> bool" where
  "session_at r e st \<longleftrightarrow> r < length (hs_entries st) \<and> same_session e (entry_at r st)"

interpretation ident: server_property "session_at r e" for r e
proof
  show "session_at r e st'" if "tame_change st st'" "session_at r e st" for st st' :: "'a hislip"
    using tame_change_entry[OF that(1), of r] that(2) same_session_trans by (auto simp: session_at_def)
qed (simp add: session_at_def)

section \<open>Reachable states\<close>

text \<open>
  The server as its tasks run it, in any interleaving: sessions are registered, the two loops take turns, the
  pushers write, channels come and go, other front-ends use the locks and the bus. What the other tasks do
  during a turn is again such a run.
\<close>

inductive hislip_run ::
    "hislip_config \<Rightarrow> (rstr \<Rightarrow> 'b device option) \<Rightarrow> 'b hislip \<Rightarrow> 'b hislip \<Rightarrow> bool" for cfg resolve where
  hr_refl: "hislip_run cfg resolve st st"
| hr_register:
    "hislip_run cfg resolve st st1 \<Longrightarrow> admit cfg resolve m st1 = Inr (d, sid) \<Longrightarrow>
     hislip_run cfg resolve st (snd (register cfg m d sid st1))"
| hr_sync:
    "hislip_run cfg resolve st st1 \<Longrightarrow> \<forall>f \<in> env_steps env. \<forall>s. hislip_run cfg resolve s (f s) \<Longrightarrow>
     sync_turn env cfg r incoming task w st1 = Some (fl, task', w', st2) \<Longrightarrow> hislip_run cfg resolve st st2"
| hr_async:
    "hislip_run cfg resolve st st1 \<Longrightarrow> \<forall>f \<in> env_steps env. \<forall>s. hislip_run cfg resolve s (f s) \<Longrightarrow>
     async_turn env cfg r incoming w st1 = Some (fl, w', st2) \<Longrightarrow> hislip_run cfg resolve st st2"
| hr_drop:
    "hislip_run cfg resolve st st1 \<Longrightarrow> hislip_run cfg resolve st (drop_registration r st1)"
| hr_sync_push:
    "hislip_run cfg resolve st st1 \<Longrightarrow> sync_fatal_pusher r w st1 = (w', st2) \<Longrightarrow> hislip_run cfg resolve st st2"
| hr_async_push:
    "hislip_run cfg resolve st st1 \<Longrightarrow> async_pusher_one r w st1 = Some (go, w', st2) \<Longrightarrow> hislip_run cfg resolve st st2"
| hr_service:
    "hislip_run cfg resolve st st1 \<Longrightarrow> srq_forward_one sched start r w st1 = Some (go, w', st2) \<Longrightarrow>
     hislip_run cfg resolve st st2"
| hr_bind:
    "hislip_run cfg resolve st st1 \<Longrightarrow> map_of (hs_registry st1) sid = Some r \<Longrightarrow>
     hislip_run cfg resolve st (on_entry r (\<lambda>e. e\<lparr>se_async_bound := True\<rparr>) st1)"
| hr_flags:
    "hislip_run cfg resolve st st1 \<Longrightarrow>
     f \<in> {\<lambda>e. e\<lparr>se_async_taken := True\<rparr>, \<lambda>e. e\<lparr>se_async_open := False\<rparr>, \<lambda>e. e\<lparr>se_sync_taken := True\<rparr>} \<Longrightarrow>
     hislip_run cfg resolve st (on_entry r f st1)"
| hr_locks:
    "hislip_run cfg resolve st st1 \<Longrightarrow> lock_step hid (hs_locks st1) l \<Longrightarrow>
     hislip_run cfg resolve st (st1\<lparr>hs_locks := l\<rparr>)"
| hr_bus: "hislip_run cfg resolve st st1 \<Longrightarrow> hislip_run cfg resolve st (st1\<lparr>hs_bus := b\<rparr>)"

lemma free_id_Some: "free_id reg k = Some sid \<Longrightarrow> map_of reg sid = None \<and> even (unat sid)"
proof (induction reg k rule: free_id.induct)
  case (1 reg k)
  show ?case
  proof (cases "32768 \<le> k \<or> map_of reg (of_nat (2 * k)) \<noteq> None")
    case True
    then show ?thesis
      using 1 by (subst (asm) (2) free_id.simps) (auto split: if_splits)
  next
    case False
    then have "sid = of_nat (2 * k)" "unat (of_nat (2 * k) :: u16) = 2 * k"
      using 1(2) of_nat_unat_len[of "2 * k", where 'a = 16] by (simp_all add: free_id.simps)
    with False show ?thesis by simp
  qed
qed

lemma admit_ok:
  "admit cfg resolve m st = Inr (d, sid) \<Longrightarrow>
   length (hs_registry st) < hc_max_sessions cfg \<and> map_of (hs_registry st) sid = None \<and> even (unat sid)"
  by (auto simp: admit_def dest: free_id_Some split: option.splits if_splits)

lemma update_absent: "map_of al k = None \<Longrightarrow> AList.update k v al = al @ [(k, v)]"
  by (induction al) auto

lemma entry_ok_new: "entry_ok (new_entry sid p d n v)"
  by (simp add: entry_ok_def new_entry_def)

lemma register_inv:
  assumes "hislip_inv cfg st" "admit cfg resolve m st = Inr (d, sid)"
  shows "hislip_inv cfg (snd (register cfg m d sid st))"
proof -
  note ok = admit_ok[OF assms(2)]
  have "r < length (hs_entries st)" if "(i, r) \<in> set (hs_registry st)" for i r
    using assms(1) that by (auto simp: hislip_inv_def)
  moreover have "sid \<notin> fst ` set (hs_registry st)"
    using ok by (simp add: map_of_eq_None_iff)
  ultimately show ?thesis
    using assms(1) ok
    by (auto simp: hislip_inv_def register_def Let_def update_absent entry_at_def nth_append entry_ok_new)
      (auto simp: new_entry_def)
qed

lemma drop_registration_inv: "hislip_inv cfg st \<Longrightarrow> hislip_inv cfg (drop_registration r st)"
proof -
  assume inv: "hislip_inv cfg st"
  let ?sid = "se_id (entry_at r st)"
  let ?st1 = "st\<lparr>hs_locks := release_all (hs_locks st) (hislip_id ?sid), hs_registry := AList.delete ?sid (hs_registry st)\<rparr>"
  have "length (AList.delete ?sid (hs_registry st)) \<le> length (hs_registry st)"
    by (rule AList.length_delete_le)
  moreover have "set (AList.delete ?sid (hs_registry st)) \<subseteq> set (hs_registry st)"
    by (auto simp: AList.delete_eq)
  ultimately have "hislip_inv cfg ?st1"
    using inv by (auto simp: hislip_inv_def release_all_wf AList.distinct_delete entry_at_def)
  then show ?thesis
    by (auto simp: drop_registration_def Let_def intro!: inv.on_entry_keeps tame)
qed

lemma pushers_tame:
  "sync_fatal_pusher r w st = (w', st') \<Longrightarrow> tame_change st st'"
  "async_pusher_one r w st = Some (go, v, st'') \<Longrightarrow> tame_change st st''"
  "srq_forward_one sched start r w st = Some (go, v, st'') \<Longrightarrow> tame_change st st''"
proof -
  show "tame_change st st'" if "sync_fatal_pusher r w st = (w', st')"
    using that by (auto simp: sync_fatal_pusher_def same_session_def entry_ok_def split: list.splits
        intro!: tame_on_entry)
  show "tame_change st st''" if run: "async_pusher_one r w st = Some (go, v, st'')"
  proof -
    obtain p rest where q: "se_async_queue (entry_at r st) = p # rest"
      using run by (auto simp: async_pusher_one_def split: list.splits)
    let ?st1 = "on_entry r (\<lambda>e. e\<lparr>se_async_queue := rest\<rparr>) st"
    have "tame_change st ?st1"
      using q by (intro tame_on_entry) (simp add: same_session_def entry_ok_def)
    moreover have "tame_change ?st1 (on_entry r (\<lambda>e. e\<lparr>se_async_open := False\<rparr>) ?st1)"
      by (intro tame)
    ultimately show ?thesis
      using run q by (auto simp: async_pusher_one_def Let_def split: sum.splits intro: tame_change_trans)
  qed
  show "tame_change st st''" if "srq_forward_one sched start r w st = Some (go, v, st'')"
  proof -
    have "tame_change st (on_entry r (\<lambda>e. e\<lparr>se_consumed_stb := x\<rparr>) (st\<lparr>hs_bus := b\<rparr>))" for x b
      by (rule tame_change_trans[OF tame_bus[of st b]]) (intro tame)
    then show ?thesis
      using that by (auto simp: srq_forward_one_def Let_def split: option.splits sum.splits intro: tame)
  qed
qed

lemma hislip_run_inv: "hislip_run cfg resolve st st' \<Longrightarrow> hislip_inv cfg st \<Longrightarrow> hislip_inv cfg st'"
proof (induction rule: hislip_run.induct)
  case (hr_sync st st1 env r incoming task w fl task' w' st2)
  then have "inv.env_keeps cfg env"
    by (auto simp: inv.env_keeps_def)
  with hr_sync show ?case by (auto dest: inv.sync_turn_keeps)
next
  case (hr_async st st1 env r incoming w fl w' st2)
  then have "inv.env_keeps cfg env"
    by (auto simp: inv.env_keeps_def)
  with hr_async show ?case by (auto dest: inv.async_turn_keeps)
qed (auto intro: register_inv drop_registration_inv inv.lock_keeps inv.tame_keeps pushers_tame tame_bus
    intro!: inv.on_entry_keeps tame)

section \<open>Locks\<close>

text \<open>Some other session has the instrument of session \<open>r\<close> for itself.\<close>

definition locked_away :: "nat \<Rightarrow> holder_id \<Rightarrow> 'b hislip \<Rightarrow> bool" where
  "locked_away r j st \<longleftrightarrow> wf_registry (hs_locks st) \<and>
     holds_exclusive (hs_locks st) (se_resource (entry_at r st)) j \<and> j \<noteq> session_holder (entry_at r st)"

lemma locked_away_no_access: "locked_away r j st \<Longrightarrow> \<not> session_has_access r st"
  unfolding locked_away_def session_has_access_def holds_exclusive_def
  using exclusive_alone has_access_iff wf_table_at
  by (metis held_by_def holds_table)

lemma locked_away_await:
  "\<forall>f \<in> set sched. \<forall>st. locked_away r j st \<longrightarrow> locked_away r j (f st) \<Longrightarrow> locked_away r j st \<Longrightarrow>
   await_access sched r st = None"
  by (rule await_access_keeps[where P = "locked_away r j"]) (auto simp: locked_away_no_access)

lemma locked_away_note:
  "r < length (hs_entries st) \<Longrightarrow> same_session (entry_at r st) (f (entry_at r st)) \<Longrightarrow>
   locked_away r j (on_entry r f st) = locked_away r j st"
  by (simp add: locked_away_def same_session_def session_holder_def)

lemma entry_at_register:
  "r < length (hs_entries st) \<Longrightarrow> entry_at r (snd (register cfg m d sid st)) = entry_at r st"
  "length (hs_entries (snd (register cfg m d sid st))) = Suc (length (hs_entries st))"
  by (simp_all add: register_def Let_def entry_at_def nth_append)

lemma drop_registration_simps [simp]:
  "hs_registry (drop_registration r st) = AList.delete (se_id (entry_at r st)) (hs_registry st)"
  "hs_locks (drop_registration r st) = release_all (hs_locks st) (hislip_id (se_id (entry_at r st)))"
  "hs_bus (drop_registration r st) = hs_bus st"
  "length (hs_entries (drop_registration r st)) = length (hs_entries st)"
  by (simp_all add: drop_registration_def Let_def)

lemma session_at_drop: "session_at r e st \<Longrightarrow> session_at r e (drop_registration r' st)"
proof -
  assume "session_at r e st"
  then have "session_at r e (st\<lparr>hs_locks := l, hs_registry := g\<rparr>)" for l g
    by (simp add: session_at_def entry_at_def)
  then show ?thesis
    by (auto simp: drop_registration_def Let_def intro!: ident.on_entry_keeps tame)
qed

lemma hislip_run_session: "hislip_run cfg resolve st st' \<Longrightarrow> session_at r e st \<Longrightarrow> session_at r e st'"
proof (induction rule: hislip_run.induct)
  case (hr_sync st st1 env r' incoming task w fl task' w' st2)
  then have "ident.env_keeps r e env"
    by (auto simp: ident.env_keeps_def)
  with hr_sync show ?case by (auto dest: ident.sync_turn_keeps)
next
  case (hr_async st st1 env r' incoming w fl w' st2)
  then have "ident.env_keeps r e env"
    by (auto simp: ident.env_keeps_def)
  with hr_async show ?case by (auto dest: ident.async_turn_keeps)
next
  case (hr_register st st1 m d sid)
  then show ?case
    by (simp add: session_at_def entry_at_register)
qed (auto intro: session_at_drop ident.lock_keeps ident.tame_keeps pushers_tame tame_bus
    intro!: ident.on_entry_keeps tame)

text \<open>An environment whose tasks are tasks of the server.\<close>

definition server_env :: "hislip_config \<Rightarrow> (rstr \<Rightarrow> 'b device option) \<Rightarrow> 'b task_env \<Rightarrow> bool" where
  "server_env cfg resolve env \<longleftrightarrow> (\<forall>f \<in> env_steps env. \<forall>st. hislip_run cfg resolve st (f st))"

lemma server_env_keeps:
  assumes "list_all (server_env cfg resolve) envs"
  shows "list_all (inv.env_keeps cfg) envs" "list_all (ident.env_keeps r e) envs"
  using assms hislip_run_inv hislip_run_session
  by (fastforce simp: list_all_iff server_env_def inv.env_keeps_def ident.env_keeps_def)+

lemma released_none: "wf_registry l \<Longrightarrow> \<not> holds (release_all l i) res i"
  by (simp add: holds_table release_all_table_at strip_holder_held)

section \<open>Properties\<close>


definition demo_resolve :: "rstr \<Rightarrow> scripted device option" where
  "demo_resolve = device_for scripted_ops 5"

definition demo_init :: message where
  "demo_init = message_params Initialize 0 0x02005858"

definition demo_registered :: "scripted hislip" where
  "demo_registered = snd (register default_hislip_config demo_init demo_instrument 0 (new_hislip new_registry scripted0))"

lemma demo_device [simp]: "demo_resolve (lit ''hislip0'') = Some demo_instrument"
proof -
  have "parse_subaddress_pad (lit ''hislip0'') = None"
    by code_simp
  then show ?thesis
    by (simp add: demo_resolve_def device_for_def demo_instrument_def)
qed

lemma demo_admit: "admit default_hislip_config demo_resolve demo_init (new_hislip new_registry scripted0) = Inr (demo_instrument, 0)"
proof -
  have "subaddress (msg_payload demo_init) = Some (lit ''hislip0'')"
    by code_simp
  moreover have "free_id [] 0 = Some 0"
    by (simp add: free_id.simps)
  ultimately show ?thesis
    by (simp add: admit_def new_hislip_def default_hislip_config_def)
qed



text \<open>A VXI-11 link has the instrument of the session for itself.\<close>

definition demo_foreign_lock :: "scripted hislip" where
  "demo_foreign_lock = demo_registered\<lparr>hs_locks := snd (try_request new_registry (resource_key 5) (vxi11_id 1) [])\<rparr>"

lemma demo_foreign_locked: "locked_away 0 (vxi11_id 1) demo_foreign_lock" "0 < length (hs_entries demo_foreign_lock)"
proof -
  have "entry_at 0 demo_foreign_lock = demo_entry"
    by (simp add: demo_foreign_lock_def demo_registered_def register_def new_hislip_def Let_def entry_at_def demo_entry_def)
      (simp add: demo_init_def message_params_def default_hislip_config_def prefers_overlapped_def client_protocol_def)
  then have "se_resource (entry_at 0 demo_foreign_lock) = resource_key 5" "se_id (entry_at 0 demo_foreign_lock) = 0"
    by (simp_all add: demo_entry_def new_entry_def demo_instrument_def gpib_instrument_def)
  moreover have "holds_exclusive (snd (try_request new_registry (resource_key 5) (vxi11_id 1) [])) (resource_key 5) (vxi11_id 1)"
    by code_simp
  ultimately show "locked_away 0 (vxi11_id 1) demo_foreign_lock"
    by (simp add: locked_away_def session_holder_def demo_foreign_lock_def try_request_wf)
  show "0 < length (hs_entries demo_foreign_lock)"
    by (simp add: demo_foreign_lock_def demo_registered_def register_def Let_def)
qed



text \<open>C16. The asynchronous channel outlives that cleanup: once the synchronous channel of a session is gone and
  its instrument is free, a lock request that still arrives on (or was waiting in) the asynchronous channel is
  granted, to an id that is no longer registered, and from then on nobody else has access.\<close>

theorem dead_session_takes_the_lock:
  assumes "hislip_inv cfg st" "r < length (hs_entries st)"
    and "table_at (hs_locks (drop_registration r st)) (se_resource (entry_at r st)) = default_table"
    and "msg_type m = AsyncLock" "msg_control m \<noteq> 0" "msg_payload m = []" "te_contend env \<noteq> []" "0 < wr_left w"
  shows "\<exists>w' st'. async_turn env cfg r (Inr m) w (drop_registration r st) = Some (Continue, w', st') \<and>
     msg_control (last (wr_sent w')) = control_code SuccessExclusive \<and>
     map_of (hs_registry st') (se_id (entry_at r st)) = None \<and>
     (\<forall>hid. has_access (hs_locks st') (se_resource (entry_at r st)) hid \<longleftrightarrow> hid = hislip_id (se_id (entry_at r st)))"
proof -
  let ?st1 = "drop_registration r st" and ?e = "entry_at r st"
  let ?l = "hs_locks (drop_registration r st)"
  let ?x = "try_request ?l (se_resource ?e) (hislip_id (se_id ?e)) []"
  obtain now f sched where sched: "te_contend env = (now, f) # sched"
    using assms(7) by (cases "te_contend env") auto
  have wf: "wf_registry ?l"
    using drop_registration_inv[OF assms(1), of r] by (simp add: hislip_inv_def)
  have e: "se_resource (entry_at r ?st1) = se_resource ?e" "se_id (entry_at r ?st1) = se_id ?e"
    using session_at_drop[of r ?e st r] assms(2) by (simp_all add: session_at_def same_session_def)
  have table: "try_table (table_at ?l (se_resource ?e)) (hislip_id (se_id ?e)) [] =
      (Some SuccessExclusive, default_table\<lparr>exclusive := Some (hislip_id (se_id ?e), 1)\<rparr>)"
    by (simp only: assms(3)) (simp add: try_table_def try_exclusive_def default_table_def)
  obtain l' where granted: "?x = (Some SuccessExclusive, l')"
    using try_request_fst[of ?l "se_resource ?e" "hislip_id (se_id ?e)" "[]"] table by (metis fst_conv prod.collapse)
  have "table_at l' (se_resource ?e) = default_table\<lparr>exclusive := Some (hislip_id (se_id ?e), 1)\<rparr>"
    using try_request_table[OF wf, of "se_resource ?e" "hislip_id (se_id ?e)" "[]" "se_resource ?e"]
    by (simp only: granted table snd_conv simp_thms if_True)
  then have "has_access l' (se_resource ?e) hid \<longleftrightarrow> hid = hislip_id (se_id ?e)" for hid
    by (auto simp: has_access_table grants_access_def table_defs)
  moreover have "from_utf8_lossy [] = []"
    by code_simp
  then have "lock_request env r m ?st1 = Some (SuccessExclusive, ?st1\<lparr>hs_locks := l'\<rparr>)"
    unfolding lock_request_def sched by (simp only: e assms(6) session_holder_def contend.simps granted prod.case option.case)
  then have "async_turn env cfg r (Inr m) w ?st1 =
      Some (answer (reply_with AsyncLockResponse (control_code SuccessExclusive) 0) w (?st1\<lparr>hs_locks := l'\<rparr>))"
    using assms(4,5) by (simp add: async_turn_def async_message_def async_lock_def)
  ultimately show ?thesis
    using assms(8) by (simp add: answer_def after_put_def put_def reply_with_def no_payload_def message_params_def map_of_delete)
qed

lemma server_env_quiet: "server_env cfg resolve quiet_env"
  by (auto simp: server_env_def env_steps_def quiet_env_def intro: hr_refl)

lemma inv_new: "hislip_inv cfg (new_hislip new_registry bus)"
  by (simp add: hislip_inv_def new_hislip_def)


definition demo_lock_request :: message where
  "demo_lock_request = message_params AsyncLock 1 1000"

theorem dead_session_takes_the_lock_witness:
  "\<exists>w' st'. async_turn quiet_env default_hislip_config 0 (Inr demo_lock_request) \<lparr>wr_sent = [], wr_left = 9\<rparr>
       (drop_registration 0 demo_registered) = Some (Continue, w', st') \<and>
     map_of (hs_registry st') 0 = None \<and> \<not> has_access (hs_locks st') (resource_key 5) (hislip_id 2)"
proof -
  have "hislip_inv default_hislip_config demo_registered"
    unfolding demo_registered_def by (rule register_inv[OF inv_new demo_admit])
  moreover have "entry_at 0 demo_registered = demo_entry" "hs_locks demo_registered = new_registry" "0 < length (hs_entries demo_registered)"
    by (simp_all add: demo_registered_def register_def new_hislip_def Let_def entry_at_def demo_entry_def demo_init_def
        message_params_def default_hislip_config_def prefers_overlapped_def
        client_protocol_def)
  moreover have "table_at (release_all new_registry (hislip_id 0)) (resource_key 5) = default_table"
    by code_simp
  ultimately show ?thesis
    using dead_session_takes_the_lock[of default_hislip_config demo_registered 0 demo_lock_request quiet_env "\<lparr>wr_sent = [], wr_left = 9\<rparr>"]
    by (auto simp: demo_entry_def new_entry_def demo_instrument_def gpib_instrument_def demo_lock_request_def
        message_params_def quiet_env_def)
qed

section \<open>Session slots\<close>

lemma unat_double: "i < 32768 \<Longrightarrow> unat (of_nat (2 * i) :: u16) = 2 * i"
  by (rule of_nat_unat_len) simp

lemma free_id_dense:
  assumes "map fst reg = map (\<lambda>i. of_nat (2 * i)) [0..<k]" "k < 32768" "j \<le> k"
  shows "free_id reg j = Some (of_nat (2 * k))"
  using assms(3)
proof (induction "k - j" arbitrary: j)
  case 0
  then have "j = k" by simp
  moreover have "of_nat (2 * k) \<notin> set (map fst reg)"
  proof
    assume "of_nat (2 * k) \<in> set (map fst reg)"
    then obtain i where "i < k" "(of_nat (2 * k) :: u16) = of_nat (2 * i)"
      unfolding assms(1) by auto
    then show False
      using unat_double[of i] unat_double[of k] assms(2) by simp
  qed
  then have "map_of reg (of_nat (2 * k)) = None"
    by (simp add: map_of_eq_None_iff)
  ultimately show ?case
    using assms(2) by (simp add: free_id.simps)
next
  case (Suc d)
  then have "j < k" by simp
  then have "of_nat (2 * j) \<in> set (map fst reg)"
    unfolding assms(1) by auto
  then have "map_of reg (of_nat (2 * j)) \<noteq> None"
    by (metis map_of_eq_None_iff set_map)
  then show ?case
    using Suc(1)[of "j + 1"] Suc(2) \<open>j < k\<close> assms(2) by (subst free_id.simps) simp
qed

text \<open>A client that hangs up before it is greeted.\<close>

definition failed_greeting ::
    "hislip_config \<Rightarrow> (rstr \<Rightarrow> 'b device option) \<Rightarrow> message \<Rightarrow> stream \<Rightarrow> 'b hislip \<Rightarrow> 'b hislip" where
  "failed_greeting cfg resolve init s st =
     (case init_sync [] cfg resolve init s \<lparr>wr_sent = [], wr_left = 0\<rparr> st of Some (_, _, st') \<Rightarrow> st' | None \<Rightarrow> st)"

lemma failed_greeting_registers:
  assumes "subaddress (msg_payload init) = Some sub" "resolve sub = Some d"
    and "map fst (hs_registry st) = map (\<lambda>i. of_nat (2 * i)) [0..<k]" "k < hc_max_sessions cfg" "k < 32768"
  shows "map fst (hs_registry (failed_greeting cfg resolve init s st)) = map (\<lambda>i. of_nat (2 * i)) [0..<Suc k]"
proof -
  have len: "length (hs_registry st) = k"
    using arg_cong[OF assms(3), of length] by simp
  have sid: "free_id (hs_registry st) 0 = Some (of_nat (2 * k))"
    by (rule free_id_dense[OF assms(3,5)]) simp
  then have "AList.update (of_nat (2 * k)) r (hs_registry st) = hs_registry st @ [(of_nat (2 * k), r)]" for r
    using free_id_Some by (intro update_absent) blast
  moreover have "admit cfg resolve init st = Inr (d, of_nat (2 * k))"
    using assms(1,2,4) sid by (simp add: admit_def len)
  ultimately show ?thesis
    using assms(3) by (simp add: failed_greeting_def init_sync_def register_def put_def Let_def)
qed

text \<open>C17. A session is registered before its client is greeted, and only a client that could be greeted is ever
  unregistered: every connection that goes away before its InitializeResponse is written keeps a session
  slot for good. As many such connections as there are slots, in a row, and the server refuses everybody.\<close>

theorem failed_greetings_use_up_the_slots:
  assumes "subaddress (msg_payload init) = Some sub" "resolve sub = Some d" "hc_max_sessions cfg \<le> 32768"
  shows "length (hs_registry ((failed_greeting cfg resolve init s ^^ hc_max_sessions cfg) (new_hislip locks bus))) =
      hc_max_sessions cfg \<and>
    (\<forall>init'. isl (admit cfg resolve init' ((failed_greeting cfg resolve init s ^^ hc_max_sessions cfg) (new_hislip locks bus))))"
proof -
  have "map fst (hs_registry ((failed_greeting cfg resolve init s ^^ k) (new_hislip locks bus))) =
      map (\<lambda>i. of_nat (2 * i)) [0..<k]" if "k \<le> hc_max_sessions cfg" for k
    using that
  proof (induction k)
    case (Suc k)
    then show ?case
      using failed_greeting_registers[where resolve = resolve, OF assms(1,2), of _ k cfg s] assms(3) by simp
  qed (simp add: new_hislip_def)
  from arg_cong[OF this[OF order_refl], of length] show ?thesis
    by (auto simp: admit_def split: option.splits)
qed

theorem failed_greetings_use_up_the_slots_witness:
  "isl (admit default_hislip_config demo_resolve demo_init
     ((failed_greeting default_hislip_config demo_resolve demo_init \<lparr>pending = [], broken = None\<rparr> ^^ 16)
       (new_hislip new_registry scripted0)))"
proof -
  have "subaddress (msg_payload demo_init) = Some (lit ''hislip0'')"
    by code_simp
  from failed_greetings_use_up_the_slots[where resolve = demo_resolve, OF this demo_device, of default_hislip_config] show ?thesis
    by (simp add: default_hislip_config_def)
qed

end
