(* ===== verification/Prologix.thy ===== *)
theory Prologix
  imports Rust_Str
begin

text \<open>
  The Prologix command interpreter of \<^verbatim>\<open>src/src/prologix.rs\<close>: the settings a connection carries and what
  one line from the client asks for. A line either changes a setting, is answered at once, or names an
  operation the server has to perform on the bus.
\<close>

section \<open>Settings and results\<close>

datatype line_result =
    LineOk
  | Response rstr
  | LineError rstr
  | SerialPoll u8
  | LineTrigger u8
  | Srq
  | ListenOnly "bool option"
  | DeviceMode "u8 option option"
  | BusLines
  | Forward (fw_pad: u8) (fw_data: bytes) (fw_send_eoi: bool) (fw_auto_read: bool)
  | Read (rd_until_eoi: bool) (rd_until_char: "u8 option")
  | DeviceClear u8
  | GoToLocal u8
  | LocalLockout
  | Ifc
  | Reset

record prologix_state =
  px_addr :: u8
  px_auto_read :: bool
  px_eoi :: bool
  px_eos_mode :: u8
  px_eot_enable :: bool
  px_eot_char :: u8
  px_read_tmo_ms :: u32

definition with_addr :: "u8 \<Rightarrow> prologix_state" where
  "with_addr pad =
     \<lparr>px_addr = pad, px_auto_read = False, px_eoi = True, px_eos_mode = 0, px_eot_enable = False,
      px_eot_char = 0, px_read_tmo_ms = 3000\<rparr>"

definition parse_optional_pad :: "rstr \<Rightarrow> u8 \<Rightarrow> (rstr, u8) result" where
  "parse_optional_pad args fallback =
     (if args = [] then Inr fallback
      else case parse_u8 args of
             Some n \<Rightarrow> if n \<le> 30 then Inr n else Inl (lit ''invalid address: '' @ args)
           | None \<Rightarrow> Inl (lit ''invalid address: '' @ args))"

section \<open>Commands\<close>

text \<open>The arm of the commands that switch a setting on or off, or report it.\<close>

definition switch_command ::
    "rstr \<Rightarrow> string \<Rightarrow> bool \<Rightarrow> (bool \<Rightarrow> prologix_state) \<Rightarrow> prologix_state \<Rightarrow> line_result \<times> prologix_state" where
  "switch_command args refusal current assign s =
     (if args = lit ''0'' then (LineOk, assign False)
      else if args = lit ''1'' then (LineOk, assign True)
      else if args = [] then (Response (if current then lit ''1'' else lit ''0''), s)
      else (LineError (lit refusal), s))"

definition addr_command :: "rstr \<Rightarrow> prologix_state \<Rightarrow> line_result \<times> prologix_state" where
  "addr_command args s =
     (if args = [] then (Response (dec (unat (px_addr s))), s)
      else case parse_u8 args of
             Some n \<Rightarrow> if n \<le> 30 then (LineOk, s\<lparr>px_addr := n\<rparr>)
                       else (LineError (lit ''invalid address: '' @ args), s)
           | None \<Rightarrow> (LineError (lit ''invalid address: '' @ args), s))"

definition eos_command :: "rstr \<Rightarrow> prologix_state \<Rightarrow> line_result \<times> prologix_state" where
  "eos_command args s =
     (if args = lit ''0'' then (LineOk, s\<lparr>px_eos_mode := 0\<rparr>)
      else if args = lit ''1'' then (LineOk, s\<lparr>px_eos_mode := 1\<rparr>)
      else if args = lit ''2'' then (LineOk, s\<lparr>px_eos_mode := 2\<rparr>)
      else if args = lit ''3'' then (LineOk, s\<lparr>px_eos_mode := 3\<rparr>)
      else if args = [] then (Response (dec (unat (px_eos_mode s))), s)
      else (LineError (lit ''++eos requires 0-3''), s))"

definition eot_char_command :: "rstr \<Rightarrow> prologix_state \<Rightarrow> line_result \<times> prologix_state" where
  "eot_char_command args s =
     (if args = [] then (Response (dec (unat (px_eot_char s))), s)
      else case parse_u8 args of
             Some n \<Rightarrow> (LineOk, s\<lparr>px_eot_char := n\<rparr>)
           | None \<Rightarrow> (LineError (lit ''++eot_char requires 0-255''), s))"

definition read_tmo_ms_command :: "rstr \<Rightarrow> prologix_state \<Rightarrow> line_result \<times> prologix_state" where
  "read_tmo_ms_command args s =
     (if args = [] then (Response (dec (unat (px_read_tmo_ms s))), s)
      else case parse_u32 args of
             Some n \<Rightarrow> (LineOk, s\<lparr>px_read_tmo_ms := n\<rparr>)
           | None \<Rightarrow> (LineError (lit ''++read_tmo_ms requires integer''), s))"

definition read_command :: "rstr \<Rightarrow> line_result" where
  "read_command args =
     (if args = lit ''eoi'' \<or> args = [] then Read True None
      else case parse_u8 args of
             Some n \<Rightarrow> Read True (Some n)
           | None \<Rightarrow> LineError (lit ''++read invalid arg: '' @ args))"

definition mode_command :: "rstr \<Rightarrow> line_result" where
  "mode_command args =
     (if args = lit ''1'' then LineOk
      else if args = lit ''0'' then
        LineError (lit ''device mode not supported (hardware is controller-only)'')
      else LineError (lit ''++mode requires 0 or 1''))"

definition dev_command :: "rstr \<Rightarrow> line_result" where
  "dev_command args =
     (if args = [] then DeviceMode None
      else if args = lit ''off'' then DeviceMode (Some None)
      else case parse_u8 args of
             Some n \<Rightarrow> if n \<le> 30 then DeviceMode (Some (Some n))
                       else LineError (lit ''++dev requires an address 0-30, or off'')
           | None \<Rightarrow> LineError (lit ''++dev requires an address 0-30, or off''))"

definition lon_command :: "rstr \<Rightarrow> line_result" where
  "lon_command args =
     (if args = [] then ListenOnly None
      else if args = lit ''0'' then ListenOnly (Some False)
      else if args = lit ''1'' then ListenOnly (Some True)
      else LineError (lit ''++lon requires 0 or 1''))"

text \<open>The arm of the commands that take an optional address.\<close>

definition at_pad :: "(u8 \<Rightarrow> line_result) \<Rightarrow> rstr \<Rightarrow> prologix_state \<Rightarrow> line_result" where
  "at_pad act args s =
     (case parse_optional_pad args (px_addr s) of Inr pad \<Rightarrow> act pad | Inl e \<Rightarrow> LineError e)"

text \<open>The \<^verbatim>\<open>match\<close> on the command's name.\<close>

definition run_command :: "rstr \<Rightarrow> rstr \<Rightarrow> prologix_state \<Rightarrow> line_result \<times> prologix_state" where
  "run_command name args s =
     (if name = lit ''addr'' then addr_command args s
      else if name = lit ''auto'' then
        switch_command args ''++auto requires 0 or 1'' (px_auto_read s) (\<lambda>v. s\<lparr>px_auto_read := v\<rparr>) s
      else if name = lit ''eoi'' then
        switch_command args ''++eoi requires 0 or 1'' (px_eoi s) (\<lambda>v. s\<lparr>px_eoi := v\<rparr>) s
      else if name = lit ''eos'' then eos_command args s
      else if name = lit ''eot_enable'' then
        switch_command args ''++eot_enable requires 0 or 1'' (px_eot_enable s)
          (\<lambda>v. s\<lparr>px_eot_enable := v\<rparr>) s
      else if name = lit ''eot_char'' then eot_char_command args s
      else if name = lit ''read_tmo_ms'' then read_tmo_ms_command args s
      else if name = lit ''read'' then (read_command args, s)
      else if name = lit ''clr'' then (DeviceClear (px_addr s), s)
      else if name = lit ''ifc'' then (Ifc, s)
      else if name = lit ''rst'' then (Reset, s)
      else if name = lit ''ver'' then
        (Response (lit ''Prologix GPIB-USB Controller version 6.107''), s)
      else if name = lit ''mode'' then (mode_command args, s)
      else if name = lit ''srq'' then (Srq, s)
      else if name = lit ''lines'' then (BusLines, s)
      else if name = lit ''dev'' then (dev_command args, s)
      else if name = lit ''lon'' then (lon_command args, s)
      else if name = lit ''spoll'' then (at_pad SerialPoll args s, s)
      else if name = lit ''trg'' then (at_pad LineTrigger args s, s)
      else if name = lit ''llo'' then (LocalLockout, s)
      else if name = lit ''loc'' then (at_pad GoToLocal args s, s)
      else if name = lit ''status'' \<or> name = lit ''savecfg'' then (LineOk, s)
      else (LineError (lit ''unknown command: '' @ name), s))"

definition handle_command :: "rstr \<Rightarrow> prologix_state \<Rightarrow> line_result \<times> prologix_state" where
  "handle_command cmd s =
     (case split_once_whitespace cmd of
        Some (n, a) \<Rightarrow> run_command (trim n) (trim a) s
      | None \<Rightarrow> run_command (trim cmd) [] s)"

section \<open>Data\<close>

definition eos_terminator :: "u8 \<Rightarrow> bytes" where
  "eos_terminator mode =
     (if mode = 0 then [13, 10] else if mode = 1 then [13] else if mode = 2 then [10] else [])"

definition handle_data :: "rstr \<Rightarrow> prologix_state \<Rightarrow> line_result" where
  "handle_data line s =
     Forward (px_addr s) (as_bytes line @ eos_terminator (px_eos_mode s)) (px_eoi s) (px_auto_read s)"

definition handle_line :: "rstr \<Rightarrow> prologix_state \<Rightarrow> line_result \<times> prologix_state" where
  "handle_line line s =
     (let l = trim_end_matches [13, 10] line
      in case strip_prefix (lit ''++'') l of
           Some rest \<Rightarrow> handle_command rest s
         | None \<Rightarrow> (handle_data l s, s))"

definition apply_eot :: "prologix_state \<Rightarrow> bytes \<Rightarrow> bytes" where
  "apply_eot s data = data @ (if px_eot_enable s then [px_eot_char s] else [])"

section \<open>Laws\<close>

lemmas px_commands =
  switch_command_def addr_command_def eos_command_def eot_char_command_def read_tmo_ms_command_def
  read_command_def mode_command_def dev_command_def lon_command_def at_pad_def parse_optional_pad_def

text \<open>The settings a line can leave behind, and the addresses its result can name.\<close>

definition settings_ok :: "prologix_state \<Rightarrow> bool" where
  "settings_ok s \<longleftrightarrow> px_addr s \<le> 30 \<and> px_eos_mode s \<le> 3"

fun target_ok :: "line_result \<Rightarrow> bool" where
  "target_ok (SerialPoll pad) \<longleftrightarrow> pad \<le> 30"
| "target_ok (LineTrigger pad) \<longleftrightarrow> pad \<le> 30"
| "target_ok (Forward pad _ _ _) \<longleftrightarrow> pad \<le> 30"
| "target_ok (DeviceClear pad) \<longleftrightarrow> pad \<le> 30"
| "target_ok (GoToLocal pad) \<longleftrightarrow> pad \<le> 30"
| "target_ok (DeviceMode (Some (Some pad))) \<longleftrightarrow> pad \<le> 30"
| "target_ok _ \<longleftrightarrow> True"

lemma with_addr_ok: "pad \<le> 30 \<Longrightarrow> settings_ok (with_addr pad)"
  by (simp add: settings_ok_def with_addr_def)

definition line_ok :: "line_result \<times> prologix_state \<Rightarrow> bool" where
  "line_ok p \<longleftrightarrow> target_ok (fst p) \<and> settings_ok (snd p)"

definition refusal_keeps :: "prologix_state \<Rightarrow> line_result \<times> prologix_state \<Rightarrow> bool" where
  "refusal_keeps s p \<longleftrightarrow> (\<forall>e. fst p = LineError e \<longrightarrow> snd p = s)"

lemma if_both: "P a \<Longrightarrow> P b \<Longrightarrow> P (if c then a else b)"
  by simp

lemmas line_ok_if = if_both[of line_ok] and refusal_keeps_if = if_both[of "refusal_keeps s" for s]

lemma refusal_keeps_simps [simp]: "refusal_keeps s (r, s)" "refusal_keeps s (LineOk, s')"
  by (simp_all add: refusal_keeps_def)

lemma run_command_ok: "settings_ok s \<Longrightarrow> line_ok (run_command name args s)"
  unfolding run_command_def
  by (intro line_ok_if) (simp_all add: px_commands line_ok_def settings_ok_def split: option.split)

lemma run_command_refusal: "refusal_keeps s (run_command name args s)"
  unfolding run_command_def
  by (intro refusal_keeps_if) (simp_all add: px_commands split: option.split)

lemma handle_command_ok: "settings_ok s \<Longrightarrow> line_ok (handle_command cmd s)"
  by (simp add: handle_command_def run_command_ok split: option.split)

lemma handle_command_refusal: "refusal_keeps s (handle_command cmd s)"
  by (simp add: handle_command_def run_command_refusal split: option.split)

lemma handle_line_ok:
  assumes "settings_ok s"
  shows "line_ok (handle_line line s)"
proof (cases "strip_prefix (lit ''++'') (trim_end_matches [13, 10] line)")
  case None
  with assms show ?thesis by (simp add: handle_line_def handle_data_def line_ok_def settings_ok_def)
next
  case (Some rest)
  with handle_command_ok[OF assms, of rest] show ?thesis by (simp add: handle_line_def)
qed

text \<open>A line that is refused changes no setting.\<close>

lemma handle_line_refusal: "refusal_keeps s (handle_line line s)"
  by (cases "strip_prefix (lit ''++'') (trim_end_matches [13, 10] line)")
    (simp_all add: handle_line_def handle_command_refusal)

text \<open>How a command line is taken apart.\<close>

definition plain :: "rstr \<Rightarrow> bool" where
  "plain t \<longleftrightarrow> t \<noteq> [] \<and> list_all (\<lambda>c. \<not> is_whitespace c) t"

lemma plain_ends:
  assumes "plain t"
  obtains c r where "t = c # r" "\<not> is_whitespace c"
  using assms by (cases t) (simp_all add: plain_def)

lemma plain_last:
  assumes "plain t"
  obtains u d where "t = u @ [d]" "\<not> is_whitespace d"
  using assms by (cases t rule: rev_cases) (simp_all add: plain_def)

lemma trim_plain:
  assumes "plain t"
  shows "trim t = t"
proof -
  obtain c r where c: "t = c # r" "\<not> is_whitespace c" by (rule plain_ends[OF assms])
  obtain u d where d: "t = u @ [d]" "\<not> is_whitespace d" by (rule plain_last[OF assms])
  have "trim_start t = t" by (simp add: trim_start_def c)
  then show ?thesis by (simp add: trim_def d)
qed

lemma trim_end_plain:
  assumes "plain t"
  shows "trim_end_matches [13, 10] (h @ t) = h @ t"
proof -
  obtain u d where d: "t = u @ [d]" "\<not> is_whitespace d" by (rule plain_last[OF assms])
  then have "d \<noteq> 13" "d \<noteq> 10" by (auto simp: is_whitespace_def)
  then show ?thesis by (simp add: trim_end_matches_def d)
qed

lemma split_once_plain:
  assumes "plain n"
  shows "split_once_whitespace n = None"
proof -
  have "dropWhile (\<lambda>c. \<not> is_whitespace c) n = []"
    using assms by (simp add: plain_def list_all_iff dropWhile_eq_Nil_conv)
  then show ?thesis by (simp only: split_once_whitespace_def list.case)
qed

lemma split_once_args: "plain n \<Longrightarrow> split_once_whitespace (n @ 32 # a) = Some (n, a)"
proof -
  assume "plain n"
  then have "\<forall>c \<in> set n. \<not> is_whitespace c" by (simp add: plain_def list_all_iff)
  moreover have "is_whitespace 32" by (simp add: is_whitespace_def)
  ultimately show ?thesis
    by (simp add: split_once_whitespace_def dropWhile_append2 takeWhile_append2)
qed

lemma handle_line_command:
  "trim_end_matches [13, 10] (lit ''++'' @ cmd) = lit ''++'' @ cmd \<Longrightarrow>
   handle_line (lit ''++'' @ cmd) s = handle_command cmd s"
  unfolding handle_line_def Let_def by (simp only:) (simp add: strip_prefix_def)

lemma handle_line_query: "plain n \<Longrightarrow> handle_line (lit ''++'' @ n) s = run_command n [] s"
  using handle_line_command[OF trim_end_plain, of n s]
  by (simp only: handle_command_def split_once_plain trim_plain option.case)

lemma handle_line_assign:
  "plain n \<Longrightarrow> plain a \<Longrightarrow> handle_line (lit ''++'' @ n @ 32 # a) s = run_command n a s"
  using handle_line_command[of "n @ 32 # a" s] trim_end_plain[of a "lit ''++'' @ n @ [32]"]
  by (simp only: handle_command_def split_once_args trim_plain option.case prod.case append_assoc append_Cons append_Nil)

lemma plain_dec: "plain (dec n)"
  by (auto simp: plain_def list_all_iff is_whitespace_def dest!: dec_digits)

section \<open>Properties\<close>

text \<open>Each setting of a connection: the command that names it, how it reads, and its largest value.\<close>

definition settings_table :: "(string \<times> (prologix_state \<Rightarrow> nat) \<times> nat) list" where
  "settings_table =
     [(''addr'', \<lambda>s. unat (px_addr s), 30), (''auto'', \<lambda>s. of_bool (px_auto_read s), 1),
      (''eoi'', \<lambda>s. of_bool (px_eoi s), 1), (''eos'', \<lambda>s. unat (px_eos_mode s), 3),
      (''eot_enable'', \<lambda>s. of_bool (px_eot_enable s), 1), (''eot_char'', \<lambda>s. unat (px_eot_char s), 255),
      (''read_tmo_ms'', \<lambda>s. unat (px_read_tmo_ms s), 4294967295)]"

lemma plain_names: "(n, g, m) \<in> set settings_table \<Longrightarrow> plain (lit n)"
  by (auto simp: settings_table_def plain_def lit_def is_whitespace_def)

lemma dec_digit: "dec 0 = lit ''0''" "dec 1 = lit ''1''" "dec 2 = lit ''2''" "dec 3 = lit ''3''"
  by (simp_all add: dec.simps lit_def)

lemma lit_eq_iff: "lit a = lit b \<longleftrightarrow> a = b"
  by (simp add: lit_def inj_map_eq_map[OF inj_of_char])

lemma lit_Nil_iff: "[] = lit a \<longleftrightarrow> a = []"
  by (auto simp: lit_def)

lemma parse_u8_dec_nat: "v \<le> 255 \<Longrightarrow> parse_u8 (dec v) = Some (of_nat v)"
  by (simp add: parse_u8_def parse_uint_dec)

lemma parse_u32_dec_nat: "v \<le> 4294967295 \<Longrightarrow> parse_u32 (dec v) = Some (of_nat v)"
  by (simp add: parse_u32_def parse_uint_dec)

lemma unat_u8: "v \<le> 255 \<Longrightarrow> unat (of_nat v :: u8) = v"
  by (simp add: of_nat_unat_len)

lemma unat_u32: "v \<le> 4294967295 \<Longrightarrow> unat (of_nat v :: u32) = v"
  by (simp add: of_nat_unat_len)

lemmas run_named = run_command_def lit_eq_iff lit_Nil_iff px_commands

lemma run_assign:
  "v \<le> 30 \<Longrightarrow> run_command (lit ''addr'') (dec v) s = (LineOk, s\<lparr>px_addr := of_nat v\<rparr>)"
  "v \<le> 1 \<Longrightarrow> run_command (lit ''auto'') (dec v) s = (LineOk, s\<lparr>px_auto_read := v = 1\<rparr>)"
  "v \<le> 1 \<Longrightarrow> run_command (lit ''eoi'') (dec v) s = (LineOk, s\<lparr>px_eoi := v = 1\<rparr>)"
  "v \<le> 3 \<Longrightarrow> run_command (lit ''eos'') (dec v) s = (LineOk, s\<lparr>px_eos_mode := of_nat v\<rparr>)"
  "v \<le> 1 \<Longrightarrow> run_command (lit ''eot_enable'') (dec v) s = (LineOk, s\<lparr>px_eot_enable := v = 1\<rparr>)"
  "v \<le> 255 \<Longrightarrow> run_command (lit ''eot_char'') (dec v) s = (LineOk, s\<lparr>px_eot_char := of_nat v\<rparr>)"
  "v \<le> 4294967295 \<Longrightarrow> run_command (lit ''read_tmo_ms'') (dec v) s = (LineOk, s\<lparr>px_read_tmo_ms := of_nat v\<rparr>)"
proof -
  have one: "v = 0 \<or> v = 1" if "v \<le> 1" using that by auto
  have three: "v = 0 \<or> v = 1 \<or> v = 2 \<or> v = 3" if "v \<le> 3" using that by auto
  show "v \<le> 30 \<Longrightarrow> run_command (lit ''addr'') (dec v) s = (LineOk, s\<lparr>px_addr := of_nat v\<rparr>)"
    by (simp add: run_named parse_u8_dec_nat word_le_nat_alt unat_u8)
  show "v \<le> 1 \<Longrightarrow> run_command (lit ''auto'') (dec v) s = (LineOk, s\<lparr>px_auto_read := v = 1\<rparr>)"
    "v \<le> 1 \<Longrightarrow> run_command (lit ''eoi'') (dec v) s = (LineOk, s\<lparr>px_eoi := v = 1\<rparr>)"
    "v \<le> 1 \<Longrightarrow> run_command (lit ''eot_enable'') (dec v) s = (LineOk, s\<lparr>px_eot_enable := v = 1\<rparr>)"
    by (drule one, elim disjE; simp add: run_named dec_digit[unfolded One_nat_def])+
  show "v \<le> 3 \<Longrightarrow> run_command (lit ''eos'') (dec v) s = (LineOk, s\<lparr>px_eos_mode := of_nat v\<rparr>)"
    by (drule three, elim disjE; simp add: run_named dec_digit[unfolded One_nat_def])
  show "v \<le> 255 \<Longrightarrow> run_command (lit ''eot_char'') (dec v) s = (LineOk, s\<lparr>px_eot_char := of_nat v\<rparr>)"
    by (simp add: run_named parse_u8_dec_nat)
  show "v \<le> 4294967295 \<Longrightarrow>
      run_command (lit ''read_tmo_ms'') (dec v) s = (LineOk, s\<lparr>px_read_tmo_ms := of_nat v\<rparr>)"
    by (simp add: run_named parse_u32_dec_nat)
qed

lemma run_query:
  "(n, get_it, most) \<in> set settings_table \<Longrightarrow> run_command (lit n) [] s = (Response (dec (get_it s)), s)"
  by (simp add: settings_table_def, elim disjE) (simp_all add: run_named dec_digit[unfolded One_nat_def])

text \<open>Every setting of a connection can be read back: for each of the seven settings and every value in its
  range, the command with that value is accepted, the setting then has it, the query answers exactly its
  decimal text and changes nothing, and the six other settings are as they were.\<close>

theorem settings_read_back:
  assumes row: "(n, get_it, most) \<in> set settings_table" and v: "v \<le> most"
    and set: "handle_line (lit ''++'' @ lit n @ 32 # dec v) s = (r, s')"
  shows "r = LineOk \<and> get_it s' = v \<and> handle_line (lit ''++'' @ lit n) s' = (Response (dec v), s') \<and>
    (\<forall>(n', get', most') \<in> set settings_table. n' \<noteq> n \<longrightarrow> get' s' = get' s)"
proof -
  note plain = plain_names[OF row]
  have "run_command (lit n) (dec v) s = (r, s')"
    using set by (simp only: handle_line_assign[OF plain plain_dec])
  then have "r = LineOk \<and> get_it s' = v \<and>
      (\<forall>(n', get', most') \<in> set settings_table. n' \<noteq> n \<longrightarrow> get' s' = get' s)"
    using row v by (simp add: settings_table_def, elim disjE) (auto simp: run_assign unat_u8 unat_u32)
  moreover have "handle_line (lit ''++'' @ lit n) s' = (Response (dec (get_it s')), s')"
    using run_query[OF row] by (simp only: handle_line_query[OF plain])
  ultimately show ?thesis by simp
qed

theorem settings_read_back_witness:
  "fst (handle_line (lit ''++eot_char'') (snd (handle_line (lit ''++eot_char 10'') (with_addr 5)))) =
   Response (lit ''10'')"
proof -
  have line: "lit ''++eot_char 10'' = lit ''++'' @ lit ''eot_char'' @ 32 # dec 10"
    "lit ''++eot_char'' = lit ''++'' @ lit ''eot_char''" "lit ''10'' = dec 10"
    by (simp_all add: lit_def dec.simps)
  obtain r s' where set: "handle_line (lit ''++'' @ lit ''eot_char'' @ 32 # dec 10) (with_addr 5) = (r, s')"
    by fastforce
  show ?thesis
    unfolding line using settings_read_back[OF _ _ set, of "\<lambda>s. unat (px_eot_char s)" 255] set
    by (simp add: settings_table_def)
qed

end
