(* ===== verification/Prologix_Server.thy ===== *)
theory Prologix_Server
  imports Prologix Byte_Stream Scripted_Bus
begin

text \<open>
  The Prologix TCP server of \<^verbatim>\<open>src/src/server.rs\<close>: one connection at a time, read line by line, each line
  interpreted by \<open>handle_line\<close> and carried out on the shared adapter. The adapter is the operation record of
  \<open>Backend\<close>; its \<^verbatim>\<open>init\<close>, which only \<^verbatim>\<open>++rst\<close> calls, and the outermost message of an error (\<^verbatim>\<open>{e}\<close>, where the
  model's error is the whole chain) are arguments of their own. The adapter is locked per line, so the other
  front-ends may use it before each line: that is the argument \<open>meanwhile\<close>.
\<close>

section \<open>Lines\<close>

text \<open>
  \<^verbatim>\<open>Lines::next_line\<close>: the bytes up to a line feed, or what is left when the peer has closed; the line feed
  and one carriage return before it are cut off, and bytes that are not UTF-8 are an error.
\<close>

definition line_text :: "bytes \<Rightarrow> bool \<Rightarrow> (io_error, rstr) result" where
  "line_text raw terminated =
     (case from_utf8 raw of
        None \<Rightarrow> Inl InvalidData
      | Some t \<Rightarrow> Inr (if terminated \<and> t \<noteq> [] \<and> last t = 13 then butlast t else t))"

definition next_line :: "stream \<Rightarrow> (io_error, (rstr \<times> stream) option) result" where
  "next_line s =
     (let raw = takeWhile (\<lambda>b. b \<noteq> 10) (pending s)
      in if length raw < length (pending s) then
           map_sum (\<lambda>e. e) (\<lambda>t. Some (t, s\<lparr>pending := drop (length raw + 1) (pending s)\<rparr>)) (line_text raw True)
         else case broken s of
                Some e \<Rightarrow> Inl e
              | None \<Rightarrow>
                  if raw = [] then Inr None
                  else map_sum (\<lambda>e. e) (\<lambda>t. Some (t, s\<lparr>pending := []\<rparr>)) (line_text raw False))"

section \<open>One line\<close>

text \<open>A connection: the settings, the adapter, what the client has been sent, and how many more writes its
  socket takes before it fails.\<close>

record 'b px_session =
  pc_state :: prologix_state
  pc_bus :: 'b
  pc_sent :: bytes
  pc_room :: nat

type_synonym 'b px_outcome = "(io_error, unit) result \<times> 'b px_session"

definition write_all :: "bytes \<Rightarrow> 'b px_session \<Rightarrow> 'b px_outcome" where
  "write_all bs c =
     (if pc_room c = 0 then (Inl (OtherIo 32), c)
      else (Inr (), c\<lparr>pc_sent := pc_sent c @ bs, pc_room := pc_room c - 1\<rparr>))"

definition send_response :: "rstr \<Rightarrow> 'b px_session \<Rightarrow> 'b px_outcome" where
  "send_response r c =
     (case write_all (as_bytes r) c of
        (Inl e, c1) \<Rightarrow> (Inl e, c1)
      | (Inr _, c1) \<Rightarrow> write_all [10] c1)"

definition write_text :: "rstr \<Rightarrow> 'b px_session \<Rightarrow> 'b px_outcome" where
  "write_text t c = write_all (as_bytes (t @ [10])) c"

text \<open>An operation on the locked adapter, and what follows when it succeeds.\<close>

definition at_adapter :: "('b \<Rightarrow> 'a io \<times> 'b) \<Rightarrow> ('a \<Rightarrow> 'b px_session \<Rightarrow> 'b px_outcome) \<Rightarrow> (rstr \<Rightarrow> 'b px_session \<Rightarrow> 'b px_outcome) \<Rightarrow>
    'b px_session \<Rightarrow> 'b px_outcome" where
  "at_adapter act succeeded failed c =
     (let (r, b) = act (pc_bus c); c1 = c\<lparr>pc_bus := b\<rparr>
      in case r of Inr v \<Rightarrow> succeeded v c1 | Inl e \<Rightarrow> failed e c1)"

text \<open>A failure that is only logged, a reply of bytes with the end-of-text character, nothing to say.\<close>

definition quietly :: "'a \<Rightarrow> 'b px_session \<Rightarrow> 'b px_outcome" where
  "quietly v c = (Inr (), c)"

definition reply_read :: "bytes \<times> bool \<Rightarrow> 'b px_session \<Rightarrow> 'b px_outcome" where
  "reply_read r c = write_all (apply_eot (pc_state c) (fst r)) c"

fun carry_out ::
    "(rstr \<Rightarrow> rstr) \<Rightarrow> 'b backend_ops \<Rightarrow> (u8 \<Rightarrow> 'b \<Rightarrow> unit io \<times> 'b) \<Rightarrow> u8 \<Rightarrow> line_result \<Rightarrow> 'b px_session \<Rightarrow> 'b px_outcome" where
  "carry_out shown ops init default_pad LineOk c = (Inr (), c)"
| "carry_out shown ops init default_pad (Response r) c = send_response r c"
| "carry_out shown ops init default_pad (LineError e) c = write_text (lit ''error: '' @ e) c"
| "carry_out shown ops init default_pad (Forward pad data send_eoi auto_read) c =
     at_adapter (op_write ops pad data send_eoi)
       (\<lambda>_ c1. if auto_read then at_adapter (op_read ops pad 65536) reply_read quietly c1 else (Inr (), c1))
       quietly c"
| "carry_out shown ops init default_pad (Read until_eoi until_char) c =
     at_adapter (op_read ops (px_addr (pc_state c)) 65536) reply_read quietly c"
| "carry_out shown ops init default_pad (SerialPoll pad) c =
     at_adapter (op_serial_poll ops pad) (\<lambda>stb. write_text (dec (unat stb))) quietly c"
| "carry_out shown ops init default_pad (LineTrigger pad) c = at_adapter (op_trigger ops pad) quietly quietly c"
| "carry_out shown ops init default_pad Srq c =
     at_adapter (op_srq_asserted ops) (\<lambda>asserted. write_text (dec (of_bool asserted))) quietly c"
| "carry_out shown ops init default_pad (ListenOnly None) c =
     write_text (dec (of_bool (op_listen_only ops (pc_bus c)))) c"
| "carry_out shown ops init default_pad (ListenOnly (Some enable)) c =
     at_adapter (op_set_listen_only ops enable) quietly (\<lambda>e. write_text (lit ''error: '' @ shown e)) c"
| "carry_out shown ops init default_pad (DeviceMode None) c =
     write_text (case op_device_address ops (pc_bus c) of Some a \<Rightarrow> dec (unat a) | None \<Rightarrow> lit ''off'') c"
| "carry_out shown ops init default_pad (DeviceMode (Some target)) c =
     at_adapter (op_set_device_mode ops target) quietly (\<lambda>e. write_text (lit ''error: '' @ shown e)) c"
| "carry_out shown ops init default_pad BusLines c =
     at_adapter (op_bus_lines ops) (\<lambda>lines. write_text (show_bus_lines lines)) quietly c"
| "carry_out shown ops init default_pad (DeviceClear pad) c = at_adapter (op_device_clear ops pad) quietly quietly c"
| "carry_out shown ops init default_pad (GoToLocal pad) c = at_adapter (op_go_to_local ops pad) quietly quietly c"
| "carry_out shown ops init default_pad LocalLockout c = at_adapter (op_local_lockout ops) quietly quietly c"
| "carry_out shown ops init default_pad Ifc c = at_adapter (op_ifc ops) quietly quietly c"
| "carry_out shown ops init default_pad Reset c =
     (let (r, c1) = at_adapter (init 0) quietly quietly c in (r, c1\<lparr>pc_state := with_addr default_pad\<rparr>))"

definition serve_line ::
    "(rstr \<Rightarrow> rstr) \<Rightarrow> 'b backend_ops \<Rightarrow> (u8 \<Rightarrow> 'b \<Rightarrow> unit io \<times> 'b) \<Rightarrow> u8 \<Rightarrow> rstr \<Rightarrow> 'b px_session \<Rightarrow> 'b px_outcome" where
  "serve_line shown ops init default_pad line c =
     (let (r, st) = handle_line line (pc_state c)
      in carry_out shown ops init default_pad r (c\<lparr>pc_state := st\<rparr>))"

section \<open>Connections\<close>

lemma next_line_shrinks: "next_line s = Inr (Some (t, s')) \<Longrightarrow> length (pending s') < length (pending s)"
  by (auto simp: next_line_def Let_def map_sum_def line_text_def split: if_splits option.splits sum.splits)

function serve_lines ::
    "(rstr \<Rightarrow> rstr) \<Rightarrow> 'b backend_ops \<Rightarrow> (u8 \<Rightarrow> 'b \<Rightarrow> unit io \<times> 'b) \<Rightarrow> u8 \<Rightarrow> ('b \<Rightarrow> 'b) \<Rightarrow> stream \<Rightarrow> 'b px_session \<Rightarrow> 'b px_outcome" where
  "serve_lines shown ops init default_pad meanwhile s c =
     (case next_line s of
        Inl e \<Rightarrow> (Inl e, c)
      | Inr None \<Rightarrow> (Inr (), c)
      | Inr (Some (line, s1)) \<Rightarrow>
          (case serve_line shown ops init default_pad line (c\<lparr>pc_bus := meanwhile (pc_bus c)\<rparr>) of
             (Inl e, c1) \<Rightarrow> (Inl e, c1)
           | (Inr _, c1) \<Rightarrow> serve_lines shown ops init default_pad meanwhile s1 c1))"
  by pat_completeness auto
termination
  by (relation "measure (\<lambda>(_, _, _, _, _, s, _). length (pending s))") (auto simp: next_line_shrinks)

declare serve_lines.simps [simp del]

definition handle_px_connection ::
    "(rstr \<Rightarrow> rstr) \<Rightarrow> 'b backend_ops \<Rightarrow> (u8 \<Rightarrow> 'b \<Rightarrow> unit io \<times> 'b) \<Rightarrow> u8 \<Rightarrow> ('b \<Rightarrow> 'b) \<Rightarrow> stream \<Rightarrow> nat \<Rightarrow> 'b \<Rightarrow> 'b px_outcome" where
  "handle_px_connection shown ops init default_pad meanwhile s room b =
     serve_lines shown ops init default_pad meanwhile s
       \<lparr>pc_state = with_addr default_pad, pc_bus = b, pc_sent = [], pc_room = room\<rparr>"

text \<open>\<^verbatim>\<open>run\<close>: one connection after the other; how a connection ended is only logged.\<close>

fun run_server ::
    "(rstr \<Rightarrow> rstr) \<Rightarrow> 'b backend_ops \<Rightarrow> (u8 \<Rightarrow> 'b \<Rightarrow> unit io \<times> 'b) \<Rightarrow> u8 \<Rightarrow> ('b \<Rightarrow> 'b) \<Rightarrow> (stream \<times> nat) list \<Rightarrow> 'b \<Rightarrow> bytes list \<times> 'b" where
  "run_server shown ops init default_pad meanwhile [] b = ([], b)"
| "run_server shown ops init default_pad meanwhile ((s, room) # clients) b =
     (let c = snd (handle_px_connection shown ops init default_pad meanwhile s room b);
          (outs, b1) = run_server shown ops init default_pad meanwhile clients (pc_bus c)
      in (pc_sent c # outs, b1))"

section \<open>Laws\<close>

lemma write_all_state [simp]: "pc_state (snd (write_all bs c)) = pc_state c" "pc_bus (snd (write_all bs c)) = pc_bus c"
  by (simp_all add: write_all_def)

lemma write_text_state [simp]: "pc_state (snd (write_text t c)) = pc_state c" "pc_bus (snd (write_text t c)) = pc_bus c"
  by (simp_all add: write_text_def)

lemma send_response_state [simp]:
  "pc_state (snd (send_response t c)) = pc_state c" "pc_bus (snd (send_response t c)) = pc_bus c"
  by (simp_all add: send_response_def write_all_def)

lemma at_adapter_state:
  assumes "\<And>v c1. pc_state (snd (good v c1)) = pc_state c1" "\<And>e c1. pc_state (snd (bad e c1)) = pc_state c1"
  shows "pc_state (snd (at_adapter act good bad c)) = pc_state c"
  by (simp add: at_adapter_def Let_def assms split: prod.split sum.split)

lemma replies_keep_state [simp]:
  "pc_state (snd (quietly v c)) = pc_state c" "pc_state (snd (reply_read r c)) = pc_state c"
  by (simp_all add: quietly_def reply_read_def)

lemma carry_out_state:
  "pc_state (snd (carry_out shown ops init default_pad r c)) = (if r = Reset then with_addr default_pad else pc_state c)"
  by (cases "(shown, ops, init, default_pad, r, c)" rule: carry_out.cases)
    (simp_all add: at_adapter_state split_def Let_def)

section \<open>What a client can reach\<close>

text \<open>Two adapters that agree on the operations of the Prologix server, addressed operations only for the
  primary addresses 0 to 30.\<close>

definition same_bus_access :: "'b backend_ops \<Rightarrow> 'b backend_ops \<Rightarrow> bool" where
  "same_bus_access ops ops' \<longleftrightarrow>
     (\<forall>pad. pad \<le> 30 \<longrightarrow> op_write ops pad = op_write ops' pad \<and> op_read ops pad = op_read ops' pad \<and>
        op_serial_poll ops pad = op_serial_poll ops' pad \<and> op_trigger ops pad = op_trigger ops' pad \<and>
        op_device_clear ops pad = op_device_clear ops' pad \<and> op_go_to_local ops pad = op_go_to_local ops' pad \<and>
        op_set_device_mode ops (Some pad) = op_set_device_mode ops' (Some pad)) \<and>
     op_set_device_mode ops None = op_set_device_mode ops' None \<and>
     op_device_address ops = op_device_address ops' \<and> op_set_listen_only ops = op_set_listen_only ops' \<and>
     op_listen_only ops = op_listen_only ops' \<and> op_srq_asserted ops = op_srq_asserted ops' \<and>
     op_bus_lines ops = op_bus_lines ops' \<and> op_local_lockout ops = op_local_lockout ops' \<and> op_ifc ops = op_ifc ops'"

lemma target_device: "target_ok (DeviceMode (Some t)) \<longleftrightarrow> (case t of Some pad \<Rightarrow> pad \<le> 30 | None \<Rightarrow> True)"
  by (cases t) simp_all

lemma carry_out_same:
  assumes "same_bus_access ops ops'" "target_ok r" "settings_ok (pc_state c)"
  shows "carry_out shown ops init default_pad r c = carry_out shown ops' init default_pad r c"
  using assms unfolding same_bus_access_def settings_ok_def
  by (cases "(shown, ops, init, default_pad, r, c)" rule: carry_out.cases)
    (simp_all add: target_device cong: if_cong split: option.splits)

lemma serve_line_same:
  assumes "same_bus_access ops ops'" "settings_ok (pc_state c)"
  shows "serve_line shown ops init default_pad line c = serve_line shown ops' init default_pad line c"
proof -
  obtain r st where r: "handle_line line (pc_state c) = (r, st)" by fastforce
  with handle_line_ok[OF assms(2), of line] show ?thesis
    by (simp add: serve_line_def carry_out_same[OF assms(1)] line_ok_def)
qed

lemma serve_line_settings:
  assumes "default_pad \<le> 30" "settings_ok (pc_state c)"
  shows "settings_ok (pc_state (snd (serve_line shown ops init default_pad line c)))"
  using handle_line_ok[OF assms(2), of line] with_addr_ok[OF assms(1)]
  by (simp add: serve_line_def carry_out_state line_ok_def split_def Let_def)

lemma serve_lines_same:
  assumes "same_bus_access ops ops'" "default_pad \<le> 30" "settings_ok (pc_state c)"
  shows "serve_lines shown ops init default_pad meanwhile s c = serve_lines shown ops' init default_pad meanwhile s c"
  using assms
proof (induction shown ops init default_pad meanwhile s c rule: serve_lines.induct)
  case (1 shown ops init default_pad meanwhile s c)
  let ?c = "c\<lparr>pc_bus := meanwhile (pc_bus c)\<rparr>"
  show ?case
  proof (cases "next_line s")
    case (Inr n)
    show ?thesis
    proof (cases n)
      case (Some ls)
      obtain line s1 where ls: "(line, s1) = ls" by (cases ls) simp
      obtain r c1 where sl: "serve_line shown ops init default_pad line ?c = (r, c1)" by fastforce
      have ok: "settings_ok (pc_state c1)"
        using serve_line_settings[of default_pad ?c shown ops init line] 1(3,4) sl by simp
      have same: "serve_line shown ops' init default_pad line ?c = (r, c1)"
        using serve_line_same[OF 1(2), of ?c] 1(4) sl by simp
      show ?thesis
        using 1(1)[OF Inr Some ls sl[symmetric] _ 1(2,3) ok]
        by (simp add: serve_lines.simps[of _ _ _ _ _ s] Inr Some ls[symmetric] sl same split: sum.split)
    qed (simp add: serve_lines.simps[of _ _ _ _ _ s] Inr)
  qed (simp add: serve_lines.simps[of _ _ _ _ _ s])
qed

text \<open>A line that reads as text reaches the interpreter as it was sent.\<close>

lemma next_line_ascii:
  assumes "list_all (\<lambda>c. c < 0x80 \<and> c \<noteq> 10 \<and> c \<noteq> 13) l"
  shows "next_line (feed (as_bytes l @ [10]) s) = Inr (Some (l, s))"
proof -
  have ascii: "list_all (\<lambda>c. c < 0x80) l" using assms by (simp add: list_all_iff)
  have "x \<noteq> 10" if "x \<in> set (as_bytes l)" for x
  proof -
    obtain c where c: "c < 0x80" "c \<noteq> 10" "x = of_nat c"
      using \<open>x \<in> set (as_bytes l)\<close> assms by (auto simp: as_bytes_ascii[OF ascii] list_all_iff)
    then have "unat x = c" by (simp add: of_nat_unat_len)
    with c show ?thesis by auto
  qed
  then have "takeWhile (\<lambda>b. b \<noteq> 10) (pending (feed (as_bytes l @ [10]) s)) = as_bytes l"
    by (simp add: takeWhile_append2)
  moreover have "from_utf8 (as_bytes l) = Some l"
    by (simp add: from_utf8_def lossy_as_bytes_ascii[OF ascii])
  moreover have "l \<noteq> [] \<Longrightarrow> last l \<noteq> 13"
    using assms by (simp add: list_all_iff)
  ultimately show ?thesis
    by (auto simp: next_line_def line_text_def feed_def)
qed

lemma handle_line_data:
  assumes "list_all (\<lambda>c. c < 0x80 \<and> c \<noteq> 10 \<and> c \<noteq> 13) l" "strip_prefix (lit ''++'') l = None"
  shows "handle_line l st = (handle_data l st, st)"
proof -
  have "trim_end_matches [13, 10] l = l"
    using assms(1) by (cases l rule: rev_cases) (simp_all add: trim_end_matches_def)
  with assms(2) show ?thesis by (simp add: handle_line_def)
qed

lemma refused_line:
  assumes "fst (handle_line line (pc_state c)) = LineError e"
  shows "serve_line shown ops init default_pad line c = write_text (lit ''error: '' @ e) c"
  using handle_line_refusal[of "pc_state c" line] assms
  by (simp add: serve_line_def refusal_keeps_def split_def Let_def)

section \<open>Properties\<close>


text \<open>An adapter that cannot do any of the things the Prologix server has no use for.\<close>

definition restricted_ops :: "scripted backend_ops" where
  "restricted_ops = scripted_ops\<lparr>op_set_timeout := (\<lambda>t b. b), op_set_eos := (\<lambda>c e b. b),
     op_write := (\<lambda>pad d e b. if pad \<le> 30 then op_write scripted_ops pad d e b else (Inl [], b))\<rparr>"

definition demo_clients :: "(stream \<times> nat) list" where
  "demo_clients = [(\<lparr>pending = map of_char ''++addr 31'' @ [10] @ map of_char ''++read_tmo_ms 9'' @ [10] @
     map of_char ''*RST'' @ [10], broken = None\<rparr>, 4)]"


text \<open>A line of text that is not a command is one write to the addressed instrument: its bytes, the
  terminator of the end-of-string mode, and END when it is enabled. With auto-read on, a write that worked is
  followed by one read from the same instrument, whose bytes go to the client with the end-of-text character
  when that is enabled. A failing write or read is silent, and the next line is served.\<close>

theorem data_line_exchange:
  assumes "list_all (\<lambda>c. c < 0x80 \<and> c \<noteq> 10 \<and> c \<noteq> 13) l" "strip_prefix (lit ''++'') l = None"
    and wr: "op_write ops (px_addr (pc_state c)) (as_bytes l @ eos_terminator (px_eos_mode (pc_state c)))
      (px_eoi (pc_state c)) (meanwhile (pc_bus c)) = (w, b1)"
    and rd: "op_read ops (px_addr (pc_state c)) 65536 b1 = (r, b2)"
  shows "serve_lines shown ops init default_pad meanwhile (feed (as_bytes l @ [10]) s) c =
    (let go = serve_lines shown ops init default_pad meanwhile s
     in if w = Inr () \<and> px_auto_read (pc_state c) then
          case r of
            Inl _ \<Rightarrow> go (c\<lparr>pc_bus := b2\<rparr>)
          | Inr (d, _) \<Rightarrow>
              if pc_room c = 0 then (Inl (OtherIo 32), c\<lparr>pc_bus := b2\<rparr>)
              else go (c\<lparr>pc_bus := b2, pc_sent := pc_sent c @ d @
                     (if px_eot_enable (pc_state c) then [px_eot_char (pc_state c)] else []),
                     pc_room := pc_room c - 1\<rparr>)
        else go (c\<lparr>pc_bus := b1\<rparr>))"
proof -
  let ?c = "c\<lparr>pc_bus := meanwhile (pc_bus c)\<rparr>"
  have "serve_line shown ops init default_pad l ?c =
      (if w = Inr () \<and> px_auto_read (pc_state c) then
         case r of Inl _ \<Rightarrow> (Inr (), c\<lparr>pc_bus := b2\<rparr>)
         | Inr dd \<Rightarrow> reply_read dd (c\<lparr>pc_bus := b2\<rparr>)
       else (Inr (), c\<lparr>pc_bus := b1\<rparr>))"
    using wr rd
    by (cases w) (simp_all add: serve_line_def handle_line_data[OF assms(1,2)] handle_data_def at_adapter_def
        quietly_def split: sum.split)
  moreover have "serve_lines shown ops init default_pad meanwhile (feed (as_bytes l @ [10]) s) c =
      (case serve_line shown ops init default_pad l ?c of
         (Inl e, c1) \<Rightarrow> (Inl e, c1)
       | (Inr _, c1) \<Rightarrow> serve_lines shown ops init default_pad meanwhile s c1)"
    by (subst serve_lines.simps) (simp only: next_line_ascii[OF assms(1)] sum.case option.case prod.case)
  ultimately show ?thesis
    by (cases r) (simp_all add: Let_def reply_read_def write_all_def apply_eot_def split: prod.split)
qed

definition demo_px :: "scripted px_session" where
  "demo_px = \<lparr>pc_state = (with_addr 5)\<lparr>px_auto_read := True, px_eot_enable := True, px_eot_char := 4\<rparr>,
     pc_bus = scripted0\<lparr>sb_replies := [Inr ([72, 80], True)]\<rparr>, pc_sent = [], pc_room = 3\<rparr>"

theorem data_line_exchange_witness:
  "pc_sent (snd (serve_lines (\<lambda>e. e) scripted_ops (\<lambda>_ b. (Inr (), b)) 5 (\<lambda>b. b)
     (feed (as_bytes (lit ''ID?'') @ [10]) \<lparr>pending = [], broken = None\<rparr>) demo_px)) = [72, 80, 4]"
proof -
  let ?b1 = "(pc_bus demo_px)\<lparr>sb_log := [(True, as_bytes (lit ''ID?'') @ [13, 10], True)]\<rparr>"
  let ?b2 = "?b1\<lparr>sb_replies := [], sb_got := [([72, 80], True)]\<rparr>"
  have "serve_lines (\<lambda>e. e) scripted_ops (\<lambda>_ b. (Inr (), b)) 5 (\<lambda>b. b) \<lparr>pending = [], broken = None\<rparr> c = (Inr (), c)" for c
    by (simp add: serve_lines.simps next_line_def)
  then show ?thesis
    using data_line_exchange[where l = "lit ''ID?''" and c = demo_px and ops = scripted_ops and meanwhile = "\<lambda>b. b"
        and w = "Inr ()" and ?b1.0 = ?b1 and r = "Inr ([72, 80], True)" and ?b2.0 = ?b2
        and shown = "\<lambda>e. e" and init = "\<lambda>_ b. (Inr (), b)" and default_pad = 5
        and s = "\<lparr>pending = [], broken = None\<rparr>"]
    by (simp add: lit_def strip_prefix_def demo_px_def with_addr_def scripted_ops_def scripted0_def
        eos_terminator_def next_reply_def)
qed

end
