(* ===== verification/Capture.thy ===== *)
theory Capture
  imports Prologix_Server
begin

text \<open>
  The capture front-end of \<^verbatim>\<open>src/src/capture.rs\<close>: the bytes a talk-only source puts on the bus, streamed to
  one client at a time. A round of the streaming loop sees whether the watcher has noticed the client's
  departure and what the other front-ends did to the adapter since the last round; a loop whose rounds are
  used up is still running.
\<close>

abbreviation CHUNK :: nat where "CHUNK \<equiv> 65536"

definition can_capture :: "'b backend_ops \<Rightarrow> 'b \<Rightarrow> bool" where
  "can_capture ops b \<longleftrightarrow> op_listen_only ops b \<or> op_device_address ops b \<noteq> None"

record 'b capture_round =
  cr_gone :: bool
  cr_meanwhile :: "'b \<Rightarrow> 'b"

text \<open>The client's socket takes \<open>room\<close> more writes. The result is None while the loop runs.\<close>

fun stream_to ::
    "'b backend_ops \<Rightarrow> 'b capture_round list \<Rightarrow> nat \<Rightarrow> bytes \<Rightarrow> 'b \<Rightarrow> unit io option \<times> bytes \<times> 'b" where
  "stream_to ops [] room sent b = (None, sent, b)"
| "stream_to ops (rd # rounds) room sent b =
     (if cr_gone rd then (Some (Inr ()), sent, b)
      else let b1 = cr_meanwhile rd b
           in if \<not> can_capture ops b1 then (Some (Inr ()), sent, b1)
              else let (r, b2) = op_read ops 0 CHUNK b1;
                       chunk = (case r of Inr (data, _) \<Rightarrow> data | Inl _ \<Rightarrow> [])
                   in if chunk = [] then stream_to ops rounds room sent b2
                      else if room = 0 then (Some (Inl (lit ''capture client write'')), sent, b2)
                      else stream_to ops rounds (room - 1) (sent @ chunk) b2)"

section \<open>Accepting clients\<close>

text \<open>The accept loop of \<^verbatim>\<open>run\<close> and the end of the tasks it spawns. A client is turned away with a message, or
  its stream starts.\<close>

datatype capture_answer = TurnedAway rstr | Streams

record capture_server =
  cs_busy :: bool
  cs_running :: nat

definition accept_client :: "bool \<Rightarrow> capture_server \<Rightarrow> capture_answer \<times> capture_server" where
  "accept_client in_mode c =
     (if cs_busy c then (TurnedAway (lit ''error: capture already in progress'' @ [10]), c)
      else if \<not> in_mode then
        (TurnedAway (lit ''error: not capturing; use ++lon 1 or ++dev <addr>'' @ [10]), c\<lparr>cs_busy := False\<rparr>)
      else (Streams, c\<lparr>cs_busy := True, cs_running := cs_running c + 1\<rparr>))"

definition end_stream :: "capture_server \<Rightarrow> capture_server" where
  "end_stream c = c\<lparr>cs_busy := False, cs_running := cs_running c - 1\<rparr>"

inductive capture_run :: "capture_server \<Rightarrow> (bool \<times> capture_answer) list \<Rightarrow> bool" where
  Start: "capture_run \<lparr>cs_busy = False, cs_running = 0\<rparr> []"
| Accept: "capture_run c tr \<Longrightarrow> accept_client in_mode c = (a, c') \<Longrightarrow> capture_run c' (tr @ [(in_mode, a)])"
| Ended: "capture_run c tr \<Longrightarrow> 0 < cs_running c \<Longrightarrow> capture_run (end_stream c) tr"

section \<open>Properties\<close>

text \<open>An adapter whose successful reads leave a trace, which nothing else does.\<close>

definition read_data :: "(bytes \<times> bool) io \<Rightarrow> bytes" where
  "read_data r = (case r of Inr (data, _) \<Rightarrow> data | Inl _ \<Rightarrow> [])"

definition traces_reads :: "'b backend_ops \<Rightarrow> ('b \<Rightarrow> bytes) \<Rightarrow> bool" where
  "traces_reads ops seen \<longleftrightarrow>
     (\<forall>pad n b. seen (snd (op_read ops pad n b)) = seen b @ read_data (fst (op_read ops pad n b)))"

text \<open>C31. A capture client gets the bus byte for byte: at every moment of a stream, whatever reads fail and
  whatever the other front-ends do that is not a read, what the client has been sent is exactly what the
  adapter read since the stream began, in order; only when a write to the client itself fails is one last
  non-empty chunk missing, and then the stream ends with that error. The stream ends without an error only
  when the client is gone or the adapter has left its capture modes.\<close>

theorem capture_is_faithful:
  assumes "traces_reads ops seen" "\<forall>rd \<in> set rounds. \<forall>b. seen (cr_meanwhile rd b) = seen b"
    and "stream_to ops rounds room sent b = (res, sent', b')"
  shows "\<exists>got. sent' = sent @ got \<and>
    (case res of
       Some (Inl _) \<Rightarrow> \<exists>lost. lost \<noteq> [] \<and> seen b' = seen b @ got @ lost
     | Some (Inr _) \<Rightarrow> seen b' = seen b @ got \<and> ((\<exists>rd \<in> set rounds. cr_gone rd) \<or> \<not> can_capture ops b')
     | None \<Rightarrow> seen b' = seen b @ got)"
  using assms(2,3)
proof (induction rounds arbitrary: room sent b)
  case (Cons rd rounds)
  let ?b1 = "cr_meanwhile rd b"
  obtain r b2 where read: "op_read ops 0 CHUNK ?b1 = (r, b2)" by fastforce
  have seen2: "seen b2 = seen b @ read_data r"
    using assms(1) Cons.prems(1) read unfolding traces_reads_def by (metis fst_conv snd_conv list.set_intros(1))
  have rest: "\<forall>rd \<in> set rounds. \<forall>b. seen (cr_meanwhile rd b) = seen b"
    using Cons.prems(1) by simp
  consider "cr_gone rd \<or> \<not> can_capture ops ?b1" | "\<not> cr_gone rd" "can_capture ops ?b1" by blast
  then show ?case
  proof cases
    case 1
    then show ?thesis using Cons.prems by (auto split: if_splits)
  next
    case 2
    have step: "stream_to ops (rd # rounds) room sent b =
        (if read_data r = [] then stream_to ops rounds room sent b2
         else if room = 0 then (Some (Inl (lit ''capture client write'')), sent, b2)
         else stream_to ops rounds (room - 1) (sent @ read_data r) b2)"
      using 2 by (simp add: read read_data_def Let_def)
    consider "read_data r = []" | "read_data r \<noteq> []" "room = 0" | "read_data r \<noteq> []" "room \<noteq> 0" by blast
    then show ?thesis
    proof cases
      case 1
      then show ?thesis
        using Cons.IH[OF rest, of room sent b2] Cons.prems(2) step seen2
        by (auto split: option.splits sum.splits)
    next
      case 2
      then show ?thesis using Cons.prems(2) step seen2 by auto
    next
      case 3
      then have "stream_to ops rounds (room - 1) (sent @ read_data r) b2 = (res, sent', b')"
        using Cons.prems(2) step by simp
      from Cons.IH[OF rest this] obtain got where "sent' = (sent @ read_data r) @ got"
        "case res of
           Some (Inl _) \<Rightarrow> \<exists>lost. lost \<noteq> [] \<and> seen b' = seen b2 @ got @ lost
         | Some (Inr _) \<Rightarrow> seen b' = seen b2 @ got \<and> ((\<exists>rd \<in> set rounds. cr_gone rd) \<or> \<not> can_capture ops b')
         | None \<Rightarrow> seen b' = seen b2 @ got" by blast
      then show ?thesis
        by (intro exI[of _ "read_data r @ got"]) (simp add: seen2 split: option.splits sum.splits, blast?)
    qed
  qed
qed simp

definition listening_ops :: "scripted backend_ops" where
  "listening_ops = scripted_ops\<lparr>op_listen_only := (\<lambda>b. True)\<rparr>"

definition seen_bytes :: "scripted \<Rightarrow> bytes" where
  "seen_bytes b = concat (map fst (sb_got b))"

definition demo_rounds :: "scripted capture_round list" where
  "demo_rounds = replicate 3 \<lparr>cr_gone = False, cr_meanwhile = \<lambda>b. b\<rparr>"

lemma listening_traces: "traces_reads listening_ops seen_bytes"
  by (simp add: traces_reads_def listening_ops_def scripted_ops_def next_reply_def read_data_def seen_bytes_def
      split: list.split sum.split)

theorem capture_is_faithful_witness:
  "\<exists>got. snd (stream_to listening_ops demo_rounds 9 [] (scripted0\<lparr>sb_replies := [Inr ([1], False), Inl [], Inr ([2], True)]\<rparr>))
      = ([] @ got, scripted0\<lparr>sb_got := [([1], False), ([2], True)]\<rparr>) \<and> got = [1, 2]"
proof -
  let ?b = "scripted0\<lparr>sb_replies := [Inr ([1], False), Inl [], Inr ([2], True)]\<rparr>"
  let ?b' = "scripted0\<lparr>sb_got := [([1], False), ([2], True)]\<rparr>"
  have run: "stream_to listening_ops demo_rounds 9 [] ?b = (None, [1, 2], ?b')"
    by (simp add: demo_rounds_def numeral_3_eq_3 can_capture_def listening_ops_def scripted_ops_def next_reply_def scripted0_def)
  have "\<exists>got. [1, 2] = [] @ got \<and> seen_bytes ?b' = seen_bytes ?b @ got"
    using capture_is_faithful[OF listening_traces _ run] by (simp add: demo_rounds_def)
  with run show ?thesis by simp
qed

text \<open>The capture stream is never shared: in every run of the accept loop at most one stream is running, the
  busy flag is set exactly while one is, so a connecting client is given the stream exactly when none is
  running and the adapter is in a capture mode, and a finished stream makes room for the next client.\<close>

theorem capture_one_at_a_time:
  assumes "capture_run c tr"
  shows "cs_running c \<le> 1 \<and> (cs_busy c \<longleftrightarrow> cs_running c = 1) \<and>
    (fst (accept_client in_mode c) = Streams \<longleftrightarrow> cs_running c = 0 \<and> in_mode) \<and>
    fst (accept_client True (end_stream c)) = Streams"
proof -
  have "cs_running c \<le> 1 \<and> (cs_busy c \<longleftrightarrow> cs_running c = 1)"
    using assms by induction (auto simp: accept_client_def end_stream_def split: if_splits)
  then show ?thesis
    by (auto simp: accept_client_def end_stream_def)
qed

theorem capture_one_at_a_time_witness:
  "fst (accept_client True (snd (accept_client True \<lparr>cs_busy = False, cs_running = 0\<rparr>))) \<noteq> Streams"
proof -
  obtain a c where c: "accept_client True \<lparr>cs_busy = False, cs_running = 0\<rparr> = (a, c)" by fastforce
  have "capture_run c ([] @ [(True, a)])"
    using capture_run.Accept[OF capture_run.Start c] .
  moreover have "cs_running c = 1"
    using c by (auto simp: accept_client_def)
  ultimately show ?thesis
    using capture_one_at_a_time[of c _ True] c by simp
qed

end
