(* ===== verification/Usbtmc_Protocol.thy ===== *)
theory Usbtmc_Protocol
  imports Adapter
begin

text \<open>
  The USBTMC and USB488 wire format of \<^verbatim>\<open>src/src/backend/usbtmc/protocol.rs\<close>: the bulk message header with its
  tag, the three messages the driver sends, the decoder of the reply, the capabilities block and the status
  byte every control request answers with.
\<close>

section \<open>Constants\<close>

abbreviation HEADER_LEN :: nat where "HEADER_LEN \<equiv> 12"
abbreviation MSGID_DEV_DEP_MSG_OUT :: u8 where "MSGID_DEV_DEP_MSG_OUT \<equiv> 1"
abbreviation MSGID_REQUEST_DEV_DEP_MSG_IN :: u8 where "MSGID_REQUEST_DEV_DEP_MSG_IN \<equiv> 2"
abbreviation MSGID_TRIGGER :: u8 where "MSGID_TRIGGER \<equiv> 128"
abbreviation MSGID_DEV_DEP_MSG_IN :: u8 where "MSGID_DEV_DEP_MSG_IN \<equiv> 2"

abbreviation REQ_INITIATE_ABORT_BULK_OUT :: u8 where "REQ_INITIATE_ABORT_BULK_OUT \<equiv> 1"
abbreviation REQ_CHECK_ABORT_BULK_OUT_STATUS :: u8 where "REQ_CHECK_ABORT_BULK_OUT_STATUS \<equiv> 2"
abbreviation REQ_INITIATE_ABORT_BULK_IN :: u8 where "REQ_INITIATE_ABORT_BULK_IN \<equiv> 3"
abbreviation REQ_CHECK_ABORT_BULK_IN_STATUS :: u8 where "REQ_CHECK_ABORT_BULK_IN_STATUS \<equiv> 4"
abbreviation REQ_INITIATE_CLEAR :: u8 where "REQ_INITIATE_CLEAR \<equiv> 5"
abbreviation REQ_CHECK_CLEAR_STATUS :: u8 where "REQ_CHECK_CLEAR_STATUS \<equiv> 6"
abbreviation REQ_GET_CAPABILITIES :: u8 where "REQ_GET_CAPABILITIES \<equiv> 7"
abbreviation REQ_READ_STATUS_BYTE :: u8 where "REQ_READ_STATUS_BYTE \<equiv> 128"
abbreviation REQ_REN_CONTROL :: u8 where "REQ_REN_CONTROL \<equiv> 160"
abbreviation REQ_GO_TO_LOCAL :: u8 where "REQ_GO_TO_LOCAL \<equiv> 161"
abbreviation REQ_LOCAL_LOCKOUT :: u8 where "REQ_LOCAL_LOCKOUT \<equiv> 162"

abbreviation STATUS_SUCCESS :: u8 where "STATUS_SUCCESS \<equiv> 0x01"
abbreviation STATUS_PENDING :: u8 where "STATUS_PENDING \<equiv> 0x02"
abbreviation STATUS_FAILED :: u8 where "STATUS_FAILED \<equiv> 0x80"
abbreviation STATUS_TRANSFER_NOT_IN_PROGRESS :: u8 where "STATUS_TRANSFER_NOT_IN_PROGRESS \<equiv> 0x81"
abbreviation STATUS_SPLIT_NOT_IN_PROGRESS :: u8 where "STATUS_SPLIT_NOT_IN_PROGRESS \<equiv> 0x82"
abbreviation STATUS_SPLIT_IN_PROGRESS :: u8 where "STATUS_SPLIT_IN_PROGRESS \<equiv> 0x83"
abbreviation NOTIFY_SRQ :: u8 where "NOTIFY_SRQ \<equiv> 0x81"

datatype recipient = Interface | Endpoint

section \<open>Tags and padding\<close>

definition next_tag :: "u8 \<Rightarrow> u8" where
  "next_tag tag = (if tag = 255 then 1 else tag + 1)"

definition next_status_tag :: "u8 \<Rightarrow> u8" where
  "next_status_tag tag = (if 127 \<le> tag then 2 else max tag 1 + 1)"

definition pad_len :: "nat \<Rightarrow> nat" where
  "pad_len len = (4 - len mod 4) mod 4"

section \<open>Messages\<close>

definition tmc_header :: "u8 \<Rightarrow> u8 \<Rightarrow> u32 \<Rightarrow> u8 \<Rightarrow> u8 \<Rightarrow> bytes" where
  "tmc_header msg_id tag transfer_size attrs b9 =
     [msg_id, tag, NOT tag, 0] @ le32 transfer_size @ [attrs, b9, 0, 0]"

definition encode_dev_dep_msg_out :: "u8 \<Rightarrow> bytes \<Rightarrow> bool \<Rightarrow> bytes" where
  "encode_dev_dep_msg_out tag d eom =
     tmc_header MSGID_DEV_DEP_MSG_OUT tag (of_nat (length d)) (of_bool eom) 0 @ d @ replicate (pad_len (length d)) 0"

definition encode_request_dev_dep_msg_in :: "u8 \<Rightarrow> u32 \<Rightarrow> u8 option \<Rightarrow> bytes" where
  "encode_request_dev_dep_msg_in tag max_len term_char =
     (case term_char of
        Some c \<Rightarrow> tmc_header MSGID_REQUEST_DEV_DEP_MSG_IN tag max_len 0x02 c
      | None \<Rightarrow> tmc_header MSGID_REQUEST_DEV_DEP_MSG_IN tag max_len 0 0)"

definition encode_trigger :: "u8 \<Rightarrow> bytes" where
  "encode_trigger tag = tmc_header MSGID_TRIGGER tag 0 0 0"

record in_message =
  im_data :: bytes
  im_eom :: bool
  im_term_char_seen :: bool
  im_transfer_size :: nat

text \<open>\<^verbatim>\<open>{:#04x}\<close>: two hexadecimal digits.\<close>

definition hex2 :: "u8 \<Rightarrow> rstr" where
  "hex2 b = lit ''0x'' @ [hex_digit (unat b div 16), hex_digit (unat b mod 16)]"

definition parse_dev_dep_msg_in :: "bytes \<Rightarrow> u8 \<Rightarrow> in_message io" where
  "parse_dev_dep_msg_in buf tag =
     (if length buf < HEADER_LEN then
        Inl (lit ''usbtmc bulk-in transfer of '' @ dec (length buf) @
             lit '' bytes is shorter than the 12-byte header'')
      else if buf ! 0 \<noteq> MSGID_DEV_DEP_MSG_IN then
        Inl (lit ''usbtmc bulk-in MsgID '' @ hex2 (buf ! 0) @ lit '', expected DEV_DEP_MSG_IN ('' @
             hex2 MSGID_DEV_DEP_MSG_IN @ lit '')'')
      else if buf ! 1 \<noteq> tag then
        Inl (lit ''usbtmc bulk-in answers bTag '' @ dec (unat (buf ! 1)) @ lit '' but request was '' @
             dec (unat tag) @ lit '': the pipe is out of step'')
      else if buf ! 2 \<noteq> NOT tag then
        Inl (lit ''usbtmc bulk-in bTagInverse '' @ hex2 (buf ! 2) @ lit '' does not match bTag '' @ dec (unat tag))
      else
        let transfer_size = unat (of_le (take 4 (drop 4 buf)) :: u32);
            attrs = buf ! 8;
            available = length buf - HEADER_LEN
        in Inr \<lparr>im_data = take (min transfer_size available) (drop HEADER_LEN buf), im_eom = has_flag attrs 0x01,
                im_term_char_seen = has_flag attrs 0x02, im_transfer_size = transfer_size\<rparr>)"

section \<open>Capabilities and status\<close>

record capabilities =
  cap_bcd_usbtmc :: u16
  cap_term_char :: bool
  cap_bcd_usb488 :: u16
  cap_ieee_488_2 :: bool
  cap_remote_local :: bool
  cap_trigger :: bool
  cap_scpi :: bool
  cap_sr1 :: bool
  cap_rl1 :: bool
  cap_dt1 :: bool

definition default_capabilities :: capabilities where
  "default_capabilities =
     \<lparr>cap_bcd_usbtmc = 0, cap_term_char = False, cap_bcd_usb488 = 0, cap_ieee_488_2 = False, cap_remote_local = False,
      cap_trigger = False, cap_scpi = False, cap_sr1 = False, cap_rl1 = False, cap_dt1 = False\<rparr>"

definition parse_capabilities :: "bytes \<Rightarrow> capabilities io" where
  "parse_capabilities buf =
     (if length buf < 6 then
        Inl (lit ''usbtmc GET_CAPABILITIES reply of '' @ dec (length buf) @ lit '' bytes is too short'')
      else if buf ! 0 \<noteq> STATUS_SUCCESS then
        Inl (lit ''usbtmc GET_CAPABILITIES failed with status '' @ hex2 (buf ! 0))
      else
        let caps = default_capabilities\<lparr>cap_bcd_usbtmc := of_le [buf ! 2, buf ! 3],
                     cap_term_char := has_flag (buf ! 5) 0x01\<rparr>
        in if length buf \<ge> 16 then
             let iface = buf ! 14; dev = buf ! 15
             in Inr (caps\<lparr>cap_bcd_usb488 := of_le [buf ! 12, buf ! 13],
                  cap_ieee_488_2 := has_flag iface 0x04, cap_remote_local := has_flag iface 0x02,
                  cap_trigger := has_flag iface 0x01, cap_scpi := has_flag dev 0x08, cap_sr1 := has_flag dev 0x04,
                  cap_rl1 := has_flag dev 0x02, cap_dt1 := has_flag dev 0x01\<rparr>)
           else Inr caps)"

definition status_name :: "u8 \<Rightarrow> rstr" where
  "status_name status =
     hex2 status @ lit '' ('' @
     (if status = STATUS_SUCCESS then lit ''SUCCESS''
      else if status = STATUS_PENDING then lit ''PENDING''
      else if status = STATUS_FAILED then lit ''FAILED''
      else if status = STATUS_TRANSFER_NOT_IN_PROGRESS then lit ''TRANSFER_NOT_IN_PROGRESS''
      else if status = STATUS_SPLIT_NOT_IN_PROGRESS then lit ''SPLIT_NOT_IN_PROGRESS''
      else if status = STATUS_SPLIT_IN_PROGRESS then lit ''SPLIT_IN_PROGRESS''
      else lit ''unknown'') @ lit '')''"

definition check_status :: "string \<Rightarrow> bytes \<Rightarrow> unit io" where
  "check_status what reply =
     (case reply of
        [] \<Rightarrow> Inl (lit ''usbtmc '' @ lit what @ lit '': empty reply'')
      | s # _ \<Rightarrow> if s = STATUS_SUCCESS then Inr ()
                 else Inl (lit ''usbtmc '' @ lit what @ lit '' failed with status '' @ status_name s))"

section \<open>Laws\<close>

lemma pad_len_multiple: "(len + pad_len len) mod 4 = 0"
proof -
  have "(len + pad_len len) mod 4 = (len mod 4 + (4 - len mod 4)) mod 4"
    by (simp only: pad_len_def mod_add_right_eq mod_add_left_eq)
  moreover have "len mod 4 < 4" by simp
  ultimately show ?thesis by simp
qed

lemma length_tmc_header [simp]: "length (tmc_header m t n a b) = 12"
  by (simp add: tmc_header_def)

lemma tmc_header_fields [simp]:
  "(tmc_header m t n a b @ r) ! 0 = m" "(tmc_header m t n a b @ r) ! Suc 0 = t"
  "(tmc_header m t n a b @ r) ! 2 = NOT t" "(tmc_header m t n a b @ r) ! 8 = a"
  "take 4 (drop 4 (tmc_header m t n a b)) = le32 n"
  by (simp_all add: tmc_header_def nth_append numeral_2_eq_2)

text \<open>The reply a compliant device sends to the request with a tag: the header, the data, padding.\<close>

definition dev_dep_msg_in :: "u8 \<Rightarrow> bytes \<Rightarrow> u8 \<Rightarrow> bytes \<Rightarrow> bytes" where
  "dev_dep_msg_in tag d attrs trailer = tmc_header MSGID_DEV_DEP_MSG_IN tag (of_nat (length d)) attrs 0 @ d @ trailer"

lemma parse_dev_dep_msg_in_reply:
  assumes "length d < 2 ^ 32"
  shows "parse_dev_dep_msg_in (dev_dep_msg_in tag d attrs trailer) t =
    (if tag = t then Inr \<lparr>im_data = d, im_eom = has_flag attrs 0x01, im_term_char_seen = has_flag attrs 0x02,
                         im_transfer_size = length d\<rparr>
     else Inl (lit ''usbtmc bulk-in answers bTag '' @ dec (unat tag) @ lit '' but request was '' @
             dec (unat t) @ lit '': the pipe is out of step''))"
  using assms by (simp add: parse_dev_dep_msg_in_def dev_dep_msg_in_def Let_def of_nat_unat_len)

text \<open>What was accepted came with the tag.\<close>

lemma parse_dev_dep_msg_in_tag: "parse_dev_dep_msg_in buf tag = Inr m \<Longrightarrow> 12 \<le> length buf \<and> buf ! 1 = tag"
  by (auto simp: parse_dev_dep_msg_in_def Let_def split: if_splits)

lemma parse_dev_dep_msg_in_size:
  "parse_dev_dep_msg_in buf tag = Inr m \<Longrightarrow> length (im_data m) \<le> im_transfer_size m \<and> length (im_data m) + 12 \<le> length buf"
  by (auto simp: parse_dev_dep_msg_in_def Let_def split: if_splits)

end
