(* ===== verification/Usbtmc.thy ===== *)
theory Usbtmc
  imports Usbtmc_Protocol
begin

text \<open>
  The USBTMC driver of \<^verbatim>\<open>src/src/backend/usbtmc/mod.rs\<close> over an arbitrary transport: the trait
  \<^verbatim>\<open>TmcTransport\<close> is a record of functions on the state of the USB device. Waits are in milliseconds; the pauses
  between handshake polls are not part of the state.
\<close>

section \<open>Transport and state\<close>

abbreviation MAX_READ_TRANSFER :: nat where "MAX_READ_TRANSFER \<equiv> 1048576"
abbreviation HANDSHAKE_POLLS :: nat where "HANDSHAKE_POLLS \<equiv> 50"
abbreviation DRAIN_READ :: nat where "DRAIN_READ \<equiv> 4096"
abbreviation STATUS_BYTE_WAIT_MS :: nat where "STATUS_BYTE_WAIT_MS \<equiv> 1000"
abbreviation READ_RESYNC_ATTEMPTS :: nat where "READ_RESYNC_ATTEMPTS \<equiv> 3"
abbreviation READ_RESYNC_WAIT_MS :: nat where "READ_RESYNC_WAIT_MS \<equiv> 300"

record 'u tmc_transport =
  tt_bulk_out :: "bytes \<Rightarrow> ('u, unit) act"
  tt_bulk_in :: "nat \<Rightarrow> ('u, bytes) act"
  tt_bulk_in_within :: "nat \<Rightarrow> nat \<Rightarrow> ('u, bytes) act"
  tt_control_in :: "recipient \<Rightarrow> u8 \<Rightarrow> u16 \<Rightarrow> u16 \<Rightarrow> nat \<Rightarrow> ('u, bytes) act"
  tt_reset_bulk_in :: "('u, unit) act"
  tt_reset_bulk_out :: "('u, unit) act"
  tt_interface_number :: "'u \<Rightarrow> u8"
  tt_bulk_in_address :: "'u \<Rightarrow> u8"
  tt_bulk_out_address :: "'u \<Rightarrow> u8"
  tt_set_timeout :: "u32 \<Rightarrow> 'u \<Rightarrow> 'u"
  tt_has_interrupt_in :: "'u \<Rightarrow> bool"
  tt_status_byte_notification :: "u8 \<Rightarrow> nat \<Rightarrow> ('u, u8) act"
  tt_can_srq :: "'u \<Rightarrow> bool"
  tt_take_srq_status :: "'u \<Rightarrow> u8 option \<times> 'u"
  tt_peek_srq_status :: "'u \<Rightarrow> u8 option"

record 'u tmc =
  tm_transport :: 'u
  tm_caps :: capabilities
  tm_tag :: u8
  tm_status_tag :: u8
  tm_pending_out :: "u8 option"
  tm_pending_in :: "u8 option"
  tm_my_pad :: u8
  tm_eos_char :: u8
  tm_eos_enabled :: bool
  tm_timeout_ms :: u32

definition new_tmc :: "'u tmc_transport \<Rightarrow> 'u \<Rightarrow> u32 \<Rightarrow> 'u tmc" where
  "new_tmc tr transport timeout_ms =
     \<lparr>tm_transport = tt_set_timeout tr timeout_ms transport, tm_caps = default_capabilities, tm_tag = 0,
      tm_status_tag = 1, tm_pending_out = None, tm_pending_in = None, tm_my_pad = 0, tm_eos_char = 10,
      tm_eos_enabled = False, tm_timeout_ms = timeout_ms\<rparr>"

text \<open>A method of the transport as a method of the driver.\<close>

definition tmc_usb :: "('u \<Rightarrow> 'a \<times> 'u) \<Rightarrow> 'u tmc \<Rightarrow> 'a \<times> 'u tmc" where
  "tmc_usb f s = (case f (tm_transport s) of (r, u) \<Rightarrow> (r, s\<lparr>tm_transport := u\<rparr>))"

definition take_tag :: "('u tmc, u8) act" where
  "take_tag s = (let t = next_tag (tm_tag s) in (Inr t, s\<lparr>tm_tag := t\<rparr>))"

definition interface_request :: "'u tmc_transport \<Rightarrow> u8 \<Rightarrow> u16 \<Rightarrow> nat \<Rightarrow> ('u tmc, bytes) act" where
  "interface_request tr request v len s =
     tmc_usb (tt_control_in tr Interface request v (ucast (tt_interface_number tr (tm_transport s))) len) s"

definition endpoint_request :: "'u tmc_transport \<Rightarrow> u8 \<Rightarrow> u16 \<Rightarrow> u8 \<Rightarrow> nat \<Rightarrow> ('u tmc, bytes) act" where
  "endpoint_request tr request v endpoint len =
     tmc_usb (tt_control_in tr Endpoint request v (ucast endpoint) len)"

definition require_usb488 :: "string \<Rightarrow> ('u tmc, unit) act" where
  "require_usb488 what =
     andthen (asks tm_caps) (\<lambda>caps.
       if cap_bcd_usb488 caps = 0 then bail (lit what @ lit '': this is a plain USBTMC interface, not USB488'')
       else ret ())"

definition require_remote_local :: "string \<Rightarrow> ('u tmc, unit) act" where
  "require_remote_local what =
     seq (require_usb488 what) (andthen (asks tm_caps) (\<lambda>caps.
       if \<not> cap_remote_local caps then
         bail (lit what @ lit '': the device does not advertise REN_CONTROL / GO_TO_LOCAL / LOCAL_LOCKOUT'')
       else ret ()))"

section \<open>Recovery\<close>

text \<open>A PENDING reply that asks for the FIFO to be emptied.\<close>

definition drain_if_asked :: "'u tmc_transport \<Rightarrow> bytes \<Rightarrow> ('u tmc, unit) act" where
  "drain_if_asked tr rest =
     (case rest of
        b # _ \<Rightarrow> if has_flag b 0x01 then ignoring (tmc_usb (tt_bulk_in tr DRAIN_READ)) else ret ()
      | [] \<Rightarrow> ret ())"

fun abort_in_polls :: "'u tmc_transport \<Rightarrow> u8 \<Rightarrow> nat \<Rightarrow> ('u tmc, unit) act" where
  "abort_in_polls tr ep 0 = ret ()"
| "abort_in_polls tr ep (Suc n) =
     andthen (with_context (lit ''CHECK_ABORT_BULK_IN_STATUS'')
         (endpoint_request tr REQ_CHECK_ABORT_BULK_IN_STATUS 0 ep 8)) (\<lambda>status.
       if status \<noteq> [] \<and> hd status = STATUS_SUCCESS then ret ()
       else if status \<noteq> [] \<and> hd status = STATUS_PENDING then
         seq (drain_if_asked tr (tl status)) (abort_in_polls tr ep n)
       else from_result (check_status ''CHECK_ABORT_BULK_IN_STATUS'' status))"

definition abort_bulk_in :: "'u tmc_transport \<Rightarrow> u8 \<Rightarrow> ('u tmc, unit) act" where
  "abort_bulk_in tr tag =
     andthen (asks (\<lambda>s. tt_bulk_in_address tr (tm_transport s))) (\<lambda>ep.
     andthen (with_context (lit ''INITIATE_ABORT_BULK_IN'')
         (endpoint_request tr REQ_INITIATE_ABORT_BULK_IN (ucast tag) ep 2)) (\<lambda>reply.
       if reply \<noteq> [] \<and> hd reply = STATUS_SUCCESS then
         seq (tmc_usb (tt_reset_bulk_in tr))
           (seq (abort_in_polls tr ep HANDSHAKE_POLLS) (tmc_usb (tt_reset_bulk_in tr)))
       else if reply \<noteq> [] \<and> hd reply = STATUS_TRANSFER_NOT_IN_PROGRESS then tmc_usb (tt_reset_bulk_in tr)
       else from_result (check_status ''INITIATE_ABORT_BULK_IN'' reply)))"

fun abort_out_polls :: "'u tmc_transport \<Rightarrow> u8 \<Rightarrow> nat \<Rightarrow> ('u tmc, unit) act" where
  "abort_out_polls tr ep 0 = ret ()"
| "abort_out_polls tr ep (Suc n) =
     andthen (with_context (lit ''CHECK_ABORT_BULK_OUT_STATUS'')
         (endpoint_request tr REQ_CHECK_ABORT_BULK_OUT_STATUS 0 ep 8)) (\<lambda>status.
       if status \<noteq> [] \<and> hd status = STATUS_SUCCESS then ret ()
       else if status \<noteq> [] \<and> hd status = STATUS_PENDING then abort_out_polls tr ep n
       else from_result (check_status ''CHECK_ABORT_BULK_OUT_STATUS'' status))"

definition abort_bulk_out :: "'u tmc_transport \<Rightarrow> u8 \<Rightarrow> ('u tmc, unit) act" where
  "abort_bulk_out tr tag =
     andthen (asks (\<lambda>s. tt_bulk_out_address tr (tm_transport s))) (\<lambda>ep.
     andthen (with_context (lit ''INITIATE_ABORT_BULK_OUT'')
         (endpoint_request tr REQ_INITIATE_ABORT_BULK_OUT (ucast tag) ep 2)) (\<lambda>reply.
       if reply \<noteq> [] \<and> hd reply = STATUS_SUCCESS then
         seq (abort_out_polls tr ep HANDSHAKE_POLLS) (tmc_usb (tt_reset_bulk_out tr))
       else if reply \<noteq> [] \<and> hd reply = STATUS_TRANSFER_NOT_IN_PROGRESS then tmc_usb (tt_reset_bulk_out tr)
       else from_result (check_status ''INITIATE_ABORT_BULK_OUT'' reply)))"

text \<open>Whether the device reported the clear done before the polls ran out.\<close>

fun clear_polls :: "'u tmc_transport \<Rightarrow> nat \<Rightarrow> ('u tmc, bool) act" where
  "clear_polls tr 0 = ret False"
| "clear_polls tr (Suc n) =
     andthen (with_context (lit ''CHECK_CLEAR_STATUS'') (interface_request tr REQ_CHECK_CLEAR_STATUS 0 2)) (\<lambda>status.
       if status \<noteq> [] \<and> hd status = STATUS_SUCCESS then ret True
       else if status \<noteq> [] \<and> hd status = STATUS_PENDING then
         seq (drain_if_asked tr (tl status)) (clear_polls tr n)
       else seq (from_result (check_status ''CHECK_CLEAR_STATUS'' status)) (ret False))"

definition nothing_pending :: "'u tmc \<Rightarrow> 'u tmc" where
  "nothing_pending s = s\<lparr>tm_pending_in := None, tm_pending_out := None\<rparr>"

definition clear_device :: "'u tmc_transport \<Rightarrow> ('u tmc, unit) act" where
  "clear_device tr =
     andthen (with_context (lit ''INITIATE_CLEAR'') (interface_request tr REQ_INITIATE_CLEAR 0 1)) (\<lambda>reply.
     seq (from_result (check_status ''INITIATE_CLEAR'' reply))
     (andthen (clear_polls tr HANDSHAKE_POLLS) (\<lambda>finished.
       if \<not> finished then bail (lit ''usbtmc CHECK_CLEAR_STATUS still PENDING after 50 polls'')
       else seq (tmc_usb (tt_reset_bulk_in tr)) (seq (tmc_usb (tt_reset_bulk_out tr)) (modify nothing_pending)))))"

definition abort_pending :: "'u tmc_transport \<Rightarrow> ('u tmc, unit) act" where
  "abort_pending tr s =
     (let (r, s1) = (case tm_pending_in s of Some tag \<Rightarrow> abort_bulk_in tr tag s | None \<Rightarrow> (Inr (), s))
      in case (tm_pending_out s1, r) of
           (Some tag, Inr _) \<Rightarrow> abort_bulk_out tr tag s1
         | _ \<Rightarrow> (r, s1))"

definition settle :: "'u tmc_transport \<Rightarrow> ('u tmc, unit) act" where
  "settle tr s =
     (if tm_pending_in s = None \<and> tm_pending_out s = None then (Inr (), s)
      else andthen (attempt (abort_pending tr)) (\<lambda>abort.
             seq (case abort of
                    Inl _ \<Rightarrow> with_context (lit ''recovering the bulk pipe'') (clear_device tr)
                  | Inr _ \<Rightarrow> ret ())
               (modify nothing_pending)) s)"

definition fail :: "'u tmc_transport \<Rightarrow> rstr \<Rightarrow> ('u tmc, 'a) act" where
  "fail tr err = seq (ignoring (settle tr)) (bail err)"

section \<open>Messages\<close>

definition send_message :: "'u tmc_transport \<Rightarrow> string \<Rightarrow> bytes \<Rightarrow> u8 \<Rightarrow> ('u tmc, unit) act" where
  "send_message tr what msg tag =
     seq (settle tr) (seq (modify (\<lambda>s. s\<lparr>tm_pending_out := Some tag\<rparr>))
       (andthen (attempt (tmc_usb (tt_bulk_out tr msg))) (\<lambda>r.
          case r of
            Inr _ \<Rightarrow> modify (\<lambda>s. s\<lparr>tm_pending_out := None\<rparr>)
          | Inl e \<Rightarrow> fail tr (lit ''usbtmc '' @ lit what @ lit '': '' @ e))))"

definition write_message :: "'u tmc_transport \<Rightarrow> bytes \<Rightarrow> bool \<Rightarrow> ('u tmc, unit) act" where
  "write_message tr d eom =
     andthen take_tag (\<lambda>tag. send_message tr ''write'' (encode_dev_dep_msg_out tag d eom) tag)"

text \<open>The re-reads after a reply that does not parse: the last parse error, or the message.\<close>

fun resync :: "'u tmc_transport \<Rightarrow> nat \<Rightarrow> nat \<Rightarrow> u8 \<Rightarrow> nat \<Rightarrow> rstr \<Rightarrow> ('u tmc, in_message) act" where
  "resync tr cap wait tag 0 err = bail err"
| "resync tr cap wait tag (Suc n) err =
     andthen (attempt (tmc_usb (tt_bulk_in_within tr cap wait))) (\<lambda>r.
       case r of
         Inl _ \<Rightarrow> bail err
       | Inr buf \<Rightarrow>
           (case parse_dev_dep_msg_in buf tag of
              Inr m \<Rightarrow> ret m
            | Inl e \<Rightarrow> resync tr cap wait tag n e))"

definition await_message :: "'u tmc_transport \<Rightarrow> nat \<Rightarrow> u8 \<Rightarrow> ('u tmc, in_message) act" where
  "await_message tr want tag =
     (let cap = HEADER_LEN + want + pad_len want
      in andthen (asks (\<lambda>s. min (unat (tm_timeout_ms s)) READ_RESYNC_WAIT_MS)) (\<lambda>wait.
         andthen (attempt (tmc_usb (tt_bulk_in tr cap))) (\<lambda>r.
           case r of
             Inl e \<Rightarrow> bail (lit ''usbtmc read: '' @ e)
           | Inr buf \<Rightarrow>
               (case parse_dev_dep_msg_in buf tag of
                  Inr m \<Rightarrow> ret m
                | Inl e \<Rightarrow> resync tr cap wait tag READ_RESYNC_ATTEMPTS e))))"

definition read_one_transfer :: "'u tmc_transport \<Rightarrow> nat \<Rightarrow> ('u tmc, bytes \<times> bool) act" where
  "read_one_transfer tr max_len =
     (let want = max 1 (min max_len MAX_READ_TRANSFER)
      in andthen (asks (\<lambda>s. if tm_eos_enabled s \<and> cap_term_char (tm_caps s) then Some (tm_eos_char s) else None))
           (\<lambda>term_char.
         andthen take_tag (\<lambda>tag.
         seq (send_message tr ''read request'' (encode_request_dev_dep_msg_in tag (of_nat want) term_char) tag)
         (seq (modify (\<lambda>s. s\<lparr>tm_pending_in := Some tag\<rparr>))
         (andthen (attempt (await_message tr want tag)) (\<lambda>r.
           case r of
             Inl e \<Rightarrow> fail tr e
           | Inr m \<Rightarrow>
               seq (modify (\<lambda>s. s\<lparr>tm_pending_in := None\<rparr>))
                 (ret (im_data m, im_eom m \<or> im_term_char_seen m))))))))"

function read_loop :: "'u tmc_transport \<Rightarrow> nat \<Rightarrow> bytes \<Rightarrow> ('u tmc, bytes \<times> bool) act" where
  "read_loop tr want out s =
     (case read_one_transfer tr (want - length out) s of
        (Inl e, s1) \<Rightarrow> (Inl e, s1)
      | (Inr (d, ended), s1) \<Rightarrow>
          if ended \<or> want \<le> length (out @ d) then (Inr (out @ d, ended), s1)
          else if length d < want - length out \<and> d = [] then (Inr (out @ d, False), s1)
          else read_loop tr want (out @ d) s1)"
  by pat_completeness auto
termination
  by (relation "measure (\<lambda>(tr, want, out, s). want - length out)") (auto split: if_splits intro!: diff_less_mono2)

declare read_loop.simps [simp del]

definition read_message :: "'u tmc_transport \<Rightarrow> nat \<Rightarrow> ('u tmc, bytes \<times> bool) act" where
  "read_message tr max_len = read_loop tr (max 1 (min max_len MAX_READ_TRANSFER)) []"

section \<open>Status byte and remote control\<close>

definition show_option_u8 :: "u8 option \<Rightarrow> rstr" where
  "show_option_u8 x = (case x of None \<Rightarrow> lit ''None'' | Some b \<Rightarrow> lit ''Some('' @ dec (unat b) @ lit '')'')"

definition request_status_byte :: "'u tmc_transport \<Rightarrow> ('u tmc, u8) act" where
  "request_status_byte tr =
     seq (modify (\<lambda>s. s\<lparr>tm_status_tag := next_status_tag (tm_status_tag s)\<rparr>)) (andthen (asks tm_status_tag) (\<lambda>tag.
     andthen (with_context (lit ''READ_STATUS_BYTE'') (interface_request tr REQ_READ_STATUS_BYTE (ucast tag) 3)) (\<lambda>reply.
     seq (from_result (check_status ''READ_STATUS_BYTE'' reply)) (
       if length reply < 2 \<or> reply ! 1 \<noteq> tag then
         bail (lit ''READ_STATUS_BYTE reply carries bTag '' @
               show_option_u8 (if length reply < 2 then None else Some (reply ! 1)) @ lit '', expected '' @ dec (unat tag))
       else andthen (asks (\<lambda>s. tt_has_interrupt_in tr (tm_transport s))) (\<lambda>irq.
         if irq then
           andthen (asks (\<lambda>s. min (unat (tm_timeout_ms s)) STATUS_BYTE_WAIT_MS)) (\<lambda>wait.
             with_context (lit ''READ_STATUS_BYTE via the interrupt endpoint'')
               (tmc_usb (tt_status_byte_notification tr tag wait)))
         else if length reply < 3 then bail (lit ''READ_STATUS_BYTE reply is missing the status byte'')
         else ret (reply ! 2))))))"

definition read_status_byte_native :: "'u tmc_transport \<Rightarrow> ('u tmc, u8) act" where
  "read_status_byte_native tr s =
     (case tmc_usb (tt_take_srq_status tr) s of
        (Some stb, s1) \<Rightarrow> (Inr stb, s1)
      | (None, s1) \<Rightarrow> request_status_byte tr s1)"

text \<open>A control request whose whole answer is its status.\<close>

definition status_request :: "'u tmc_transport \<Rightarrow> string \<Rightarrow> u8 \<Rightarrow> u16 \<Rightarrow> ('u tmc, unit) act" where
  "status_request tr what request v =
     andthen (with_context (lit what) (interface_request tr request v 1)) (\<lambda>reply. from_result (check_status what reply))"

definition tmc_ren :: "'u tmc_transport \<Rightarrow> bool \<Rightarrow> ('u tmc, unit) act" where
  "tmc_ren tr enable = seq (require_remote_local ''REN'') (status_request tr ''REN_CONTROL'' REQ_REN_CONTROL (of_bool enable))"

definition tmc_go_to_local :: "'u tmc_transport \<Rightarrow> ('u tmc, unit) act" where
  "tmc_go_to_local tr = seq (require_remote_local ''GTL'') (status_request tr ''GO_TO_LOCAL'' REQ_GO_TO_LOCAL 0)"

definition tmc_local_lockout :: "'u tmc_transport \<Rightarrow> ('u tmc, unit) act" where
  "tmc_local_lockout tr =
     seq (require_remote_local ''LLO'') (status_request tr ''LOCAL_LOCKOUT'' REQ_LOCAL_LOCKOUT 0)"

definition tmc_serial_poll :: "'u tmc_transport \<Rightarrow> ('u tmc, u8) act" where
  "tmc_serial_poll tr = seq (require_usb488 ''serial poll'') (read_status_byte_native tr)"

definition tmc_trigger :: "'u tmc_transport \<Rightarrow> ('u tmc, unit) act" where
  "tmc_trigger tr =
     seq (require_usb488 ''trigger'') (andthen (asks tm_caps) (\<lambda>caps.
       if \<not> cap_trigger caps then bail (lit ''trigger: the device does not accept the USB488 TRIGGER message'')
       else andthen take_tag (\<lambda>tag. send_message tr ''trigger'' (encode_trigger tag) tag)))"

definition tmc_srq_asserted :: "'u tmc_transport \<Rightarrow> ('u tmc, bool) act" where
  "tmc_srq_asserted tr s =
     (if \<not> tt_has_interrupt_in tr (tm_transport s) then
        (Inl (lit ''this interface has no interrupt endpoint to report SRQ''), s)
      else (Inr (tt_peek_srq_status tr (tm_transport s) \<noteq> None), s))"

section \<open>Opening and closing\<close>

fun drain_stale :: "'u tmc_transport \<Rightarrow> nat \<Rightarrow> nat \<Rightarrow> ('u tmc, unit) act" where
  "drain_stale tr wait 0 = ret ()"
| "drain_stale tr wait (Suc n) =
     andthen (attempt (tmc_usb (tt_bulk_in_within tr DRAIN_READ wait))) (\<lambda>r.
       case r of
         Inr buf \<Rightarrow> if buf \<noteq> [] then drain_stale tr wait n else ret ()
       | Inl _ \<Rightarrow> ret ())"

definition tmc_init :: "'u tmc_transport \<Rightarrow> u8 \<Rightarrow> ('u tmc, unit) act" where
  "tmc_init tr my_pad =
     seq (modify (\<lambda>s. s\<lparr>tm_my_pad := my_pad\<rparr>))
     (andthen (with_context (lit ''GET_CAPABILITIES'') (interface_request tr REQ_GET_CAPABILITIES 0 24)) (\<lambda>reply.
     andthen (from_result (parse_capabilities reply)) (\<lambda>caps.
     seq (modify (\<lambda>s. s\<lparr>tm_caps := caps\<rparr>))
     (seq (with_context (lit ''initial device clear'') (clear_device tr))
     (andthen (asks (\<lambda>s. min (unat (tm_timeout_ms s)) READ_RESYNC_WAIT_MS)) (\<lambda>wait.
     seq (drain_stale tr wait READ_RESYNC_ATTEMPTS)
       (if cap_remote_local caps then ignoring (tmc_ren tr True) else ret ())))))))"

definition tmc_shutdown :: "'u tmc_transport \<Rightarrow> ('u tmc, unit) act" where
  "tmc_shutdown tr = andthen (asks tm_caps) (\<lambda>caps. if cap_remote_local caps then tmc_ren tr False else ret ())"

definition tmc_open :: "'u tmc_transport \<Rightarrow> 'u \<Rightarrow> u32 \<Rightarrow> 'u tmc io" where
  "tmc_open tr transport timeout_ms =
     (case with_context (lit ''usbtmc init'') (tmc_init tr 0) (new_tmc tr transport timeout_ms) of
        (Inl e, _) \<Rightarrow> Inl e
      | (Inr _, s) \<Rightarrow> Inr s)"

section \<open>The backend\<close>

abbreviation tmc_name :: rstr where
  "tmc_name \<equiv> lit ''usbtmc''"

definition tmc_ops :: "'u tmc_transport \<Rightarrow> 'u tmc backend_ops" where
  "tmc_ops tr =
     \<lparr>op_write = (\<lambda>pad. write_message tr), op_read = (\<lambda>pad. read_message tr), op_device_clear = (\<lambda>pad. clear_device tr),
      op_trigger = (\<lambda>pad. tmc_trigger tr), op_ifc = settle tr, op_ren = tmc_ren tr,
      op_go_to_remote = (\<lambda>pad. tmc_ren tr True), op_go_to_local = (\<lambda>pad. tmc_go_to_local tr),
      op_local_lockout = tmc_local_lockout tr, op_serial_poll = (\<lambda>pad. tmc_serial_poll tr),
      op_srq_asserted = tmc_srq_asserted tr, op_bus_lines = default_bus_lines tmc_name,
      op_set_listen_only = default_set_listen_only tmc_name, op_listen_only = default_listen_only,
      op_set_device_mode = default_set_device_mode tmc_name, op_device_address = default_device_address,
      op_can_subscribe_srq = (\<lambda>s. tt_can_srq tr (tm_transport s)),
      op_send_bus_command = default_send_bus_command tmc_name, op_set_atn = default_set_atn tmc_name,
      op_controller_pad = tm_my_pad, op_set_controller_pad = (\<lambda>pad. modify (\<lambda>s. s\<lparr>tm_my_pad := pad\<rparr>)),
      op_send_data_unaddressed = write_message tr, op_read_unaddressed = read_message tr,
      op_set_eos = (\<lambda>ch on s. s\<lparr>tm_eos_char := ch, tm_eos_enabled := on\<rparr>),
      op_eos = (\<lambda>s. (tm_eos_char s, tm_eos_enabled s)),
      op_set_timeout = (\<lambda>ms s. s\<lparr>tm_timeout_ms := ms, tm_transport := tt_set_timeout tr ms (tm_transport s)\<rparr>),
      op_read_slice_ms = default_read_slice_ms\<rparr>"

end
