(* ===== verification/Usbtmc_Laws.thy ===== *)
theory Usbtmc_Laws
  imports Usbtmc
begin

text \<open>
  What the USBTMC driver guarantees over any transport: it is a backend of the trait, a message goes out only on a
  pipe that is in step, a reply is taken only under the tag of its own request, and a message a device sends in
  several transfers comes back as one.
\<close>

section \<open>Settings\<close>

definition tmc_settings :: "'u tmc \<Rightarrow> u8 \<times> bool \<times> u32 \<times> capabilities \<times> u8" where
  "tmc_settings s = (tm_eos_char s, tm_eos_enabled s, tm_timeout_ms s, tm_caps s, tm_my_pad s)"

lemma keeps_tmc_usb: "(\<And>s u. p (s\<lparr>tm_transport := u\<rparr>) = p s) \<Longrightarrow> keeps p (tmc_usb f)"
  by (simp add: keeps_def tmc_usb_def split: prod.split)

text \<open>The projections the transport and the two pending marks do not touch, and those recovery leaves alone.\<close>

definition beside_pipe :: "('u tmc \<Rightarrow> 'p) \<Rightarrow> bool" where
  "beside_pipe p \<longleftrightarrow> (\<forall>s u. p (s\<lparr>tm_transport := u\<rparr>) = p s)"

definition beside_marks :: "('u tmc \<Rightarrow> 'p) \<Rightarrow> bool" where
  "beside_marks p \<longleftrightarrow> beside_pipe p \<and> (\<forall>s x. p (s\<lparr>tm_pending_in := x\<rparr>) = p s) \<and> (\<forall>s x. p (s\<lparr>tm_pending_out := x\<rparr>) = p s)"

lemma beside_settings: "beside_marks tmc_settings" "beside_marks tm_tag"
  by (simp_all add: beside_marks_def beside_pipe_def tmc_settings_def)

lemma beside_settings_pipe: "beside_pipe tmc_settings"
  by (simp add: beside_pipe_def tmc_settings_def)

lemma beside_pending: "beside_pipe tm_pending_in" "beside_pipe tm_pending_out"
  by (simp_all add: beside_pipe_def)

text \<open>A projection that the transport calls of the recovery leave alone.\<close>

definition pipe_keeps :: "'u tmc_transport \<Rightarrow> ('u tmc \<Rightarrow> 'p) \<Rightarrow> bool" where
  "pipe_keeps tr p \<longleftrightarrow>
     (\<forall>n. keeps p (tmc_usb (tt_bulk_in tr n))) \<and> (\<forall>rc rq v i n. keeps p (tmc_usb (tt_control_in tr rc rq v i n))) \<and>
     keeps p (tmc_usb (tt_reset_bulk_in tr)) \<and> keeps p (tmc_usb (tt_reset_bulk_out tr))"

lemma keeps_any_usb: "beside_pipe p \<Longrightarrow> keeps p (tmc_usb f)"
  by (simp add: beside_pipe_def keeps_tmc_usb)

lemma beside_pipe_keeps: "beside_pipe p \<Longrightarrow> pipe_keeps tr p"
  by (simp add: pipe_keeps_def keeps_any_usb)

lemma keeps_requests:
  assumes "pipe_keeps tr p"
  shows "keeps p (interface_request tr rq v n)" "keeps p (endpoint_request tr rq v ep n)"
    "keeps p (tmc_usb (tt_bulk_in tr n))" "keeps p (tmc_usb (tt_reset_bulk_in tr))" "keeps p (tmc_usb (tt_reset_bulk_out tr))"
  using assms by (simp_all add: pipe_keeps_def keeps_def interface_request_def endpoint_request_def)

lemma keeps_drain: "pipe_keeps tr p \<Longrightarrow> keeps p (drain_if_asked tr r)"
  by (simp add: drain_if_asked_def keeps_basic keeps_ignoring keeps_requests split: list.split)

lemma keeps_polls:
  assumes "pipe_keeps tr p"
  shows "keeps p (abort_in_polls tr ep n)" "keeps p (abort_out_polls tr ep n)" "keeps p (clear_polls tr n)"
  by (induction n) (use assms in \<open>auto intro!: keeps_struct keeps_requests keeps_drain\<close>)

lemma keeps_aborts:
  assumes "pipe_keeps tr p"
  shows "keeps p (abort_bulk_in tr tag)" "keeps p (abort_bulk_out tr tag)"
  unfolding abort_bulk_in_def abort_bulk_out_def
  using assms by (auto intro!: keeps_struct keeps_requests keeps_polls)

lemma keeps_abort_pending: "pipe_keeps tr p \<Longrightarrow> keeps p (abort_pending tr)"
  unfolding keeps_def abort_pending_def
  by (auto simp: keepsD[OF keeps_aborts(1)] keepsD[OF keeps_aborts(2)] Let_def split: option.split prod.split sum.split
      dest: arg_cong[where f = "\<lambda>r. p (snd r)"])

lemma keeps_recovery:
  assumes pipe: "pipe_keeps tr p" and np: "keeps p (modify nothing_pending)"
  shows "keeps p (clear_device tr)" "keeps p (settle tr)"
proof -
  show clear: "keeps p (clear_device tr)"
    unfolding clear_device_def by (intro keeps_struct keeps_requests[OF pipe] keeps_polls[OF pipe] np)
  have "keeps p (andthen (attempt (abort_pending tr)) (\<lambda>a.
      seq (case a of Inl _ \<Rightarrow> with_context c (clear_device tr) | Inr _ \<Rightarrow> ret ()) (modify nothing_pending)))" for c
    by (intro keeps_struct keeps_abort_pending[OF pipe] np) (auto intro!: keeps_struct clear split: sum.split)
  then show "keeps p (settle tr)"
    by (simp add: settle_def keeps_def)
qed

section \<open>Recovery\<close>

definition marks :: "'u tmc \<Rightarrow> u8 option \<times> u8 option" where
  "marks s = (tm_pending_in s, tm_pending_out s)"

lemma beside_pipe_marks: "beside_pipe marks"
  by (simp add: beside_pipe_def marks_def)

lemma marks_nothing_pending [simp]: "marks (nothing_pending s) = (None, None)"
  by (simp add: marks_def nothing_pending_def)

text \<open>A step that either finishes the job, leaving no mark, or fails and leaves the marks as they were.\<close>

definition all_or_nothing :: "('u tmc, 'a) act \<Rightarrow> bool" where
  "all_or_nothing m \<longleftrightarrow>
     (\<forall>s r s'. m s = (r, s') \<longrightarrow> (case r of Inr _ \<Rightarrow> marks s' = (None, None) | Inl _ \<Rightarrow> marks s' = marks s))"

lemma all_or_nothingI:
  assumes "\<And>s x s'. m s = (Inr x, s') \<Longrightarrow> marks s' = (None, None)" "\<And>s e s'. m s = (Inl e, s') \<Longrightarrow> marks s' = marks s"
  shows "all_or_nothing m"
  unfolding all_or_nothing_def using assms by (simp split: sum.split)

lemma all_or_nothingD:
  assumes "all_or_nothing m"
  shows "m s = (Inr x, s') \<Longrightarrow> marks s' = (None, None)" "m s = (Inl e, s') \<Longrightarrow> marks s' = marks s"
  using assms unfolding all_or_nothing_def by fastforce+

lemma andthen_cases:
  assumes "andthen m f s = (r, s')"
  obtains (failed) e where "m s = (Inl e, s')" "r = Inl e"
  | (goes_on) x s1 where "m s = (Inr x, s1)" "f x s1 = (r, s')"
  using assms by (cases "m s"; cases "fst (m s)") (auto simp: andthen_def)

lemma all_or_nothing_andthen:
  assumes "keeps marks m" "\<And>x. all_or_nothing (f x)"
  shows "all_or_nothing (andthen m f)"
proof (rule all_or_nothingI)
  fix s x s' assume "andthen m f s = (Inr x, s')"
  then show "marks s' = (None, None)"
    by (rule andthen_cases) (auto dest: all_or_nothingD(1)[OF assms(2)])
next
  fix s e s' assume "andthen m f s = (Inl e, s')"
  then show "marks s' = marks s"
    by (rule andthen_cases) (use keepsD[OF assms(1), of s] in \<open>auto dest: all_or_nothingD(2)[OF assms(2)]\<close>)
qed

lemma all_or_nothing_basic: "all_or_nothing (bail e)" "all_or_nothing (modify nothing_pending)"
  by (auto intro!: all_or_nothingI simp: act_defs)

lemma all_or_nothing_if: "all_or_nothing m \<Longrightarrow> all_or_nothing k \<Longrightarrow> all_or_nothing (if c then m else k)"
  by simp

lemma with_context_cases:
  assumes "with_context c m s = (r, s')"
  obtains r' where "m s = (r', s')" "\<And>x. r = Inr x \<longleftrightarrow> r' = Inr x" "\<And>e. r' = Inl e \<Longrightarrow> r = Inl (c @ lit '': '' @ e)"
  using assms by (cases "m s"; cases "fst (m s)") (auto simp: with_context_def)

lemmas marks_pipe = beside_pipe_keeps[OF beside_pipe_marks]

lemmas marks_kept = keeps_requests[OF marks_pipe] keeps_polls[OF marks_pipe] keeps_struct keeps_drain[OF marks_pipe]

lemma clear_device_outcome: "all_or_nothing (clear_device tr)"
  unfolding clear_device_def seq_def
  by (intro all_or_nothing_andthen all_or_nothing_if all_or_nothing_basic marks_kept)

lemma settle_outcome: "all_or_nothing (settle tr)"
proof -
  let ?k = "\<lambda>a. seq (case a of Inl _ \<Rightarrow> with_context (lit ''recovering the bulk pipe'') (clear_device tr) | Inr _ \<Rightarrow> ret ())
      (modify nothing_pending)"
  have "all_or_nothing (?k a)" for a :: "unit io"
  proof (rule all_or_nothingI)
    fix s :: "'a tmc" and x s' assume "?k a s = (Inr x, s')"
    then show "marks s' = (None, None)"
      unfolding seq_def by (rule andthen_cases) (auto simp: modify_def)
  next
    fix s :: "'a tmc" and e s' assume "?k a s = (Inl e, s')"
    then show "marks s' = marks s"
      unfolding seq_def
    proof (cases rule: andthen_cases)
      case (failed e')
      then have "with_context (lit ''recovering the bulk pipe'') (clear_device tr) s = (Inl e', s')"
        by (cases a) (auto simp: ret_def)
      then show ?thesis
      proof (cases rule: with_context_cases)
        case (1 r')
        then show ?thesis
          using all_or_nothingD(2)[OF clear_device_outcome, of tr s] by (cases r') auto
      qed
    qed (simp add: modify_def)
  qed
  then have "all_or_nothing (andthen (attempt (abort_pending tr)) ?k)"
    by (intro all_or_nothing_andthen keeps_attempt keeps_abort_pending marks_pipe)
  then show ?thesis
    unfolding all_or_nothing_def settle_def by (auto simp: marks_def)
qed


section \<open>Settings through every operation\<close>

lemma keeps_settle: "beside_marks p \<Longrightarrow> keeps p (settle tr)"
  by (intro keeps_recovery beside_pipe_keeps keeps_modify) (auto simp: beside_marks_def nothing_pending_def)

lemma keeps_mark_updates:
  assumes "beside_marks p"
  shows "keeps p (modify (\<lambda>s. s\<lparr>tm_pending_in := x\<rparr>))" "keeps p (modify (\<lambda>s. s\<lparr>tm_pending_out := y\<rparr>))"
  using assms by (auto simp: beside_marks_def intro!: keeps_modify)

lemma keeps_fail: "beside_marks p \<Longrightarrow> keeps p (fail tr e)"
  unfolding fail_def by (intro keeps_struct keeps_settle)

lemma keeps_send_message: "beside_marks p \<Longrightarrow> keeps p (send_message tr what msg tag)"
  unfolding send_message_def
  by (intro keeps_struct keeps_settle keeps_mark_updates keeps_any_usb)
    (auto simp: beside_marks_def split: sum.split intro!: keeps_fail keeps_mark_updates)

lemma keeps_take_tag: "keeps tmc_settings take_tag"
  by (simp add: keeps_def take_tag_def tmc_settings_def Let_def)

lemma keeps_resync: "beside_pipe p \<Longrightarrow> keeps p (resync tr cap w tag n e)"
  by (induction n arbitrary: e) (auto intro!: keeps_struct keeps_any_usb split: sum.split)

lemma keeps_await: "beside_pipe p \<Longrightarrow> keeps p (await_message tr want tag)"
  unfolding await_message_def Let_def
  by (auto intro!: keeps_struct keeps_any_usb keeps_resync split: sum.split)

lemma keeps_read_one: "keeps tmc_settings (read_one_transfer tr n)"
  unfolding read_one_transfer_def Let_def
  by (auto intro!: keeps_struct keeps_take_tag keeps_send_message keeps_mark_updates keeps_await keeps_fail
      beside_settings beside_settings_pipe split: sum.split)

lemma keeps_read_loop: "tmc_settings (snd (read_loop tr want out s)) = tmc_settings s"
proof (induction tr want out s rule: read_loop.induct)
  case (1 tr want out s)
  show ?case
    using keepsD[OF keeps_read_one, of tr "want - length out" s] 1
    by (subst read_loop.simps) (auto split: prod.split sum.split)
qed

lemma tmc_settings_write: "tmc_settings (snd (write_message tr d e s)) = tmc_settings s"
proof -
  have "keeps tmc_settings (write_message tr d e)"
    unfolding write_message_def by (intro keeps_andthen keeps_take_tag keeps_send_message beside_settings)
  then show ?thesis by (rule keepsD)
qed

lemma tmc_settings_kept:
  "tm_eos_char (snd (write_message tr d e s)) = tm_eos_char s" "tm_eos_enabled (snd (write_message tr d e s)) = tm_eos_enabled s"
  "tm_timeout_ms (snd (write_message tr d e s)) = tm_timeout_ms s"
  "tm_eos_char (snd (read_loop tr n out s)) = tm_eos_char s" "tm_eos_enabled (snd (read_loop tr n out s)) = tm_eos_enabled s"
  "tm_timeout_ms (snd (read_loop tr n out s)) = tm_timeout_ms s"
  using tmc_settings_write[of tr d e s] keeps_read_loop[of tr n out s] by (simp_all add: tmc_settings_def)

interpretation usbtmc_backend: gpib_backend "tmc_ops tr" tm_timeout_ms for tr :: "'u tmc_transport"
  by unfold_locales (simp_all add: tmc_ops_def read_message_def tmc_settings_kept)


section \<open>Tags\<close>

lemma unat_next_tag: "unat (next_tag t) = unat t mod 255 + 1"
proof (cases "t = 255")
  case False
  have "unat t < 256" using unsigned_less[of t, where 'a = nat] by simp
  moreover have "unat t \<noteq> 255" using False by (simp add: word_unat_eq_iff)
  ultimately have small: "unat t < 255" by linarith
  then have "unat (t + 1) = unat t + 1"
    using unat_add_lem[of t 1] by simp
  then show ?thesis using False small by (simp add: next_tag_def)
qed (simp add: next_tag_def)

lemma unat_next_tags: "t \<noteq> 0 \<Longrightarrow> unat ((next_tag ^^ k) t) = (unat t - 1 + k) mod 255 + 1"
proof (induction k)
  case 0
  moreover have "unat t < 256" using unsigned_less[of t, where 'a = nat] by simp
  moreover have "unat t \<noteq> 0" using 0 by (simp add: unat_eq_0)
  ultimately show ?case by simp
next
  case (Suc k)
  then have "unat ((next_tag ^^ Suc k) t) = ((unat t - 1 + k) mod 255 + 1) mod 255 + 1"
    by (simp add: unat_next_tag)
  then show ?case by (simp only: mod_add_left_eq) (simp add: add.assoc)
qed

lemma next_tags_distinct:
  assumes "t \<noteq> 0" "0 < k" "k < 255"
  shows "(next_tag ^^ k) t \<noteq> t"
proof
  assume "(next_tag ^^ k) t = t"
  then have same: "(unat t - 1 + k) mod 255 + 1 = unat t"
    using unat_next_tags[OF assms(1), of k] by (simp only:)
  have t: "unat t < 256" "unat t \<noteq> 0"
    using unsigned_less[of t, where 'a = nat] assms(1) by (simp_all add: unat_eq_0)
  show False
  proof (cases "unat t - 1 + k < 255")
    case True
    with same assms(2) t show False by simp
  next
    case False
    then have "(unat t - 1 + k) mod 255 = unat t - 1 + k - 255"
      using assms(3) t by (simp add: mod_if)
    with same False assms(3) t show False by linarith
  qed
qed

section \<open>Properties\<close>

text \<open>C26. A reply to an earlier request is never taken for the answer to a later one: up to 254 messages
  after the request a device is still answering, and whatever data, attributes and trailing bytes it sends,
  the late reply is refused as out of step. The tag under which a message goes out is never zero.\<close>

theorem stale_reply_refused:
  assumes "t \<noteq> 0" "0 < k" "k < 255" "length d < 2 ^ 32"
  shows "(\<exists>e. parse_dev_dep_msg_in (dev_dep_msg_in t d attrs trailer) ((next_tag ^^ k) t) = Inl e) \<and>
    (next_tag ^^ k) t \<noteq> 0"
proof -
  have "(next_tag ^^ k) t \<noteq> 0"
  proof
    assume "(next_tag ^^ k) t = 0"
    with unat_next_tags[OF assms(1), of k] show False by simp
  qed
  with next_tags_distinct[OF assms(1-3)] assms(4) show ?thesis
    by (auto simp: parse_dev_dep_msg_in_reply)
qed

theorem stale_reply_refused_witness:
  "\<exists>e. parse_dev_dep_msg_in (dev_dep_msg_in 254 [65] 1 [0, 0, 0]) ((next_tag ^^ 3) 254) = Inl e"
  using stale_reply_refused[of 254 3 "[65]" 1 "[0, 0, 0]"] by simp


section \<open>What goes out\<close>

text \<open>A record of the messages put on the bulk-OUT pipe.\<close>

definition records_out :: "'u tmc_transport \<Rightarrow> ('u \<Rightarrow> bytes list) \<Rightarrow> bool" where
  "records_out tr outs \<longleftrightarrow>
     (\<forall>d u. outs (snd (tt_bulk_out tr d u)) = outs u @ [d]) \<and> (\<forall>n. keeps outs (tt_bulk_in tr n)) \<and>
     (\<forall>rc rq v i n. keeps outs (tt_control_in tr rc rq v i n)) \<and>
     keeps outs (tt_reset_bulk_in tr) \<and> keeps outs (tt_reset_bulk_out tr)"

abbreviation outs_of :: "('u \<Rightarrow> bytes list) \<Rightarrow> 'u tmc \<Rightarrow> bytes list" where
  "outs_of outs s \<equiv> outs (tm_transport s)"

lemma keeps_usb_outs: "keeps outs f \<Longrightarrow> keeps (outs_of outs) (tmc_usb f)"
  by (simp add: keeps_def tmc_usb_def split: prod.split) (metis snd_conv)

lemma recovery_sends_nothing:
  assumes "records_out tr outs"
  shows "keeps (outs_of outs) (settle tr)"
proof (rule keeps_recovery)
  show "pipe_keeps tr (outs_of outs)"
    using assms by (simp add: records_out_def pipe_keeps_def keeps_usb_outs)
  show "keeps (outs_of outs) (modify nothing_pending)"
    by (rule keeps_modify) (simp add: nothing_pending_def)
qed

lemma fail_outcome: "fail tr e s = (Inl e, snd (settle tr s))"
  by (simp add: fail_def act_defs)

text \<open>A message goes out once the pipe is in step, and only then.\<close>

lemma send_message_outcome:
  assumes rec: "records_out tr outs" and settled: "settle tr s = (w, s1)" and sent: "send_message tr what msg tag s = (r, s')"
  shows "case w of
      Inr _ \<Rightarrow> outs_of outs s' = outs_of outs s @ [msg] \<and> (r = Inr () \<longrightarrow> marks s' = (None, None))
    | Inl e \<Rightarrow> r = Inl e \<and> outs_of outs s' = outs_of outs s \<and> marks s' = marks s"
proof (cases w)
  case (Inl e)
  then have "(r, s') = (Inl e, s1)"
    using settled sent by (simp add: send_message_def seq_def andthen_def)
  then show ?thesis
    using Inl settled keepsD[OF recovery_sends_nothing[OF rec], of s] all_or_nothingD(2)[OF settle_outcome settled[unfolded Inl]]
    by simp
next
  case (Inr x)
  have marks1: "marks s1 = (None, None)"
    by (rule all_or_nothingD(1)[OF settle_outcome settled[unfolded Inr]])
  have outs1: "outs_of outs s1 = outs_of outs s"
    using keepsD[OF recovery_sends_nothing[OF rec], of s] settled by simp
  obtain b u where out: "tt_bulk_out tr msg (tm_transport s1) = (b, u)" by fastforce
  have outsu: "outs u = outs_of outs s @ [msg]"
    using rec outs1 out unfolding records_out_def by (metis snd_conv)
  let ?s2 = "s1\<lparr>tm_pending_out := Some tag, tm_transport := u\<rparr>"
  have "(r, s') = (case b of
      Inr _ \<Rightarrow> (Inr (), ?s2\<lparr>tm_pending_out := None\<rparr>)
    | Inl e \<Rightarrow> (Inl (lit ''usbtmc '' @ lit what @ lit '': '' @ e), snd (settle tr ?s2)))"
    using settled sent Inr out
    by (cases b) (auto simp: send_message_def seq_def andthen_def modify_def attempt_def tmc_usb_def fail_outcome)
  then show ?thesis
    using Inr marks1 outsu keepsD[OF recovery_sends_nothing[OF rec], of ?s2]
    by (auto simp: marks_def split: sum.splits)
qed



section \<open>What comes in\<close>

text \<open>A compliant device with chunks of a message to send: the next chunk answers the next request, with the
  request's tag, the end mark of the chunk, and any padding, if the request asks for that many bytes.\<close>

definition answers :: "'u tmc_transport \<Rightarrow> ('u \<Rightarrow> (bytes \<times> bool) list) \<Rightarrow> bool" where
  "answers tr q \<longleftrightarrow>
     (\<forall>u tag n tc d e rest. q u = (d, e) # rest \<and> length d \<le> unat n \<longrightarrow>
        (\<exists>u1. tt_bulk_out tr (encode_request_dev_dep_msg_in tag n tc) u = (Inr (), u1) \<and>
           (\<forall>cap \<ge> 12 + length d. \<exists>u2 attrs trailer.
              tt_bulk_in tr cap u1 = (Inr (dev_dep_msg_in tag d attrs trailer), u2) \<and>
              (has_flag attrs 0x01 \<or> has_flag attrs 0x02 \<longleftrightarrow> e) \<and> q u2 = rest)))"

lemma read_one_answered:
  assumes dev: "answers tr q" and q: "q (tm_transport s) = (d, e) # rest" and clean: "marks s = (None, None)"
    and n: "1 \<le> n" "n \<le> MAX_READ_TRANSFER" "length d \<le> n"
  shows "\<exists>s'. read_one_transfer tr n s = (Inr (d, e), s') \<and> marks s' = (None, None) \<and> q (tm_transport s') = rest"
proof -
  let ?tag = "next_tag (tm_tag s)"
  define tc where "tc = (if tm_eos_enabled s \<and> cap_term_char (tm_caps s) then Some (tm_eos_char s) else None)"
  have un: "unat (of_nat n :: u32) = n" using n(2) by (simp add: of_nat_unat_len)
  obtain u1 where out: "tt_bulk_out tr (encode_request_dev_dep_msg_in ?tag (of_nat n) tc) (tm_transport s) = (Inr (), u1)"
    and later: "\<forall>cap \<ge> 12 + length d. \<exists>u2 attrs trailer.
      tt_bulk_in tr cap u1 = (Inr (dev_dep_msg_in ?tag d attrs trailer), u2) \<and>
      (has_flag attrs 0x01 \<or> has_flag attrs 0x02 \<longleftrightarrow> e) \<and> q u2 = rest"
    using dev q n(3) un unfolding answers_def by metis
  obtain u2 attrs trailer where inn: "tt_bulk_in tr (HEADER_LEN + n + pad_len n) u1 = (Inr (dev_dep_msg_in ?tag d attrs trailer), u2)"
    and e: "has_flag attrs 0x01 \<or> has_flag attrs 0x02 \<longleftrightarrow> e" and rest: "q u2 = rest"
    using later[rule_format, of "HEADER_LEN + n + pad_len n"] n(3) by auto
  have want: "max 1 (min n MAX_READ_TRANSFER) = n" using n by simp
  let ?s' = "s\<lparr>tm_tag := ?tag, tm_transport := u2, tm_pending_out := None, tm_pending_in := None\<rparr>"
  have settled: "settle tr (s\<lparr>tm_tag := ?tag\<rparr>) = (Inr (), s\<lparr>tm_tag := ?tag\<rparr>)"
    using clean by (simp add: settle_def marks_def)
  have sent: "send_message tr ''read request'' (encode_request_dev_dep_msg_in ?tag (of_nat n) tc) ?tag (s\<lparr>tm_tag := ?tag\<rparr>) =
      (Inr (), s\<lparr>tm_tag := ?tag, tm_transport := u1, tm_pending_out := None\<rparr>)"
    using settled out by (simp add: send_message_def act_defs tmc_usb_def)
  have "await_message tr n ?tag (s\<lparr>tm_tag := ?tag, tm_transport := u1, tm_pending_out := None, tm_pending_in := Some ?tag\<rparr>) =
      (Inr \<lparr>im_data = d, im_eom = has_flag attrs 0x01, im_term_char_seen = has_flag attrs 0x02, im_transfer_size = length d\<rparr>,
       s\<lparr>tm_tag := ?tag, tm_transport := u2, tm_pending_out := None, tm_pending_in := Some ?tag\<rparr>)"
    using inn n by (simp add: await_message_def Let_def act_defs tmc_usb_def parse_dev_dep_msg_in_reply)
  then have "read_one_transfer tr n s = (Inr (d, e), ?s')"
    using sent e unfolding read_one_transfer_def want Let_def
    by (simp add: act_defs take_tag_def tc_def Let_def)
  then show ?thesis
    using rest by (simp add: marks_def)
qed

lemma read_loop_answered:
  assumes dev: "answers tr q" and "want \<le> MAX_READ_TRANSFER"
    and "q (tm_transport s) = map (\<lambda>d. (d, False)) ds @ (dl, True) # rest" "marks s = (None, None)"
    and "\<forall>d \<in> set ds. d \<noteq> []" "length out + length (concat ds) < want" "length out + length (concat ds) + length dl \<le> want"
  shows "\<exists>s'. read_loop tr want out s = (Inr (out @ concat ds @ dl, True), s') \<and> marks s' = (None, None) \<and>
    q (tm_transport s') = rest"
  using assms(3-)
proof (induction ds arbitrary: out s)
  case Nil
  have "1 \<le> want - length out" "want - length out \<le> MAX_READ_TRANSFER" "length dl \<le> want - length out"
    using Nil.prems(4,5) assms(2) by auto
  then obtain s' where "read_one_transfer tr (want - length out) s = (Inr (dl, True), s')"
    "marks s' = (None, None)" "q (tm_transport s') = rest"
    using read_one_answered[OF dev, of s dl True rest "want - length out"] Nil.prems(1,2) by auto
  then show ?case by (subst read_loop.simps) simp
next
  case (Cons d ds)
  have "1 \<le> want - length out" "want - length out \<le> MAX_READ_TRANSFER" "length d \<le> want - length out"
    using Cons.prems(4) assms(2) by auto
  then obtain s1 where one: "read_one_transfer tr (want - length out) s = (Inr (d, False), s1)"
    "marks s1 = (None, None)" "q (tm_transport s1) = map (\<lambda>d. (d, False)) ds @ (dl, True) # rest"
    using read_one_answered[OF dev, of s d False "map (\<lambda>d. (d, False)) ds @ (dl, True) # rest" "want - length out"]
      Cons.prems(1,2) by auto
  have "read_loop tr want out s = read_loop tr want (out @ d) s1"
    using one(1) Cons.prems by (subst read_loop.simps) simp
  then show ?case
    using Cons.IH[of s1 "out @ d"] one Cons.prems by simp
qed

text \<open>C10. A message comes back whole however the device cuts it up: when a compliant device sends a message in any
  number of non-empty transfers and marks the last one, and the message fits the read, one read returns the
  concatenation of all of them with the end mark, consumes exactly these transfers, and leaves nothing
  pending.\<close>

theorem tmc_read_reassembles:
  assumes "answers tr q" "tm_pending_in s = None" "tm_pending_out s = None"
    and "q (tm_transport s) = map (\<lambda>d. (d, False)) ds @ (dl, True) # rest" "\<forall>d \<in> set ds. d \<noteq> []"
    and "length (concat ds) < max_len" "length (concat ds @ dl) \<le> max_len" "max_len \<le> 2 ^ 20"
  shows "\<exists>s'. read_message tr max_len s = (Inr (concat ds @ dl, True), s') \<and> q (tm_transport s') = rest \<and>
    tm_pending_in s' = None \<and> tm_pending_out s' = None"
proof -
  have want: "max 1 (min max_len MAX_READ_TRANSFER) = max_len"
    using assms(6,8) by simp
  show ?thesis
    unfolding read_message_def want
    using read_loop_answered[OF assms(1), of max_len s ds dl rest "[]"] assms(2-) by (auto simp: marks_def)
qed

section \<open>A device\<close>

text \<open>A device with a message to send. When it is stuck it answers every status check with PENDING.\<close>

record tmc_device =
  dv_chunks :: "(bytes \<times> bool) list"
  dv_asked :: "u8 option"
  dv_written :: "bytes list"
  dv_requests :: "u8 list"

definition dv_bulk_in :: "nat \<Rightarrow> (tmc_device, bytes) act" where
  "dv_bulk_in n u =
     (case (dv_asked u, dv_chunks u) of
        (Some tag, (d, e) # rest) \<Rightarrow>
          (Inr (dev_dep_msg_in tag d (if e then 1 else 0) []), u\<lparr>dv_chunks := rest, dv_asked := None\<rparr>)
      | _ \<Rightarrow> (Inl (lit ''timed out''), u))"

definition device_transport :: "bool \<Rightarrow> tmc_device tmc_transport" where
  "device_transport stuck =
     \<lparr>tt_bulk_out = (\<lambda>d u. (Inr (), u\<lparr>dv_written := dv_written u @ [d], dv_asked := (if d ! 0 = 2 then Some (d ! 1) else None)\<rparr>)),
      tt_bulk_in = dv_bulk_in, tt_bulk_in_within = (\<lambda>n w. dv_bulk_in n),
      tt_control_in = (\<lambda>rc rq v i n u.
        (Inr (if stuck \<and> rq \<in> {2, 4, 6} then [STATUS_PENDING, 0] else [STATUS_SUCCESS, ucast v]),
         u\<lparr>dv_requests := dv_requests u @ [rq]\<rparr>)),
      tt_reset_bulk_in = ret (), tt_reset_bulk_out = ret (), tt_interface_number = (\<lambda>u. 1),
      tt_bulk_in_address = (\<lambda>u. 0x82), tt_bulk_out_address = (\<lambda>u. 2), tt_set_timeout = (\<lambda>t u. u),
      tt_has_interrupt_in = (\<lambda>u. False), tt_status_byte_notification = (\<lambda>t w. bail []), tt_can_srq = (\<lambda>u. False),
      tt_take_srq_status = (\<lambda>u. (None, u)), tt_peek_srq_status = (\<lambda>u. None)\<rparr>"

definition demo_device :: tmc_device where
  "demo_device = \<lparr>dv_chunks = [([72, 69], False), ([76, 80], True)], dv_asked = None, dv_written = [], dv_requests = []\<rparr>"

lemma device_records: "records_out (device_transport stuck) dv_written"
  by (auto simp: records_out_def device_transport_def keeps_def ret_def dv_bulk_in_def split: option.split list.split)

lemma device_answers: "answers (device_transport stuck) dv_chunks"
  unfolding answers_def
proof (intro allI impI)
  fix u :: tmc_device and tag and n :: u32 and tc d e rest
  assume *: "dv_chunks u = (d, e) # rest \<and> length d \<le> unat n"
  have hd: "encode_request_dev_dep_msg_in tag n tc ! 0 = 2" "encode_request_dev_dep_msg_in tag n tc ! 1 = tag"
    by (simp_all add: encode_request_dev_dep_msg_in_def tmc_header_def split: option.split)
  have flags: "has_flag (if e then 1 else 0 :: u8) 1 \<or> has_flag (if e then 1 else 0 :: u8) 2 \<longleftrightarrow> e"
    by (simp add: has_flag_def)
  show "\<exists>u1. tt_bulk_out (device_transport stuck) (encode_request_dev_dep_msg_in tag n tc) u = (Inr (), u1) \<and>
      (\<forall>cap \<ge> 12 + length d. \<exists>u2 attrs trailer.
         tt_bulk_in (device_transport stuck) cap u1 = (Inr (dev_dep_msg_in tag d attrs trailer), u2) \<and>
         (has_flag attrs 1 \<or> has_flag attrs 2 \<longleftrightarrow> e) \<and> dv_chunks u2 = rest)"
    using * hd flags by (auto simp: device_transport_def dv_bulk_in_def)
qed

theorem tmc_read_reassembles_witness:
  "\<exists>s'. read_message (device_transport False) 100 (new_tmc (device_transport False) demo_device 3000) =
    (Inr ([72, 69, 76, 80], True), s')"
proof -
  have "\<exists>s'. read_message (device_transport False) 100 (new_tmc (device_transport False) demo_device 3000) =
      (Inr (concat [[72, 69]] @ [76, 80], True), s') \<and> dv_chunks (tm_transport s') = [] \<and>
      tm_pending_in s' = None \<and> tm_pending_out s' = None"
    by (rule tmc_read_reassembles[OF device_answers]) (simp_all add: new_tmc_def demo_device_def device_transport_def)
  then show ?thesis by auto
qed



section \<open>A handshake that never ends\<close>

text \<open>A device that accepts the abort and then answers every check with PENDING.\<close>

definition never_done :: "'u tmc_transport \<Rightarrow> bool" where
  "never_done tr \<longleftrightarrow>
     (\<forall>v i n u. \<exists>u' rest. tt_control_in tr Endpoint REQ_INITIATE_ABORT_BULK_IN v i n u = (Inr (STATUS_SUCCESS # rest), u')) \<and>
     (\<forall>v i n u. \<exists>u'. tt_control_in tr Endpoint REQ_CHECK_ABORT_BULK_IN_STATUS v i n u = (Inr [STATUS_PENDING, 0], u')) \<and>
     (\<forall>u. \<exists>u'. tt_reset_bulk_in tr u = (Inr (), u'))"

lemma usb_answer: "f (tm_transport s) = (r, u) \<Longrightarrow> tmc_usb f s = (r, s\<lparr>tm_transport := u\<rparr>)"
  by (simp add: tmc_usb_def)

lemma polls_give_up:
  assumes "never_done tr"
  shows "\<exists>u. abort_in_polls tr ep n s = (Inr (), s\<lparr>tm_transport := u\<rparr>)"
proof (induction n arbitrary: s)
  case 0
  show ?case by (intro exI[of _ "tm_transport s"]) (simp add: ret_def)
next
  case (Suc n)
  obtain u where "tt_control_in tr Endpoint REQ_CHECK_ABORT_BULK_IN_STATUS 0 (ucast ep) 8 (tm_transport s) =
      (Inr [STATUS_PENDING, 0], u)"
    using assms unfolding never_done_def by blast
  then have "abort_in_polls tr ep (Suc n) s = abort_in_polls tr ep n (s\<lparr>tm_transport := u\<rparr>)"
    by (simp add: endpoint_request_def usb_answer act_defs drain_if_asked_def)
  with Suc[of "s\<lparr>tm_transport := u\<rparr>"] show ?case by simp
qed

text \<open>C34. An abort that the device never completes counts as a recovery: after a read that left something pending,
  with a device that answers all fifty checks with PENDING, the pipe is declared in step, both marks are
  dropped, and no device clear is tried, although the abort has not succeeded.\<close>

theorem unfinished_abort_counts_as_recovery:
  assumes "never_done tr" "tm_pending_in s = Some tag" "tm_pending_out s = None"
  shows "\<exists>u. settle tr s = (Inr (), s\<lparr>tm_transport := u, tm_pending_in := None, tm_pending_out := None\<rparr>)"
proof -
  let ?ep = "tt_bulk_in_address tr (tm_transport s)"
  obtain u1 rest where "tt_control_in tr Endpoint REQ_INITIATE_ABORT_BULK_IN (ucast tag) (ucast ?ep) 2 (tm_transport s) =
      (Inr (STATUS_SUCCESS # rest), u1)"
    using assms(1) unfolding never_done_def by blast
  moreover obtain u2 where "tt_reset_bulk_in tr u1 = (Inr (), u2)"
    using assms(1) unfolding never_done_def by blast
  moreover obtain u3 where "abort_in_polls tr ?ep HANDSHAKE_POLLS (s\<lparr>tm_transport := u2\<rparr>) = (Inr (), s\<lparr>tm_transport := u3\<rparr>)"
    using polls_give_up[OF assms(1), of ?ep HANDSHAKE_POLLS "s\<lparr>tm_transport := u2\<rparr>"] by auto
  moreover obtain u4 where "tt_reset_bulk_in tr u3 = (Inr (), u4)"
    using assms(1) unfolding never_done_def by blast
  ultimately have "abort_bulk_in tr tag s = (Inr (), s\<lparr>tm_transport := u4\<rparr>)"
    by (simp add: abort_bulk_in_def endpoint_request_def usb_answer act_defs del: abort_in_polls.simps)
  then show ?thesis
    using assms(2,3)
    by (intro exI[of _ u4]) (simp add: settle_def abort_pending_def act_defs nothing_pending_def)
qed

theorem unfinished_abort_counts_as_recovery_witness:
  "\<exists>u. settle (device_transport True) ((new_tmc (device_transport True) demo_device 3000)\<lparr>tm_pending_in := Some 7\<rparr>) =
    (Inr (), (new_tmc (device_transport True) demo_device 3000)\<lparr>tm_pending_in := Some 7, tm_transport := u,
       tm_pending_in := None, tm_pending_out := None\<rparr>)"
  by (rule unfinished_abort_counts_as_recovery[of _ _ 7])
    (auto simp: never_done_def device_transport_def new_tmc_def ret_def)

end
