(* ===== verification/Ni_Protocol.thy ===== *)
theory Ni_Protocol
  imports Adapter
begin

text \<open>
  The bulk protocol of the NI GPIB-USB-HS, \<^verbatim>\<open>src/src/backend/ni_usb_hs/protocol.rs\<close>: the framed requests,
  the decoders of the replies, the timeout codes and the register sequence that brings the chip up.
\<close>

section \<open>Constants\<close>

abbreviation NIUSB_IBCAC_ID :: u8 where "NIUSB_IBCAC_ID \<equiv> 0x01"
abbreviation NIUSB_TERM_ID :: u8 where "NIUSB_TERM_ID \<equiv> 0x04"
abbreviation NIUSB_IBGTS_ID :: u8 where "NIUSB_IBGTS_ID \<equiv> 0x06"
abbreviation NIUSB_REG_READ_ID :: u8 where "NIUSB_REG_READ_ID \<equiv> 0x08"
abbreviation NIUSB_REG_WRITE_ID :: u8 where "NIUSB_REG_WRITE_ID \<equiv> 0x09"
abbreviation NIUSB_IBSIC_ID :: u8 where "NIUSB_IBSIC_ID \<equiv> 0x0f"
abbreviation NIUSB_REGISTER_READ_DATA_START_ID :: u8 where "NIUSB_REGISTER_READ_DATA_START_ID \<equiv> 0x34"
abbreviation NIUSB_REGISTER_READ_DATA_END_ID :: u8 where "NIUSB_REGISTER_READ_DATA_END_ID \<equiv> 0x35"
abbreviation NIUSB_IBRD_DATA_ID :: u8 where "NIUSB_IBRD_DATA_ID \<equiv> 0x36"
abbreviation NIUSB_IBRD_EXTENDED_DATA_ID :: u8 where "NIUSB_IBRD_EXTENDED_DATA_ID \<equiv> 0x37"
abbreviation NIUSB_IBRD_STATUS_ID :: u8 where "NIUSB_IBRD_STATUS_ID \<equiv> 0x38"
abbreviation NIUSB_DATA_READ_OP :: u8 where "NIUSB_DATA_READ_OP \<equiv> 0x0a"
abbreviation NIUSB_COMMAND_OP :: u8 where "NIUSB_COMMAND_OP \<equiv> 0x0c"
abbreviation NIUSB_DATA_WRITE_OP :: u8 where "NIUSB_DATA_WRITE_OP \<equiv> 0x0d"

abbreviation SUBDEV_TNT4882 :: u8 where "SUBDEV_TNT4882 \<equiv> 1"
abbreviation SUBDEV_UNKNOWN2 :: u8 where "SUBDEV_UNKNOWN2 \<equiv> 2"
abbreviation SUBDEV_UNKNOWN3 :: u8 where "SUBDEV_UNKNOWN3 \<equiv> 3"

abbreviation REG_ADMR :: u8 where "REG_ADMR \<equiv> 0x08"
abbreviation REG_AUXMR :: u8 where "REG_AUXMR \<equiv> 0x0a"
abbreviation REG_ADR :: u8 where "REG_ADR \<equiv> 0x0c"
abbreviation REG_AUXCR :: u8 where "REG_AUXCR \<equiv> 0x06"
abbreviation REG_IMR1 :: u8 where "REG_IMR1 \<equiv> 0x02"
abbreviation REG_IMR2 :: u8 where "REG_IMR2 \<equiv> 0x04"
abbreviation REG_IMR3 :: u8 where "REG_IMR3 \<equiv> 0x12"
abbreviation REG_IMR0 :: u8 where "REG_IMR0 \<equiv> 0x1d"
abbreviation REG_HSSEL :: u8 where "REG_HSSEL \<equiv> 0x0d"
abbreviation REG_CMDR :: u8 where "REG_CMDR \<equiv> 0x1c"
abbreviation CMDR_GO :: u8 where "CMDR_GO \<equiv> 0x04"
abbreviation CMDR_STOP :: u8 where "CMDR_STOP \<equiv> 0x08"
abbreviation REG_KEYREG :: u8 where "REG_KEYREG \<equiv> 0x17"
abbreviation REG_BSR :: u8 where "REG_BSR \<equiv> 0x1f"

abbreviation AUX_PON :: u8 where "AUX_PON \<equiv> 0x00"
abbreviation AUX_CPPF :: u8 where "AUX_CPPF \<equiv> 0x01"
abbreviation AUX_CR :: u8 where "AUX_CR \<equiv> 0x02"
abbreviation AUX_DSC :: u8 where "AUX_DSC \<equiv> 0x14"
abbreviation AUX_CIFC :: u8 where "AUX_CIFC \<equiv> 0x16"
abbreviation AUX_CREN :: u8 where "AUX_CREN \<equiv> 0x17"
abbreviation AUX_SREN :: u8 where "AUX_SREN \<equiv> 0x1f"
abbreviation AUX_HLDI :: u8 where "AUX_HLDI \<equiv> 0x51"
abbreviation AUX_CLEAR_END :: u8 where "AUX_CLEAR_END \<equiv> 0x55"
abbreviation AUXRA :: u8 where "AUXRA \<equiv> 0x80"
abbreviation HR_HLDA :: u8 where "HR_HLDA \<equiv> 0x01"
abbreviation HR_BIN :: u8 where "HR_BIN \<equiv> 0x10"
abbreviation AUXRB :: u8 where "AUXRB \<equiv> 0xa0"
abbreviation HR_TRI :: u8 where "HR_TRI \<equiv> 0x04"
abbreviation AUXRG :: u8 where "AUXRG \<equiv> 0x40"
abbreviation NTNL_BIT :: u8 where "NTNL_BIT \<equiv> 0x08"
abbreviation AUXRI :: u8 where "AUXRI \<equiv> 0xe0"
abbreviation SISB :: u8 where "SISB \<equiv> 0x01"
abbreviation USTD :: u8 where "USTD \<equiv> 0x08"
abbreviation MSTD :: u8 where "MSTD \<equiv> 0x20"
abbreviation CMDR_SOFT_RESET :: u8 where "CMDR_SOFT_RESET \<equiv> 0x22"
abbreviation CMDR_SETSC :: u8 where "CMDR_SETSC \<equiv> 0x03"
abbreviation CMDR_CLRSC :: u8 where "CMDR_CLRSC \<equiv> 0x02"
abbreviation TNT_ONE_CHIP_BIT :: u8 where "TNT_ONE_CHIP_BIT \<equiv> 0x01"
abbreviation TNT_IMR0_ALWAYS_BITS :: u8 where "TNT_IMR0_ALWAYS_BITS \<equiv> 0x80"
abbreviation HR_LON :: u8 where "HR_LON \<equiv> 0x40"
abbreviation AUX_FH :: u8 where "AUX_FH \<equiv> 0x03"
abbreviation ADR_DISABLE_SAD :: u8 where "ADR_DISABLE_SAD \<equiv> 0xe0"
abbreviation ADMR_DISABLE_SAD :: u8 where "ADMR_DISABLE_SAD \<equiv> 0x31"

abbreviation GPIB_GTL :: u8 where "GPIB_GTL \<equiv> 0x01"
abbreviation GPIB_SDC :: u8 where "GPIB_SDC \<equiv> 0x04"
abbreviation GPIB_GET :: u8 where "GPIB_GET \<equiv> 0x08"
abbreviation GPIB_SPE :: u8 where "GPIB_SPE \<equiv> 0x18"
abbreviation GPIB_SPD :: u8 where "GPIB_SPD \<equiv> 0x19"
abbreviation GPIB_LLO :: u8 where "GPIB_LLO \<equiv> 0x11"
abbreviation GPIB_UNL :: u8 where "GPIB_UNL \<equiv> 0x3f"
abbreviation GPIB_UNT :: u8 where "GPIB_UNT \<equiv> 0x5f"

abbreviation IBSTA_SRQI :: u16 where "IBSTA_SRQI \<equiv> 0x1000"
abbreviation IBSTA_END :: u16 where "IBSTA_END \<equiv> 0x2000"
abbreviation IBSTA_DEFINED_BITS :: u16 where "IBSTA_DEFINED_BITS \<equiv> 0x70ff"

abbreviation NIUSB_NO_ERROR :: u8 where "NIUSB_NO_ERROR \<equiv> 0"
abbreviation NIUSB_ABORTED_ERROR :: u8 where "NIUSB_ABORTED_ERROR \<equiv> 1"
abbreviation NIUSB_ATN_STATE_ERROR :: u8 where "NIUSB_ATN_STATE_ERROR \<equiv> 2"
abbreviation NIUSB_ADDRESSING_ERROR :: u8 where "NIUSB_ADDRESSING_ERROR \<equiv> 3"
abbreviation NIUSB_EOSMODE_ERROR :: u8 where "NIUSB_EOSMODE_ERROR \<equiv> 4"
abbreviation NIUSB_NO_BUS_ERROR :: u8 where "NIUSB_NO_BUS_ERROR \<equiv> 5"
abbreviation NIUSB_NO_LISTENER_ERROR :: u8 where "NIUSB_NO_LISTENER_ERROR \<equiv> 8"
abbreviation NIUSB_TIMEOUT_ERROR :: u8 where "NIUSB_TIMEOUT_ERROR \<equiv> 10"
abbreviation MAX_TRANSFER_LEN :: nat where "MAX_TRANSFER_LEN \<equiv> 0xffff"
abbreviation ADAPTER_WAIT_FOREVER_MS :: u32 where "ADAPTER_WAIT_FOREVER_MS \<equiv> 0xffffffff"

definition ni_listen_address :: "u8 \<Rightarrow> u8" where
  "ni_listen_address pad = 0x20 OR (pad AND 0x1f)"

definition ni_talk_address :: "u8 \<Rightarrow> u8" where
  "ni_talk_address pad = 0x40 OR (pad AND 0x1f)"

section \<open>Framing\<close>

record ni_register =
  nr_device :: u8
  nr_address :: u8
  nr_value :: u8

abbreviation nireg :: "u8 \<Rightarrow> u8 \<Rightarrow> u8 \<Rightarrow> ni_register" where
  "nireg d a v \<equiv> \<lparr>nr_device = d, nr_address = a, nr_value = v\<rparr>"

record status_block =
  sb_id :: u8
  sb_ibsta :: u16
  sb_error_code :: u8
  sb_count :: u16

abbreviation termination_block :: bytes where
  "termination_block \<equiv> [NIUSB_TERM_ID, 0, 0, 0]"

function pad_to_4 :: "bytes \<Rightarrow> bytes" where
  "pad_to_4 buf = (if length buf mod 4 \<noteq> 0 then pad_to_4 (buf @ [0]) else buf)"
  by pat_completeness auto
termination
  by (relation "measure (\<lambda>buf. (4 - length buf mod 4) mod 4)") (auto simp: mod_Suc)

declare pad_to_4.simps [simp del]

definition parse_status_block :: "bytes \<Rightarrow> status_block io" where
  "parse_status_block buf =
     (if length buf < 8 then Inl (lit ''ni status block too short: '' @ dec (length buf) @ lit '' bytes'')
      else let raw_count = ucast (buf ! 4) OR push_bit 8 (ucast (buf ! 5))
           in Inr \<lparr>sb_id = buf ! 0, sb_ibsta = push_bit 8 (ucast (buf ! 1)) OR ucast (buf ! 2),
                   sb_error_code = buf ! 3, sb_count = NOT raw_count + 1\<rparr>)"

definition encode_register_write :: "ni_register list \<Rightarrow> bytes" where
  "encode_register_write writes =
     pad_to_4 ([NIUSB_REG_WRITE_ID, of_nat (length writes), 0] @
               concat (map (\<lambda>r. [nr_device r, nr_address r, nr_value r]) writes)) @ termination_block"

definition hex02 :: "u8 \<Rightarrow> rstr" where
  "hex02 b = lit ''0x'' @ [hex_digit (unat b div 16), hex_digit (unat b mod 16)]"

definition parse_register_write_response :: "bytes \<Rightarrow> (status_block \<times> u8) io" where
  "parse_register_write_response buf =
     (if length buf \<noteq> 16 then
        Inl (lit ''ni register-write response must be 16 bytes, got '' @ dec (length buf))
      else rbind (parse_status_block buf) (\<lambda>status.
             if sb_id status \<noteq> NIUSB_REG_WRITE_ID then Inl (lit ''ni register-write bad id: '' @ hex02 (sb_id status))
             else if sb_error_code status \<noteq> 0 then
               Inl (lit ''ni register-write error code '' @ hex02 (sb_error_code status))
             else Inr (status, buf ! 8)))"

definition encode_register_read :: "(u8 \<times> u8) list \<Rightarrow> bytes" where
  "encode_register_read reads =
     pad_to_4 ([NIUSB_REG_READ_ID, of_nat (length reads)] @ concat (map (\<lambda>(d, a). [d, a]) reads)) @ termination_block"

text \<open>Up to three result bytes of a chunk, then the chunks, with the offset reached.\<close>

fun chunk_bytes :: "bytes \<Rightarrow> nat \<Rightarrow> nat \<Rightarrow> nat \<times> bytes \<Rightarrow> (nat \<times> bytes) io" where
  "chunk_bytes buf num 0 (i, out) = Inr (i, out)"
| "chunk_bytes buf num (Suc k) (i, out) =
     (if length out = num then Inr (i, out)
      else if length buf \<le> i then Inl (lit ''ni register-read truncated'')
      else chunk_bytes buf num k (i + 1, out @ [buf ! i]))"

lemma chunk_bytes_length: "chunk_bytes buf num k (i, out) = Inr (j, out') \<Longrightarrow> length out \<le> length out'"
  by (induction buf num k "(i, out)" arbitrary: i out rule: chunk_bytes.induct) (fastforce split: if_splits)+

lemma chunk_bytes_progress:
  "chunk_bytes buf num (Suc k) (i, out) = Inr (j, out') \<Longrightarrow> length out < num \<Longrightarrow> length out < length out'"
  by (auto split: if_splits dest: chunk_bytes_length)

function register_chunks :: "bytes \<Rightarrow> nat \<Rightarrow> nat \<times> bytes \<Rightarrow> (nat \<times> bytes) io" where
  "register_chunks buf num (i, out) =
     (if num \<le> length out then Inr (i, out)
      else if length buf \<le> i \<or> buf ! i \<noteq> NIUSB_REGISTER_READ_DATA_START_ID then
        Inl (lit ''ni register-read: missing chunk start id at offset '' @ dec i)
      else case chunk_bytes buf num 3 (i + 1, out) of
             Inl e \<Rightarrow> Inl e
           | Inr (j, out') \<Rightarrow> register_chunks buf num (j, out'))"
  by pat_completeness auto
termination
  by (relation "measure (\<lambda>(buf, num, i, out). num - length out)")
    (auto simp: numeral_3_eq_3 simp del: chunk_bytes.simps intro!: diff_less_mono2 dest: chunk_bytes_progress)

declare register_chunks.simps [simp del]

definition parse_register_read_response :: "bytes \<Rightarrow> nat \<Rightarrow> bytes io" where
  "parse_register_read_response buf num =
     rbind (register_chunks buf num (0, [])) (\<lambda>(i, out).
       let j = (i + 3) div 4 * 4
       in if length buf \<le> j \<or> buf ! j \<noteq> NIUSB_REGISTER_READ_DATA_END_ID then
            Inl (lit ''ni register-read: missing end id at offset '' @ dec j)
          else Inr out)"

section \<open>Transfers\<close>

definition encode_command :: "bytes \<Rightarrow> u8 \<Rightarrow> bytes" where
  "encode_command cmd timeout_code =
     pad_to_4 ([NIUSB_COMMAND_OP, NOT (of_nat (length cmd) - 1), 0, timeout_code] @ cmd) @ termination_block"

definition encode_data_write :: "bytes \<Rightarrow> bool \<Rightarrow> u8 \<Rightarrow> bytes" where
  "encode_data_write d send_eoi timeout_code =
     (let complement = NOT (of_nat (length d) - 1) :: u16
      in pad_to_4 ([NIUSB_DATA_WRITE_OP, ucast (complement AND 0xff), ucast (drop_bit 8 complement), timeout_code,
                    0, 0, if send_eoi then 0x08 else 0, 0] @ d) @ termination_block)"

definition parse_write_response :: "bytes \<Rightarrow> nat \<Rightarrow> nat io" where
  "parse_write_response buf requested =
     rbind (parse_status_block buf) (\<lambda>status.
       let code = sb_error_code status
       in if code = NIUSB_NO_ERROR \<or> code = NIUSB_ABORTED_ERROR then Inr (requested - unat (sb_count status))
          else if code = NIUSB_ATN_STATE_ERROR then Inl (lit ''ni write: ATN asserted during transfer'')
          else if code = NIUSB_ADDRESSING_ERROR then
            Inl (lit ''ni write: addressing error (controller not in LACS/TACS)'')
          else if code = NIUSB_EOSMODE_ERROR then
            Inl (lit ''ni write: eos-mode error (bad eos bits, invalid timeout code, or >16 command bytes in one transfer)'')
          else if code = NIUSB_NO_BUS_ERROR then Inl (lit ''ni write: no devices on the GPIB bus'')
          else if code = NIUSB_NO_LISTENER_ERROR then Inl (lit ''ni write: no listener on bus'')
          else if code = NIUSB_TIMEOUT_ERROR then Inl (lit ''ni write: timeout'')
          else Inl (lit ''ni write: error code '' @ hex02 code))"

definition encode_data_read_with_aux :: "nat \<Rightarrow> u16 \<Rightarrow> u8 \<Rightarrow> u8 \<Rightarrow> bytes \<Rightarrow> bytes" where
  "encode_data_read_with_aux len eos_mode eos_char timeout_code aux =
     (let complement = NOT (of_nat len - 1) :: u16
      in pad_to_4 ([NIUSB_DATA_READ_OP, ucast (drop_bit 8 eos_mode), eos_char, timeout_code,
                    ucast (complement AND 0xff), ucast (drop_bit 8 complement), 0, 0,
                    NIUSB_REG_WRITE_ID, of_nat (length aux), 0] @
                   concat (map (\<lambda>cmd. [SUBDEV_TNT4882, REG_AUXMR, cmd]) aux)) @ termination_block)"

definition encode_data_read :: "nat \<Rightarrow> u16 \<Rightarrow> u8 \<Rightarrow> u8 \<Rightarrow> bytes" where
  "encode_data_read len eos_mode eos_char timeout_code =
     encode_data_read_with_aux len eos_mode eos_char timeout_code [AUX_CLEAR_END]"

text \<open>The data blocks at the front of a reply: the offset behind them, their payloads, their number and the
  payload length of the last of them.\<close>

function data_blocks :: "bytes \<Rightarrow> nat \<Rightarrow> bytes \<Rightarrow> nat \<Rightarrow> nat \<Rightarrow> (nat \<times> bytes \<times> nat \<times> nat) io" where
  "data_blocks buf i acc num_blocks block_len =
     (if i < length buf \<and> buf ! i = NIUSB_IBRD_DATA_ID then
        if length buf < i + 1 + 15 then Inl (lit ''ni read: data block truncated'')
        else data_blocks buf (i + 1 + 15) (acc @ take 15 (drop (i + 1) buf)) (num_blocks + 1) 15
      else if i < length buf \<and> buf ! i = NIUSB_IBRD_EXTENDED_DATA_ID then
        if length buf \<le> i + 1 \<or> buf ! (i + 1) \<noteq> 0 then
          Inl (lit ''ni read: extended block missing zero byte at '' @ dec (i + 1))
        else if length buf < i + 2 + 30 then Inl (lit ''ni read: data block truncated'')
        else data_blocks buf (i + 2 + 30) (acc @ take 30 (drop (i + 2) buf)) (num_blocks + 1) 30
      else Inr (i, acc, num_blocks, block_len))"
  by pat_completeness auto
termination
  by (relation "measure (\<lambda>(buf, i, acc, n, l). length buf - i)") auto

declare data_blocks.simps [simp del]

definition read_status_error :: "u8 \<Rightarrow> rstr option" where
  "read_status_error code =
     (if code = NIUSB_NO_ERROR \<or> code = NIUSB_ABORTED_ERROR \<or> code = NIUSB_TIMEOUT_ERROR then None
      else Some (lit ''ni read: '' @
        (if code = NIUSB_ATN_STATE_ERROR then lit ''ATN asserted during transfer''
         else if code = NIUSB_ADDRESSING_ERROR then lit ''addressing error (controller not in LACS/TACS)''
         else if code = NIUSB_EOSMODE_ERROR then lit ''eos-mode error (bad eos bits or an invalid timeout code)''
         else if code = NIUSB_NO_BUS_ERROR then lit ''no devices on the GPIB bus''
         else if code = NIUSB_NO_LISTENER_ERROR then lit ''no listener on bus''
         else lit ''error code '' @ hex02 code)))"

definition parse_data_read_response :: "bytes \<Rightarrow> nat \<Rightarrow> (bytes \<times> bool) io" where
  "parse_data_read_response buf max_len =
     rbind (data_blocks buf 0 [] 0 0) (\<lambda>(i, got, num_blocks, block_len).
     rbind (parse_status_block (drop i buf)) (\<lambda>status.
       if sb_id status \<noteq> NIUSB_IBRD_STATUS_ID then Inl (lit ''ni read: bad status id '' @ hex02 (sb_id status))
       else case read_status_error (sb_error_code status) of
              Some e \<Rightarrow> Inl e
            | None \<Rightarrow>
                if 0 < num_blocks \<and> length buf \<le> i + 9 then Inl (lit ''ni read: missing length byte'')
                else let actual = (if 0 < num_blocks then (num_blocks - 1) * block_len + unat (buf ! (i + 9)) else 0)
                     in Inr (take (min actual max_len) got, has_flag (sb_ibsta status) IBSTA_END)))"

section \<open>Single operations\<close>

definition encode_simple_op :: "u8 \<Rightarrow> u8 \<Rightarrow> bytes" where
  "encode_simple_op op arg = [op, arg, 0, 0] @ termination_block"

definition encode_take_control :: "bool \<Rightarrow> bytes" where
  "encode_take_control synchronous = encode_simple_op NIUSB_IBCAC_ID (if synchronous then 1 else 0)"

definition encode_go_to_standby :: bytes where
  "encode_go_to_standby = encode_simple_op NIUSB_IBGTS_ID 0"

definition encode_interface_clear :: bytes where
  "encode_interface_clear = encode_simple_op NIUSB_IBSIC_ID 0"

definition reply_answers_request :: "bytes \<Rightarrow> bytes \<Rightarrow> bool" where
  "reply_answers_request request reply =
     (request = [] \<or> reply = [] \<or>
      (let op = hd request; answer = hd reply
       in if op = NIUSB_DATA_READ_OP then
            answer \<in> {NIUSB_IBRD_DATA_ID, NIUSB_IBRD_EXTENDED_DATA_ID, NIUSB_IBRD_STATUS_ID}
          else if op = NIUSB_REG_READ_ID then
            answer \<in> {NIUSB_REGISTER_READ_DATA_START_ID, NIUSB_REGISTER_READ_DATA_END_ID}
          else answer = op))"

section \<open>Timeouts\<close>

definition timeout_code :: "u32 \<Rightarrow> u8" where
  "timeout_code timeout_ms =
     (let usec = unat timeout_ms * 1000
      in if usec = 0 then 0xf0
         else if usec \<le> 10 then 0xf1 else if usec \<le> 30 then 0xf2 else if usec \<le> 100 then 0xf3
         else if usec \<le> 300 then 0xf4 else if usec \<le> 1000 then 0xf5 else if usec \<le> 3000 then 0xf6
         else if usec \<le> 10000 then 0xf7 else if usec \<le> 30000 then 0xf8 else if usec \<le> 100000 then 0xf9
         else if usec \<le> 300000 then 0xfa else if usec \<le> 1000000 then 0xfb else if usec \<le> 3000000 then 0xfc
         else if usec \<le> 10000000 then 0xfd else if usec \<le> 30000000 then 0xfe else if usec \<le> 100000000 then 0xff
         else if usec \<le> 300000000 then 0x01 else if usec \<le> 1000000000 then 0x02 else 0xf0)"

definition TIMEOUT_STEPS_MS :: "(u32 \<times> u8) list" where
  "TIMEOUT_STEPS_MS =
     [(1000000, 0x02), (300000, 0x01), (100000, 0xff), (30000, 0xfe), (10000, 0xfd), (3000, 0xfc), (1000, 0xfb),
      (300, 0xfa), (100, 0xf9), (30, 0xf8), (10, 0xf7), (3, 0xf6), (1, 0xf5)]"

definition timeout_code_floor :: "u32 \<Rightarrow> u8 \<times> u32" where
  "timeout_code_floor timeout_ms =
     (if timeout_ms = 0 then (0xf0, ADAPTER_WAIT_FOREVER_MS)
      else case find (\<lambda>(ms, code). ms \<le> timeout_ms) TIMEOUT_STEPS_MS of
             Some (ms, code) \<Rightarrow> (code, ms)
           | None \<Rightarrow> (0xf5, 1))"

section \<open>Bringing the chip up\<close>

definition setup_t1_delay :: "nat \<Rightarrow> ni_register list" where
  "setup_t1_delay ns =
     [nireg SUBDEV_TNT4882 REG_AUXMR (AUXRI OR SISB OR (if ns \<le> 1100 then USTD else 0)),
      nireg SUBDEV_TNT4882 REG_AUXMR (AUXRB OR (if ns \<le> 500 then HR_TRI else 0)),
      nireg SUBDEV_TNT4882 REG_KEYREG (if ns \<le> 350 then MSTD else 0)]"

definition setup_disable_sad :: "ni_register list" where
  "setup_disable_sad =
     [nireg SUBDEV_TNT4882 REG_ADR ADR_DISABLE_SAD, nireg SUBDEV_TNT4882 REG_ADMR ADMR_DISABLE_SAD,
      nireg SUBDEV_UNKNOWN2 0x01 0]"

definition setup_init :: "u8 \<Rightarrow> u16 \<Rightarrow> ni_register list" where
  "setup_init pad eos_mode =
     (let auxra = AUXRA OR HR_HLDA OR (if has_flag eos_mode 0x0400 then HR_BIN else 0)
      in [nireg SUBDEV_UNKNOWN3 0x10 0, nireg SUBDEV_TNT4882 REG_CMDR CMDR_SOFT_RESET,
          nireg SUBDEV_TNT4882 REG_AUXMR auxra, nireg SUBDEV_TNT4882 REG_AUXCR auxra,
          nireg SUBDEV_TNT4882 REG_HSSEL TNT_ONE_CHIP_BIT, nireg SUBDEV_TNT4882 REG_AUXMR AUX_CR,
          nireg SUBDEV_TNT4882 REG_IMR0 TNT_IMR0_ALWAYS_BITS, nireg SUBDEV_TNT4882 REG_IMR1 0,
          nireg SUBDEV_TNT4882 REG_IMR2 0, nireg SUBDEV_TNT4882 REG_IMR3 0, nireg SUBDEV_TNT4882 REG_AUXMR AUX_HLDI] @
         setup_t1_delay 500 @
         [nireg SUBDEV_TNT4882 REG_AUXMR (AUXRG OR NTNL_BIT), nireg SUBDEV_TNT4882 REG_CMDR CMDR_SETSC,
          nireg SUBDEV_TNT4882 REG_AUXMR AUX_CIFC, nireg SUBDEV_TNT4882 REG_ADR (pad AND 0x1f),
          nireg SUBDEV_UNKNOWN2 0 (pad AND 0x1f)] @
         setup_disable_sad @
         [nireg SUBDEV_UNKNOWN2 0x02 0xfd, nireg SUBDEV_TNT4882 0x0f 0x11, nireg SUBDEV_TNT4882 REG_AUXMR AUX_PON,
          nireg SUBDEV_TNT4882 REG_AUXMR AUX_CPPF])"

end
