(* ===== verification/Ni_Usb_Hs.thy ===== *)
theory Ni_Usb_Hs
  imports Ni_Protocol
begin

text \<open>
  The NI GPIB-USB-HS driver of \<^verbatim>\<open>src/src/backend/ni_usb_hs/mod.rs\<close> over an arbitrary transport: the trait
  \<^verbatim>\<open>NiTransport\<close> is a record of functions on the state of the USB device, which includes the clock. The
  handshakes of \<^verbatim>\<open>usb.rs\<close> that only use the trait are here as well.
\<close>

section \<open>Transport and state\<close>

abbreviation PID_NI_USB_HS_PLUS :: u16 where "PID_NI_USB_HS_PLUS \<equiv> 0x7618"
abbreviation NI_USB_WAIT_REQUEST :: u8 where "NI_USB_WAIT_REQUEST \<equiv> 0x21"
abbreviation NI_USB_POLL_READY_REQUEST :: u8 where "NI_USB_POLL_READY_REQUEST \<equiv> 0x40"
abbreviation NI_USB_SERIAL_NUMBER_REQUEST :: u8 where "NI_USB_SERIAL_NUMBER_REQUEST \<equiv> 0x41"
abbreviation REG_WRITE_RESP_LEN :: nat where "REG_WRITE_RESP_LEN \<equiv> 16"
abbreviation OP_RESP_LEN :: nat where "OP_RESP_LEN \<equiv> 12"
abbreviation REG_READ_RESP_LEN :: nat where "REG_READ_RESP_LEN \<equiv> 32"

record 'u ni_transport =
  nt_transact :: "bytes \<Rightarrow> nat \<Rightarrow> ('u, bytes) act"
  nt_control_in :: "u8 \<Rightarrow> u16 \<Rightarrow> u16 \<Rightarrow> nat \<Rightarrow> ('u, bytes) act"
  nt_control_in_interface :: "u8 \<Rightarrow> u16 \<Rightarrow> u16 \<Rightarrow> nat \<Rightarrow> ('u, bytes) act"
  nt_product_id :: "'u \<Rightarrow> u16"
  nt_rearm_srq_if_pending :: "'u \<Rightarrow> 'u"
  nt_set_adapter_wait :: "u32 \<Rightarrow> 'u \<Rightarrow> 'u"
  nt_can_srq :: "'u \<Rightarrow> bool"
  nt_drain_stale_responses :: "'u \<Rightarrow> 'u"
  nt_rearm_srq :: "u16 \<Rightarrow> ('u, unit) act"
  nt_now :: "'u \<Rightarrow> nat"
  nt_sleep :: "nat \<Rightarrow> 'u \<Rightarrow> 'u"

record read_addressing =
  ra_talker :: "u8 option"
  ra_listener :: u8

record 'u ni =
  ni_transport :: 'u
  ni_my_pad :: u8
  ni_listen_only :: bool
  ni_device_address :: "u8 option"
  ni_eos_char :: u8
  ni_eos_enabled :: bool
  ni_timeout_ms :: u32
  ni_read_addressing :: "read_addressing option"

definition new_ni :: "'u \<Rightarrow> u32 \<Rightarrow> 'u ni" where
  "new_ni transport timeout_ms =
     \<lparr>ni_transport = transport, ni_my_pad = 0, ni_listen_only = False, ni_device_address = None, ni_eos_char = 10,
      ni_eos_enabled = False, ni_timeout_ms = timeout_ms, ni_read_addressing = None\<rparr>"

text \<open>Methods of the transport as methods of the driver.\<close>

definition ni_usb :: "('u \<Rightarrow> 'a \<times> 'u) \<Rightarrow> 'u ni \<Rightarrow> 'a \<times> 'u ni" where
  "ni_usb f s = (case f (ni_transport s) of (r, u) \<Rightarrow> (r, s\<lparr>ni_transport := u\<rparr>))"

definition ni_usb_do :: "('u \<Rightarrow> 'u) \<Rightarrow> ('u ni, unit) act" where
  "ni_usb_do f = modify (\<lambda>s. s\<lparr>ni_transport := f (ni_transport s)\<rparr>)"

definition forget_addressing :: "('u ni, unit) act" where
  "forget_addressing = modify (\<lambda>s. s\<lparr>ni_read_addressing := None\<rparr>)"

definition adapter_timeout_code :: "'u ni_transport \<Rightarrow> u32 \<Rightarrow> ('u ni, u8) act" where
  "adapter_timeout_code tr timeout_ms =
     (let (code, wait_ms) = timeout_code_floor timeout_ms
      in seq (ni_usb_do (nt_set_adapter_wait tr wait_ms)) (ret code))"

definition eos_mode :: "'u ni \<Rightarrow> u16" where
  "eos_mode s = (if ni_eos_enabled s then 0x0400 else 0)"

abbreviation ni_exchange :: "'u ni_transport \<Rightarrow> bytes \<Rightarrow> nat \<Rightarrow> ('u ni, bytes) act" where
  "ni_exchange tr req resp_len \<equiv> ni_usb (nt_transact tr req resp_len)"

section \<open>Registers\<close>

definition register_read :: "'u ni_transport \<Rightarrow> (u8 \<times> u8) list \<Rightarrow> ('u ni, bytes) act" where
  "register_read tr regs =
     andthen (ni_exchange tr (encode_register_read regs) REG_READ_RESP_LEN)
       (\<lambda>resp. from_result (parse_register_read_response resp (length regs)))"

definition register_write :: "'u ni_transport \<Rightarrow> ni_register list \<Rightarrow> ('u ni, unit) act" where
  "register_write tr regs =
     andthen (ni_exchange tr (encode_register_write regs) REG_WRITE_RESP_LEN) (\<lambda>resp.
     andthen (from_result (parse_register_write_response resp)) (\<lambda>(status, completed).
       if unat completed \<noteq> length regs then
         bail (lit ''ni register write: '' @ dec (unat completed) @ lit '' of '' @ dec (length regs) @ lit '' completed'')
       else ret ()))"

definition ready_acceptor :: "'u ni_transport \<Rightarrow> ('u ni, unit) act" where
  "ready_acceptor tr =
     with_context (lit ''ni: readying the acceptor'')
       (register_write tr [nireg SUBDEV_TNT4882 REG_AUXMR AUX_FH, nireg SUBDEV_TNT4882 REG_CMDR CMDR_GO])"

definition restore_acceptor :: "'u ni_transport \<Rightarrow> ('u ni, unit) act" where
  "restore_acceptor tr =
     with_context (lit ''ni: restoring the acceptor'') (register_write tr [nireg SUBDEV_TNT4882 REG_CMDR CMDR_STOP])"

definition take_held_byte :: "'u ni_transport \<Rightarrow> ('u ni, u8 option) act" where
  "take_held_byte tr =
     andthen (register_read tr [(SUBDEV_TNT4882, 0x02), (SUBDEV_TNT4882, 0x00)]) (\<lambda>regs.
       ret (if has_flag (regs ! 0) 0x01 then Some (regs ! 1) else None))"

text \<open>A turn that finds no byte sleeps for a millisecond, so the deadline stops the loop before the turns given
  here run out.\<close>

fun await_status_byte :: "'u ni_transport \<Rightarrow> nat \<Rightarrow> nat \<Rightarrow> ('u ni, u8) act" where
  "await_status_byte tr deadline 0 = bail (lit ''the instrument sent no status byte in response to the poll'')"
| "await_status_byte tr deadline (Suc n) =
     andthen (with_context (lit ''ni serial poll: reading the status byte'') (take_held_byte tr)) (\<lambda>held.
       case held of
         Some b \<Rightarrow> ret b
       | None \<Rightarrow>
           andthen (asks (\<lambda>s. nt_now tr (ni_transport s))) (\<lambda>now.
             if deadline \<le> now then bail (lit ''the instrument sent no status byte in response to the poll'')
             else seq (ni_usb_do (nt_sleep tr 1)) (await_status_byte tr deadline n)))"

definition take_status_byte :: "'u ni_transport \<Rightarrow> ('u ni, u8) act" where
  "take_status_byte tr =
     andthen (asks (\<lambda>s. (nt_now tr (ni_transport s) + unat (ni_timeout_ms s), Suc (unat (ni_timeout_ms s)))))
       (\<lambda>(deadline, turns). await_status_byte tr deadline turns)"

section \<open>Data and command transfers\<close>

fun write_pieces :: "'u ni_transport \<Rightarrow> u8 \<Rightarrow> bool \<Rightarrow> bytes list \<Rightarrow> ('u ni, unit) act" where
  "write_pieces tr tc send_eoi [] = ret ()"
| "write_pieces tr tc send_eoi (piece # rest) =
     andthen (ni_exchange tr (encode_data_write piece (send_eoi \<and> rest = []) tc) OP_RESP_LEN) (\<lambda>resp.
     andthen (with_context (lit ''ni data write'') (from_result (parse_write_response resp (length piece)))) (\<lambda>written.
       if written \<noteq> length piece then
         bail (lit ''ni data write: instrument accepted only '' @ dec written @ lit '' of '' @ dec (length piece) @
               lit '' bytes'')
       else write_pieces tr tc send_eoi rest))"

definition ni_write_data_body :: "'u ni_transport \<Rightarrow> bytes \<Rightarrow> bool \<Rightarrow> ('u ni, unit) act" where
  "ni_write_data_body tr d send_eoi =
     andthen (\<lambda>s. adapter_timeout_code tr (ni_timeout_ms s) s) (\<lambda>tc.
       write_pieces tr tc send_eoi (if d = [] then [[]] else chunks MAX_TRANSFER_LEN d))"

definition ni_read_data_body :: "'u ni_transport \<Rightarrow> nat \<Rightarrow> ('u ni, bytes \<times> bool) act" where
  "ni_read_data_body tr max_len =
     (let n = min max_len MAX_TRANSFER_LEN
      in andthen (asks (\<lambda>s. (eos_mode s, ni_eos_char s))) (\<lambda>(mode, ch).
         andthen (\<lambda>s. adapter_timeout_code tr (ni_timeout_ms s) s) (\<lambda>tc.
         andthen (ni_exchange tr (encode_data_read n mode ch tc) ((n div 30 + 1) * 0x20 + 0x20)) (\<lambda>resp.
           with_context (lit ''ni data read'') (from_result (parse_data_read_response resp n))))))"

fun command_pieces :: "'u ni_transport \<Rightarrow> u8 \<Rightarrow> bytes list \<Rightarrow> ('u ni, unit) act" where
  "command_pieces tr tc [] = ret ()"
| "command_pieces tr tc (piece # rest) =
     andthen (ni_exchange tr (encode_command piece tc) OP_RESP_LEN) (\<lambda>resp.
     seq (with_context (lit ''ni command byte transfer'') (from_result (parse_write_response resp (length piece))))
       (command_pieces tr tc rest))"

definition send_command_bounded :: "'u ni_transport \<Rightarrow> bytes \<Rightarrow> bool \<Rightarrow> u32 \<Rightarrow> ('u ni, unit) act" where
  "send_command_bounded tr cmd standby_after timeout_ms =
     seq forget_addressing
     (andthen (adapter_timeout_code tr timeout_ms) (\<lambda>tc.
      seq (ni_exchange tr (encode_take_control True) OP_RESP_LEN)
      (seq (command_pieces tr tc (chunks 16 cmd))
        (if standby_after then seq (ni_exchange tr encode_go_to_standby OP_RESP_LEN) (ret ()) else ret ()))))"

definition ni_send_command :: "'u ni_transport \<Rightarrow> bytes \<Rightarrow> bool \<Rightarrow> ('u ni, unit) act" where
  "ni_send_command tr cmd standby_after s = send_command_bounded tr cmd standby_after (ni_timeout_ms s) s"

section \<open>Bring-up\<close>

fun poll_ready :: "'u ni_transport \<Rightarrow> nat \<Rightarrow> nat \<Rightarrow> ('u, unit) act" where
  "poll_ready tr 0 errors = bail (lit ''NI adapter did not report ready after 5s of polling'')"
| "poll_ready tr (Suc n) errors =
     andthen (attempt (nt_control_in tr NI_USB_POLL_READY_REQUEST 0 0 16)) (\<lambda>r.
       case r of
         Inr status \<Rightarrow>
           if 11 \<le> length status \<and> (status ! 6 \<noteq> 0 \<or> status ! 7 \<noteq> 0 \<or> status ! 10 \<noteq> 0) then ret ()
           else seq (modify (nt_sleep tr 100)) (poll_ready tr n 0)
       | Inl e \<Rightarrow>
           if 5 \<le> errors + 1 then
             bail (lit ''NI adapter is not answering control requests ('' @ dec (errors + 1) @
                   lit '' consecutive failures); last error: '' @ e)
           else seq (modify (nt_sleep tr 100)) (poll_ready tr n (errors + 1)))"

definition wait_for_ready :: "'u ni_transport \<Rightarrow> ('u, unit) act" where
  "wait_for_ready tr =
     seq (ignoring (nt_control_in tr NI_USB_SERIAL_NUMBER_REQUEST 0 0 16)) (poll_ready tr 50 0)"

definition hs_plus_extra_init :: "'u ni_transport \<Rightarrow> ('u, unit) act" where
  "hs_plus_extra_init tr =
     seq (nt_control_in tr 0x48 0 0 16) (seq (nt_control_in tr 0x4b 1 0 2)
       (seq (nt_control_in_interface tr 0xf8 0 1 9) (ret ())))"

definition set_interrupt_monitor :: "'u ni_transport \<Rightarrow> u16 \<Rightarrow> ('u, unit) act" where
  "set_interrupt_monitor tr monitored_bits =
     andthen (with_context (lit ''ni interrupt-monitor request failed'')
         (nt_control_in tr NI_USB_WAIT_REQUEST 0x300 monitored_bits 8)) (\<lambda>reply.
       if length reply \<noteq> 8 then
         bail (lit ''ni interrupt-monitor: expected an 8-byte status block, got '' @ dec (length reply))
       else ret ())"

definition ni_ifc :: "'u ni_transport \<Rightarrow> ('u ni, unit) act" where
  "ni_ifc tr = seq forget_addressing (seq (ni_exchange tr encode_interface_clear OP_RESP_LEN) (ret ()))"

definition ni_ren :: "'u ni_transport \<Rightarrow> bool \<Rightarrow> ('u ni, unit) act" where
  "ni_ren tr enable = register_write tr [nireg SUBDEV_TNT4882 REG_AUXMR (if enable then AUX_SREN else AUX_CREN)]"

definition priming_write :: "'u ni_transport \<Rightarrow> ('u ni, unit) act" where
  "priming_write tr =
     andthen (adapter_timeout_code tr 10)
       (\<lambda>tc. ignoring (ni_exchange tr (encode_data_write [0] False tc) OP_RESP_LEN))"

definition ni_init :: "'u ni_transport \<Rightarrow> u8 \<Rightarrow> ('u ni, unit) act" where
  "ni_init tr my_pad =
     seq (modify (\<lambda>s. s\<lparr>ni_my_pad := my_pad, ni_read_addressing := None\<rparr>))
     (seq (ni_usb_do (nt_drain_stale_responses tr))
     (seq (ni_usb (wait_for_ready tr))
     (seq (\<lambda>s. if nt_product_id tr (ni_transport s) = PID_NI_USB_HS_PLUS then ni_usb (hs_plus_extra_init tr) s else ret () s)
     (seq (\<lambda>s. with_context (lit ''ni init register sequence'') (register_write tr (setup_init my_pad (eos_mode s))) s)
     (seq (with_context (lit ''ni init: interface clear'') (ni_ifc tr))
     (seq (with_context (lit ''ni init: assert REN'') (ni_ren tr True))
     (seq (ignoring (send_command_bounded tr [GPIB_UNL, ni_talk_address my_pad] False 100))
     (seq (priming_write tr)
       (ni_usb (set_interrupt_monitor tr IBSTA_SRQI))))))))))"

section \<open>Operations\<close>

definition ni_write :: "'u ni_transport \<Rightarrow> u8 \<Rightarrow> bytes \<Rightarrow> bool \<Rightarrow> ('u ni, unit) act" where
  "ni_write tr pad d send_eoi s =
     (if ni_listen_only s then bail (lit ''cannot write while in listen-only mode (++lon 0 to leave)'') s
      else if ni_device_address s \<noteq> None then
        bail (lit ''cannot write while in device mode: we are not the controller'') s
      else seq (ni_usb_do (nt_rearm_srq_if_pending tr))
             (seq (ni_send_command tr [GPIB_UNL, ni_talk_address (ni_my_pad s), ni_listen_address pad] True)
               (ni_write_data_body tr d send_eoi)) s)"

definition address_for_read :: "'u ni_transport \<Rightarrow> u8 \<Rightarrow> ('u ni, unit) act" where
  "address_for_read tr pad s =
     (let want = \<lparr>ra_talker = (if ni_listen_only s then None else Some pad), ra_listener = ni_my_pad s\<rparr>
      in if ni_read_addressing s \<noteq> Some want then
           seq (ni_send_command tr
                  (if ni_listen_only s then [GPIB_UNL, ni_listen_address (ni_my_pad s)]
                   else [GPIB_UNL, ni_listen_address (ni_my_pad s), ni_talk_address pad]) True)
             (modify (\<lambda>s. s\<lparr>ni_read_addressing := Some want\<rparr>)) s
         else ret () s)"

definition ni_read :: "'u ni_transport \<Rightarrow> u8 \<Rightarrow> nat \<Rightarrow> ('u ni, bytes \<times> bool) act" where
  "ni_read tr pad max_len =
     (let n = min max_len MAX_TRANSFER_LEN
      in seq (ni_usb_do (nt_rearm_srq_if_pending tr))
           (\<lambda>s. if ni_device_address s \<noteq> None then ni_read_data_body tr n s
                else seq (address_for_read tr pad) (ni_read_data_body tr n) s))"

definition ni_device_clear :: "'u ni_transport \<Rightarrow> u8 \<Rightarrow> ('u ni, unit) act" where
  "ni_device_clear tr pad = ni_send_command tr [GPIB_UNL, ni_listen_address pad, GPIB_SDC] False"

definition ni_go_to_remote :: "'u ni_transport \<Rightarrow> u8 \<Rightarrow> ('u ni, unit) act" where
  "ni_go_to_remote tr pad = seq (ni_ren tr True) (ni_send_command tr [GPIB_UNL, ni_listen_address pad] False)"

definition ni_go_to_local :: "'u ni_transport \<Rightarrow> u8 \<Rightarrow> ('u ni, unit) act" where
  "ni_go_to_local tr pad = ni_send_command tr [GPIB_UNL, ni_listen_address pad, GPIB_GTL] False"

definition ni_local_lockout :: "'u ni_transport \<Rightarrow> ('u ni, unit) act" where
  "ni_local_lockout tr = ni_send_command tr [GPIB_LLO] False"

definition ni_trigger :: "'u ni_transport \<Rightarrow> u8 \<Rightarrow> ('u ni, unit) act" where
  "ni_trigger tr pad = ni_send_command tr [GPIB_UNL, ni_listen_address pad, GPIB_GET] False"

text \<open>The end of a serial poll: both halves of the restoration run, and the error of the first is reported.\<close>

definition finish_poll :: "'u ni_transport \<Rightarrow> u8 \<Rightarrow> u8 io \<Rightarrow> ('u ni, u8) act" where
  "finish_poll tr pad polled =
     andthen (attempt (restore_acceptor tr)) (\<lambda>acceptor.
     andthen (attempt (ni_send_command tr [GPIB_SPD, GPIB_UNT] False)) (\<lambda>bus.
     seq (ignoring (ni_usb (nt_rearm_srq tr IBSTA_SRQI)))
     (andthen (with_context (lit ''ni serial poll of pad '' @ dec (unat pad)) (from_result polled)) (\<lambda>stb.
     seq (with_context (lit ''ni serial poll: restoring the bus after the poll'')
            (from_result (case acceptor of Inl e \<Rightarrow> Inl e | Inr _ \<Rightarrow> bus)))
       (ret stb)))))"

definition ni_serial_poll :: "'u ni_transport \<Rightarrow> u8 \<Rightarrow> ('u ni, u8) act" where
  "ni_serial_poll tr pad s =
     seq (ni_send_command tr [GPIB_UNL, GPIB_SPE, ni_talk_address pad, ni_listen_address (ni_my_pad s)] False)
     (seq (ready_acceptor tr)
     (andthen (attempt (ni_exchange tr encode_go_to_standby OP_RESP_LEN)) (\<lambda>standby.
      andthen (case standby of Inl e \<Rightarrow> ret (Inl e) | Inr _ \<Rightarrow> attempt (take_status_byte tr)) (finish_poll tr pad)))) s"

definition ni_send_data_unaddressed :: "'u ni_transport \<Rightarrow> bytes \<Rightarrow> bool \<Rightarrow> ('u ni, unit) act" where
  "ni_send_data_unaddressed tr d send_eoi s =
     (if ni_listen_only s then bail (lit ''cannot write while in listen-only mode (++lon 0 to leave)'') s
      else ni_write_data_body tr d send_eoi s)"

definition ni_set_controller_pad :: "'u ni_transport \<Rightarrow> u8 \<Rightarrow> ('u ni, unit) act" where
  "ni_set_controller_pad tr pad =
     (if 30 < pad then bail (lit ''controller address '' @ dec (unat pad) @ lit '' is out of range (0-30)'')
      else seq (with_context (lit ''ni set controller address'')
                  (register_write tr [nireg SUBDEV_TNT4882 REG_ADR (pad AND 0x1f)]))
             (modify (\<lambda>s. s\<lparr>ni_my_pad := pad, ni_read_addressing := None\<rparr>)))"

definition ni_set_atn :: "'u ni_transport \<Rightarrow> bool \<Rightarrow> ('u ni, unit) act" where
  "ni_set_atn tr assert_it =
     seq forget_addressing
       (seq (ni_exchange tr (if assert_it then encode_take_control True else encode_go_to_standby) OP_RESP_LEN) (ret ()))"

definition ni_bus_lines :: "'u ni_transport \<Rightarrow> ('u ni, bus_lines) act" where
  "ni_bus_lines tr =
     andthen (with_context (lit ''ni bus status read'') (register_read tr [(SUBDEV_TNT4882, REG_BSR)])) (\<lambda>vals.
       case vals of
         [] \<Rightarrow> bail (lit ''ni bus status read returned no data'')
       | bsr # _ \<Rightarrow> ret (from_bsr bsr))"

definition ni_srq_asserted :: "'u ni_transport \<Rightarrow> ('u ni, bool) act" where
  "ni_srq_asserted tr = andthen (ni_bus_lines tr) (\<lambda>lines. ret (bl_srq lines))"

definition ni_set_listen_only :: "'u ni_transport \<Rightarrow> bool \<Rightarrow> ('u ni, unit) act" where
  "ni_set_listen_only tr enable =
     seq forget_addressing (\<lambda>s.
       let bin = (if has_flag (eos_mode s) 0x0400 then HR_BIN else 0)
       in if enable then
            seq (with_context (lit ''ni enter listen-only'')
                   (register_write tr
                      [nireg SUBDEV_TNT4882 REG_ADMR (ADMR_DISABLE_SAD OR HR_LON),
                       nireg SUBDEV_TNT4882 REG_AUXMR (AUXRA OR bin), nireg SUBDEV_TNT4882 REG_AUXMR AUX_FH]))
              (modify (\<lambda>s. s\<lparr>ni_listen_only := True\<rparr>)) s
          else seq (modify (\<lambda>s. s\<lparr>ni_listen_only := False\<rparr>))
                 (with_context (lit ''ni leave listen-only'') (ni_init tr (ni_my_pad s))) s)"

definition ni_set_device_mode :: "'u ni_transport \<Rightarrow> u8 option \<Rightarrow> ('u ni, unit) act" where
  "ni_set_device_mode tr address =
     seq forget_addressing
       (case address of
          None \<Rightarrow>
            seq (modify (\<lambda>s. s\<lparr>ni_device_address := None\<rparr>))
              (\<lambda>s. with_context (lit ''ni leave device mode'') (ni_init tr (ni_my_pad s)) s)
        | Some addr \<Rightarrow>
            if 30 < addr then bail (lit ''device address '' @ dec (unat addr) @ lit '' is out of range (0-30)'')
            else seq (with_context (lit ''ni enter device mode'')
                        (register_write tr
                           [nireg SUBDEV_TNT4882 REG_ADR (addr AND 0x1f), nireg SUBDEV_TNT4882 REG_AUXMR AUX_CREN,
                            nireg SUBDEV_TNT4882 REG_AUXMR AUX_CIFC, nireg SUBDEV_TNT4882 REG_AUXMR AUX_DSC,
                            nireg SUBDEV_TNT4882 REG_CMDR CMDR_CLRSC]))
                   (modify (\<lambda>s. s\<lparr>ni_device_address := Some addr, ni_listen_only := False\<rparr>)))"

definition ni_set_timeout :: "'u ni_transport \<Rightarrow> u32 \<Rightarrow> 'u ni \<Rightarrow> 'u ni" where
  "ni_set_timeout tr timeout_ms s =
     s\<lparr>ni_timeout_ms := timeout_ms,
       ni_transport := nt_set_adapter_wait tr (snd (timeout_code_floor timeout_ms)) (ni_transport s)\<rparr>"

definition ni_shutdown :: "'u ni_transport \<Rightarrow> ('u ni, unit) act" where
  "ni_shutdown tr =
     seq (ni_usb (set_interrupt_monitor tr 0))
       (with_context (lit ''ni shutdown register write'')
         (register_write tr [nireg SUBDEV_TNT4882 REG_AUXMR AUX_CR, nireg SUBDEV_UNKNOWN3 0x10 0]))"

definition ni_ops :: "'u ni_transport \<Rightarrow> 'u ni backend_ops" where
  "ni_ops tr =
     \<lparr>op_write = ni_write tr, op_read = ni_read tr, op_device_clear = ni_device_clear tr, op_trigger = ni_trigger tr,
      op_ifc = ni_ifc tr, op_ren = ni_ren tr, op_go_to_remote = ni_go_to_remote tr, op_go_to_local = ni_go_to_local tr,
      op_local_lockout = ni_local_lockout tr, op_serial_poll = ni_serial_poll tr, op_srq_asserted = ni_srq_asserted tr,
      op_bus_lines = ni_bus_lines tr, op_set_listen_only = ni_set_listen_only tr, op_listen_only = ni_listen_only,
      op_set_device_mode = ni_set_device_mode tr, op_device_address = ni_device_address,
      op_can_subscribe_srq = (\<lambda>s. nt_can_srq tr (ni_transport s)),
      op_send_bus_command = (\<lambda>cmds. ni_send_command tr cmds True), op_set_atn = ni_set_atn tr,
      op_controller_pad = ni_my_pad, op_set_controller_pad = ni_set_controller_pad tr,
      op_send_data_unaddressed = ni_send_data_unaddressed tr, op_read_unaddressed = ni_read_data_body tr,
      op_set_eos = (\<lambda>ch on s. s\<lparr>ni_eos_char := ch, ni_eos_enabled := on\<rparr>),
      op_eos = (\<lambda>s. (ni_eos_char s, ni_eos_enabled s)), op_set_timeout = ni_set_timeout tr,
      op_read_slice_ms = (\<lambda>s. Some 250)\<rparr>"

section \<open>Opening\<close>

text \<open>The host side of opening: a world of USB devices in which a transport is opened, quiesced, dropped, and
  the configuration re-applied.\<close>

record ('w, 'u) ni_host =
  nh_open :: "u32 \<Rightarrow> rstr option \<Rightarrow> ('w, 'u) act"
  nh_quiesce :: "'u \<Rightarrow> 'u"
  nh_drop :: "'u \<Rightarrow> 'w \<Rightarrow> 'w"
  nh_reset_configuration :: "rstr option \<Rightarrow> 'w \<Rightarrow> 'w"

fun ni_attempts :: "('w, 'u) ni_host \<Rightarrow> 'u ni_transport \<Rightarrow> u32 \<Rightarrow> rstr option \<Rightarrow> nat \<Rightarrow> rstr \<Rightarrow> ('w, 'u ni) act" where
  "ni_attempts host tr timeout_ms port 0 last_err w =
     (Inl (lit ''ni adapter initialization failed; if it stays stuck, unplug the adapter and plug it back in'' @
           lit '': '' @ last_err), w)"
| "ni_attempts host tr timeout_ms port (Suc n) last_err w =
     (case nh_open host timeout_ms port w of
        (Inl e, w1) \<Rightarrow> (Inl e, w1)
      | (Inr u, w1) \<Rightarrow>
          (case ni_init tr 0 (new_ni (nh_quiesce host u) timeout_ms) of
             (Inr _, ctrl) \<Rightarrow> (Inr ctrl, w1)
           | (Inl e, ctrl) \<Rightarrow>
               ni_attempts host tr timeout_ms port n e
                 (nh_reset_configuration host port (nh_drop host (ni_transport ctrl) w1))))"

definition ni_open :: "('w, 'u) ni_host \<Rightarrow> 'u ni_transport \<Rightarrow> u32 \<Rightarrow> rstr option \<Rightarrow> ('w, 'u ni) act" where
  "ni_open host tr timeout_ms port = ni_attempts host tr timeout_ms port 3 []"

end
