(* ===== verification/Usb_Pipe.thy ===== *)
theory Usb_Pipe
  imports Adapter
begin

text \<open>
  The endpoints of the \<^verbatim>\<open>nusb\<close> crate that the USB transports of the adapters work on, as a record of functions
  of the endpoints' state: transfers are submitted, and a completion is awaited for at most a number of
  milliseconds; a transfer whose completion was not awaited stays submitted.
\<close>

record 'h usb_pipe =
  up_submit_out :: "bytes \<Rightarrow> 'h \<Rightarrow> 'h"
  up_next_out :: "nat \<Rightarrow> 'h \<Rightarrow> unit io option \<times> 'h"
  up_submit_in :: "nat \<Rightarrow> 'h \<Rightarrow> 'h"
  up_next_in :: "nat \<Rightarrow> 'h \<Rightarrow> bytes io option \<times> 'h"
  up_max_packet_size :: "'h \<Rightarrow> nat"
  up_clear_halt :: "'h \<Rightarrow> 'h"
  up_control_in :: "u8 \<Rightarrow> u16 \<Rightarrow> u16 \<Rightarrow> nat \<Rightarrow> ('h, bytes) act"
  up_control_in_interface :: "u8 \<Rightarrow> u16 \<Rightarrow> u16 \<Rightarrow> nat \<Rightarrow> ('h, bytes) act"
  up_now :: "'h \<Rightarrow> nat"
  up_sleep :: "nat \<Rightarrow> 'h \<Rightarrow> 'h"

text \<open>\<^verbatim>\<open>n.div_ceil(mps) * mps\<close>: transfers ask for whole packets.\<close>

definition round_up :: "nat \<Rightarrow> nat \<Rightarrow> nat" where
  "round_up mps n = (n + mps - 1) div mps * mps"

text \<open>\<^verbatim>\<open>{:#04x}\<close>\<close>

definition hex_u8 :: "u8 \<Rightarrow> rstr" where
  "hex_u8 b = (let ds = hex_digits (unat b) in lit ''0x'' @ replicate (2 - length ds) 48 @ ds)"

end
