(* ===== verification/Ni_Transport.thy ===== *)
theory Ni_Transport
  imports Ni_Usb_Hs Usb_Pipe
begin

text \<open>
  The USB transport of the NI GPIB-USB-HS, \<^verbatim>\<open>src/src/backend/ni_usb_hs/usb.rs\<close>: request and reply as one
  exchange over the two bulk endpoints, with the draining and resynchronising that follows an abandoned one.
  The task that reads the interrupt endpoint acts on the same state between exchanges.
\<close>

section \<open>State\<close>

record 'h ni_usb_state =
  nu_io :: 'h
  nu_abandoned :: "nat option"
  nu_pid :: u16
  nu_adapter_wait_ms :: u32
  nu_needs_rearm :: bool
  nu_srq_sent :: nat

abbreviation BULK_REPLY_MARGIN_MS :: nat where "BULK_REPLY_MARGIN_MS \<equiv> 2000"
abbreviation DRAIN_POLL :: nat where "DRAIN_POLL \<equiv> 100"
abbreviation NI_USB_STOP_REQUEST :: u8 where "NI_USB_STOP_REQUEST \<equiv> 0x20"
abbreviation MAX_REQUEST :: nat where "MAX_REQUEST \<equiv> 16 * 1024"
abbreviation MAX_RESYNC :: nat where "MAX_RESYNC \<equiv> 4"

definition new_ni_usb :: "'h \<Rightarrow> u16 \<Rightarrow> u32 \<Rightarrow> 'h ni_usb_state" where
  "new_ni_usb io pid timeout_ms =
     \<lparr>nu_io = io, nu_abandoned = None, nu_pid = pid, nu_adapter_wait_ms = snd (timeout_code_floor timeout_ms),
      nu_needs_rearm = False, nu_srq_sent = 0\<rparr>"

definition endpoints_for :: "u16 \<Rightarrow> u8 \<times> u8 \<times> u8" where
  "endpoints_for pid = (if pid = PID_NI_USB_HS_PLUS then (0x01, 0x82, 0x83) else (0x02, 0x84, 0x81))"

text \<open>A method on the endpoints as a method of the transport.\<close>

definition on_io :: "('h \<Rightarrow> 'a \<times> 'h) \<Rightarrow> 'h ni_usb_state \<Rightarrow> 'a \<times> 'h ni_usb_state" where
  "on_io f u = (case f (nu_io u) of (r, h) \<Rightarrow> (r, u\<lparr>nu_io := h\<rparr>))"

definition bulk_timeout :: "'h ni_usb_state \<Rightarrow> nat" where
  "bulk_timeout u = unat (nu_adapter_wait_ms u) + BULK_REPLY_MARGIN_MS"

section \<open>Transfers\<close>

definition bulk_out_locked :: "'h usb_pipe \<Rightarrow> bytes \<Rightarrow> nat \<Rightarrow> ('h, unit) act" where
  "bulk_out_locked up d timeout h =
     (case up_next_out up timeout (up_submit_out up d h) of
        (None, h1) \<Rightarrow> (Inl (lit ''ni bulk-out timed out: deadline has elapsed''), h1)
      | (Some (Inl e), h1) \<Rightarrow> (Inl (lit ''ni bulk-out failed: '' @ e), h1)
      | (Some (Inr _), h1) \<Rightarrow> (Inr (), h1))"

definition ends_with :: "bytes \<Rightarrow> bytes \<Rightarrow> bool" where
  "ends_with d needle \<longleftrightarrow> length needle \<le> length d \<and> drop (length d - length needle) d = needle"

text \<open>Transfers until a termination block, the limit or an empty transfer; \<open>None\<close> if one was not completed in
  the time \<open>wait\<close> allows.\<close>

function bulk_in_loop :: "'h usb_pipe \<Rightarrow> ('h \<Rightarrow> nat) \<Rightarrow> nat \<Rightarrow> bytes \<Rightarrow> 'h \<Rightarrow> bytes io option \<times> 'h" where
  "bulk_in_loop up wait max_len acc h =
     (if length acc < max_len \<and> \<not> ends_with acc termination_block then
        let want = round_up (max 1 (up_max_packet_size up h)) (max 1 (min (max_len - length acc) MAX_REQUEST));
            h0 = up_submit_in up want h
        in case up_next_in up (wait h0) h0 of
             (None, h1) \<Rightarrow> (None, h1)
           | (Some (Inl e), h1) \<Rightarrow> (Some (Inl (lit ''ni bulk-in failed: '' @ e)), h1)
           | (Some (Inr buffer), h1) \<Rightarrow>
               if buffer = [] then (Some (Inr acc), h1) else bulk_in_loop up wait max_len (acc @ buffer) h1
      else (Some (Inr acc), h))"
  by pat_completeness auto
termination
  by (relation "measure (\<lambda>(up, wait, max_len, acc, h). max_len - length acc)") (auto intro!: diff_less_mono2)

declare bulk_in_loop.simps [simp del]

definition bulk_in_locked :: "'h usb_pipe \<Rightarrow> nat \<Rightarrow> nat \<Rightarrow> ('h, bytes) act" where
  "bulk_in_locked up max_len timeout h =
     (case bulk_in_loop up (\<lambda>_. timeout) max_len [] h of
        (None, h1) \<Rightarrow> (Inl (lit ''ni bulk-in timed out: deadline has elapsed''), h1)
      | (Some r, h1) \<Rightarrow> (r, h1))"

fun drain_reads :: "'h usb_pipe \<Rightarrow> nat \<Rightarrow> nat \<Rightarrow> nat \<Rightarrow> 'h \<Rightarrow> 'h" where
  "drain_reads up mps wait 0 h = h"
| "drain_reads up mps wait (Suc n) h =
     (case up_next_in up wait (up_submit_in up (round_up mps 256) h) of
        (Some (Inr buffer), h1) \<Rightarrow> if buffer \<noteq> [] then drain_reads up mps DRAIN_POLL n h1 else h1
      | (_, h1) \<Rightarrow> h1)"

definition drain_bulk_in_locked :: "'h usb_pipe \<Rightarrow> nat \<Rightarrow> 'h \<Rightarrow> 'h" where
  "drain_bulk_in_locked up first_wait h = drain_reads up (max 1 (up_max_packet_size up h)) first_wait 16 h"

section \<open>Exchanges\<close>

text \<open>Replies until one answers the request; success clears the mark of the abandoned exchange.\<close>

fun await_reply :: "'h usb_pipe \<Rightarrow> bytes \<Rightarrow> nat \<Rightarrow> nat \<Rightarrow> nat \<Rightarrow> ('h ni_usb_state, bytes) act" where
  "await_reply up req resp_len timeout 0 =
     bail (lit ''ni bulk pipe is out of step: 4 replies in a row answered an earlier request'')"
| "await_reply up req resp_len timeout (Suc n) =
     andthen (on_io (bulk_in_locked up resp_len timeout)) (\<lambda>resp.
       if reply_answers_request req resp then seq (modify (\<lambda>u. u\<lparr>nu_abandoned := None\<rparr>)) (ret resp)
       else await_reply up req resp_len timeout n)"

definition drain_abandoned :: "'h usb_pipe \<Rightarrow> 'h ni_usb_state \<Rightarrow> 'h ni_usb_state" where
  "drain_abandoned up u =
     (case nu_abandoned u of
        None \<Rightarrow> u
      | Some deadline \<Rightarrow>
          u\<lparr>nu_abandoned := None,
            nu_io := drain_bulk_in_locked up (max (deadline - up_now up (nu_io u)) DRAIN_POLL) (nu_io u)\<rparr>)"

definition ni_usb_transact :: "'h usb_pipe \<Rightarrow> bytes \<Rightarrow> nat \<Rightarrow> ('h ni_usb_state, bytes) act" where
  "ni_usb_transact up req resp_len u =
     (let timeout = bulk_timeout u; u1 = drain_abandoned up u
      in seq (modify (\<lambda>v. v\<lparr>nu_abandoned := Some (up_now up (nu_io v) + timeout)\<rparr>))
           (seq (on_io (bulk_out_locked up req timeout)) (await_reply up req resp_len timeout MAX_RESYNC)) u1)"

definition ni_control_in :: "'h usb_pipe \<Rightarrow> u8 \<Rightarrow> u16 \<Rightarrow> u16 \<Rightarrow> nat \<Rightarrow> ('h ni_usb_state, bytes) act" where
  "ni_control_in up request v index max_len u =
     (case on_io (up_control_in up request v index max_len) u of
        (Inl e, u1) \<Rightarrow> (Inl (lit ''ni control-in failed: '' @ e), u1)
      | (Inr d, u1) \<Rightarrow> (Inr d, u1))"

definition ni_control_in_interface :: "'h usb_pipe \<Rightarrow> u8 \<Rightarrow> u16 \<Rightarrow> u16 \<Rightarrow> nat \<Rightarrow> ('h ni_usb_state, bytes) act" where
  "ni_control_in_interface up request v index max_len u =
     (case on_io (up_control_in_interface up request v index max_len) u of
        (Inl e, u1) \<Rightarrow> (Inl (lit ''ni interface control-in failed: '' @ e), u1)
      | (Inr d, u1) \<Rightarrow> (Inr d, u1))"

definition ni_quiesce :: "'h usb_pipe \<Rightarrow> 'h ni_usb_state \<Rightarrow> 'h ni_usb_state" where
  "ni_quiesce up u =
     (let u1 = snd (ni_control_in up NI_USB_STOP_REQUEST 0 0 8 u)
      in u1\<lparr>nu_abandoned := None, nu_io := drain_bulk_in_locked up DRAIN_POLL (up_clear_halt up (nu_io u1))\<rparr>)"

fun drain_stale_reads :: "'h usb_pipe \<Rightarrow> nat \<Rightarrow> 'h \<Rightarrow> 'h" where
  "drain_stale_reads up 0 h = h"
| "drain_stale_reads up (Suc n) h =
     (let deadline = up_now up h + 50
      in case bulk_in_loop up (\<lambda>k. deadline - up_now up k) 1024 [] h of
           (Some (Inr buf), h1) \<Rightarrow> if buf \<noteq> [] then drain_stale_reads up n h1 else h1
         | (_, h1) \<Rightarrow> h1)"

section \<open>Service requests\<close>

definition parse_interrupt_ibsta :: "bytes \<Rightarrow> u16 option" where
  "parse_interrupt_ibsta packet =
     (if length packet < 3 then None
      else let ibsta = push_bit 8 (ucast (packet ! 1)) OR ucast (packet ! 2)
           in if ibsta AND NOT IBSTA_DEFINED_BITS \<noteq> 0 then None else Some ibsta)"

text \<open>What the reader of the interrupt endpoint does with a completion.\<close>

definition interrupt_report :: "bytes \<Rightarrow> 'h ni_usb_state \<Rightarrow> 'h ni_usb_state" where
  "interrupt_report packet u =
     (if packet = [] then u
      else case parse_interrupt_ibsta packet of
             Some ibsta \<Rightarrow>
               if has_flag ibsta IBSTA_SRQI then u\<lparr>nu_needs_rearm := True, nu_srq_sent := nu_srq_sent u + 1\<rparr> else u
           | None \<Rightarrow> u)"

definition rearm_srq_if_pending :: "'h usb_pipe \<Rightarrow> 'h ni_usb_state \<Rightarrow> 'h ni_usb_state" where
  "rearm_srq_if_pending up u =
     (if \<not> nu_needs_rearm u then u
      else snd (ni_control_in up NI_USB_WAIT_REQUEST 0x300 IBSTA_SRQI 8 (u\<lparr>nu_needs_rearm := False\<rparr>)))"

definition rearm_srq :: "'h usb_pipe \<Rightarrow> u16 \<Rightarrow> ('h ni_usb_state, unit) act" where
  "rearm_srq up bits =
     seq (ni_control_in up NI_USB_WAIT_REQUEST 0x300 bits 8) (modify (\<lambda>u. u\<lparr>nu_needs_rearm := False\<rparr>))"

definition ni_usb_transport :: "'h usb_pipe \<Rightarrow> 'h ni_usb_state ni_transport" where
  "ni_usb_transport up =
     \<lparr>nt_transact = ni_usb_transact up, nt_control_in = ni_control_in up,
      nt_control_in_interface = ni_control_in_interface up, nt_product_id = nu_pid,
      nt_rearm_srq_if_pending = rearm_srq_if_pending up,
      nt_set_adapter_wait = (\<lambda>ms u. u\<lparr>nu_adapter_wait_ms := ms\<rparr>), nt_can_srq = (\<lambda>u. True),
      nt_drain_stale_responses = (\<lambda>u. u\<lparr>nu_io := drain_stale_reads up 8 (nu_io u)\<rparr>), nt_rearm_srq = rearm_srq up,
      nt_now = (\<lambda>u. up_now up (nu_io u)), nt_sleep = (\<lambda>ms u. u\<lparr>nu_io := up_sleep up ms (nu_io u)\<rparr>)\<rparr>"

end
