(* ===== verification/Ni_Laws.thy ===== *)
theory Ni_Laws
  imports Ni_Usb_Hs
begin

text \<open>
  What the NI driver promises: requests that decode to what was asked, replies that decode to what the adapter
  read, timeouts that never exceed the caller's, settings that survive every operation, and an addressing of the
  bus that the driver's memory of it never misrepresents.
\<close>

section \<open>Framing\<close>

lemma pad_to_4_shape: "\<exists>k. pad_to_4 buf = buf @ replicate k 0"
proof (induction buf rule: pad_to_4.induct)
  case (1 buf)
  show ?case
  proof (cases "length buf mod 4 = 0")
    case True
    then show ?thesis
      by (intro exI[of _ 0]) (simp add: pad_to_4.simps)
  next
    case False
    then obtain k where "pad_to_4 (buf @ [0]) = (buf @ [0]) @ replicate k 0"
      using 1 by blast
    then show ?thesis
      using False by (intro exI[of _ "Suc k"]) (simp add: pad_to_4.simps[of buf])
  qed
qed

lemma pad_to_4_aligned: "length (pad_to_4 buf) mod 4 = 0"
proof (induction buf rule: pad_to_4.induct)
  case (1 buf)
  then show ?case
    by (cases "length buf mod 4 = 0") (simp_all add: pad_to_4.simps[of buf])
qed

text \<open>What the adapter takes a request for: the command bytes with attention asserted, or the data with the
  end mark. The counts travel negated.\<close>

definition command_request :: "bytes \<Rightarrow> bytes option" where
  "command_request p =
     (if length p < 4 \<or> p ! 0 \<noteq> NIUSB_COMMAND_OP then None else Some (take (unat (- (p ! 1))) (drop 4 p)))"

definition data_request :: "bytes \<Rightarrow> (bool \<times> bytes) option" where
  "data_request p =
     (if length p < 8 \<or> p ! 0 \<noteq> NIUSB_DATA_WRITE_OP then None
      else Some (has_flag (p ! 6) 0x08,
                 take (unat (- (of_le [p ! 1, p ! 2] :: u16))) (drop 8 p)))"

lemma not_minus_one: "NOT (x - 1) = - (x :: 'a::len word)"
  by (simp add: minus_eq_not_minus_1 [symmetric])

lemma command_request_encode:
  assumes "length cmd < 256"
  shows "command_request (encode_command cmd tc) = Some cmd"
proof -
  obtain k where "pad_to_4 ([NIUSB_COMMAND_OP, NOT (of_nat (length cmd) - 1), 0, tc] @ cmd) =
      ([NIUSB_COMMAND_OP, NOT (of_nat (length cmd) - 1), 0, tc] @ cmd) @ replicate k 0"
    using pad_to_4_shape by blast
  then have "encode_command cmd tc = [NIUSB_COMMAND_OP, - of_nat (length cmd), 0, tc] @ cmd @ replicate k 0 @ termination_block"
    by (simp add: encode_command_def not_minus_one)
  then show ?thesis
    using assms by (simp add: command_request_def of_nat_unat_len)
qed

lemma split_le16: "[ucast (c AND 0xff), ucast (drop_bit 8 c)] = le16 (c :: u16)"
proof -
  have "ucast (c AND 0xff) = (ucast c :: u8)"
    by (rule bit_word_eqI) (auto simp: bit_simps mask_eq_exp_minus_1[of 8, where 'a = u16, simplified, symmetric])
  then show ?thesis
    by (simp add: numeral_2_eq_2)
qed

lemma data_request_encode:
  assumes "length d \<le> MAX_TRANSFER_LEN"
  shows "data_request (encode_data_write d eoi tc) = Some (eoi, d)"
proof -
  let ?c = "- of_nat (length d) :: u16"
  let ?f = "if eoi then 0x08 else 0 :: u8"
  let ?h = "le16 ?c @ [tc, 0, 0, ?f, 0]"
  obtain k where "pad_to_4 ((NIUSB_DATA_WRITE_OP # ?h) @ d) = ((NIUSB_DATA_WRITE_OP # ?h) @ d) @ replicate k 0"
    using pad_to_4_shape by blast
  then have shape: "encode_data_write d eoi tc = NIUSB_DATA_WRITE_OP # ?h @ d @ replicate k 0 @ termination_block"
    by (simp add: encode_data_write_def not_minus_one Let_def split_le16[symmetric])
  obtain x y where xy: "le16 ?c = [x, y]"
    by (simp add: numeral_2_eq_2)
  have "of_le [x, y] = ?c"
    using of_le_le(1)[of ?c] by (simp only: xy)
  moreover have "unat (- ?c) = length d"
    using assms by (simp add: of_nat_unat_len)
  moreover have "has_flag ?f 0x08 = eoi"
    by (simp add: has_flag_def)
  ultimately show ?thesis
    using shape unfolding xy by (simp add: data_request_def del: of_le.simps)
qed


section \<open>Replies to reads\<close>

text \<open>How the adapter sends what it read: blocks of 15 or of 30 bytes, the last one filled up, a status block,
  a reserved byte and the number of valid bytes in the last block.\<close>

definition block_size :: "bool \<Rightarrow> nat" where
  "block_size extended = (if extended then 30 else 15)"

definition fill :: "nat \<Rightarrow> bytes \<Rightarrow> bytes" where
  "fill l c = c @ replicate (l - length c) 0"

definition data_block :: "bool \<Rightarrow> bytes \<Rightarrow> bytes" where
  "data_block extended c =
     (if extended then [NIUSB_IBRD_EXTENDED_DATA_ID, 0] else [NIUSB_IBRD_DATA_ID]) @ fill (block_size extended) c"

definition read_reply :: "bool \<Rightarrow> bytes \<Rightarrow> u16 \<Rightarrow> u8 \<Rightarrow> u16 \<Rightarrow> bytes \<Rightarrow> bytes" where
  "read_reply extended d ibsta code residue rest =
     (let cs = chunks (block_size extended) d
      in concat (map (data_block extended) cs) @
         [NIUSB_IBRD_STATUS_ID, ucast (drop_bit 8 ibsta), ucast ibsta, code, ucast residue, ucast (drop_bit 8 residue), 0, 0, 0,
          of_nat (if cs = [] then 0 else length (last cs))] @ rest)"

lemma block_size_pos [simp]: "0 < block_size x" "block_size x \<noteq> 0" "block_size x < 256"
  by (simp_all add: block_size_def)

lemma length_fill [simp]: "length c \<le> l \<Longrightarrow> length (fill l c) = l"
  by (simp add: fill_def)

lemma data_blocks_step:
  assumes "length c \<le> block_size x"
  shows "data_blocks (pre @ data_block x c @ rest) (length pre) acc n l =
    data_blocks (pre @ data_block x c @ rest) (length (pre @ data_block x c)) (acc @ fill (block_size x) c) (n + 1) (block_size x)"
  using assms length_fill[OF assms]
  by (subst data_blocks.simps) (cases x; simp add: data_block_def block_size_def nth_append add.commute)

lemma data_blocks_all:
  assumes "\<forall>c \<in> set cs. length c \<le> block_size x" "rest = [] \<or> hd rest \<notin> {NIUSB_IBRD_DATA_ID, NIUSB_IBRD_EXTENDED_DATA_ID}"
  shows "data_blocks (pre @ concat (map (data_block x) cs) @ rest) (length pre) acc n l =
    Inr (length (pre @ concat (map (data_block x) cs)), acc @ concat (map (fill (block_size x)) cs), n + length cs,
         if cs = [] then l else block_size x)"
  using assms(1)
proof (induction cs arbitrary: pre acc n l)
  case Nil
  then show ?case
    using assms(2) by (subst data_blocks.simps) (auto simp: nth_append hd_conv_nth)
next
  case (Cons c cs)
  then have c: "length c \<le> block_size x" and cs: "\<forall>c \<in> set cs. length c \<le> block_size x"
    by auto
  have "data_blocks (pre @ concat (map (data_block x) (c # cs)) @ rest) (length pre) acc n l =
      data_blocks ((pre @ data_block x c) @ concat (map (data_block x) cs) @ rest) (length (pre @ data_block x c))
        (acc @ fill (block_size x) c) (n + 1) (block_size x)"
    using data_blocks_step[OF c, of pre "concat (map (data_block x) cs) @ rest" acc n l] by simp
  also note Cons.IH[OF cs]
  finally show ?case
    by simp
qed

lemma filled_chunks:
  assumes "0 < l"
  shows "(\<exists>k. concat (map (fill l) (chunks l d)) = d @ replicate k 0) \<and>
    (d \<noteq> [] \<longrightarrow> (length (chunks l d) - 1) * l + length (last (chunks l d)) = length d)"
  using assms
proof (induction l d rule: chunks.induct)
  case (1 l d)
  show ?case
  proof (cases "length d \<le> l")
    case True
    then show ?thesis
      using 1(2) by (cases "d = []") (auto simp: chunks_step fill_def)
  next
    case False
    then have d: "d \<noteq> []" and rest: "drop l d \<noteq> []"
      by auto
    then have step: "chunks l d = take l d # chunks l (drop l d)"
      using 1(2) by (intro chunks_step) auto
    from 1 d have IH: "(\<exists>k. concat (map (fill l) (chunks l (drop l d))) = drop l d @ replicate k 0) \<and>
      (length (chunks l (drop l d)) - 1) * l + length (last (chunks l (drop l d))) = length (drop l d)"
      using rest by simp
    then obtain k where "concat (map (fill l) (chunks l (drop l d))) = drop l d @ replicate k 0"
      by blast
    then have "concat (map (fill l) (chunks l d)) = d @ replicate k 0"
      using False by (simp add: step fill_def min_def)
    moreover have "chunks l (drop l d) \<noteq> []"
      using rest 1(2) by simp
    moreover have "length (chunks l (drop l d)) * l + length (last (chunks l (drop l d))) = length d"
      using IH False \<open>chunks l (drop l d) \<noteq> []\<close>
      by (cases "length (chunks l (drop l d))") auto
    ultimately show ?thesis
      by (auto simp: step)
  qed
qed

lemma parse_status_of:
  "parse_status_block ([i, ucast (drop_bit 8 w), ucast (w :: u16), code, ucast (r :: u16), ucast (drop_bit 8 r)] @ x # y # rest) =
     Inr \<lparr>sb_id = i, sb_ibsta = w, sb_error_code = code, sb_count = - r\<rparr>"
proof -
  have "push_bit 8 (ucast (ucast (drop_bit 8 w) :: u8)) OR ucast (ucast w :: u8) = w"
    "ucast (ucast r :: u8) OR push_bit 8 (ucast (ucast (drop_bit 8 r) :: u8)) = r"
    by (rule bit_word_eqI, auto simp: bit_simps)+
  then show ?thesis
    by (simp add: parse_status_block_def minus_eq_not_plus_1)
qed

lemma read_reply_blocks:
  obtains pre where
    "read_reply x d ibsta code residue rest =
       pre @ [NIUSB_IBRD_STATUS_ID, ucast (drop_bit 8 ibsta), ucast ibsta, code, ucast residue, ucast (drop_bit 8 residue), 0, 0, 0,
              of_nat (if chunks (block_size x) d = [] then 0 else length (last (chunks (block_size x) d)))] @ rest"
    "data_blocks (read_reply x d ibsta code residue rest) 0 [] 0 0 =
       Inr (length pre, concat (map (fill (block_size x)) (chunks (block_size x) d)), length (chunks (block_size x) d),
            if chunks (block_size x) d = [] then 0 else block_size x)"
proof
  let ?pre = "concat (map (data_block x) (chunks (block_size x) d))"
  show buf: "read_reply x d ibsta code residue rest =
       ?pre @ [NIUSB_IBRD_STATUS_ID, ucast (drop_bit 8 ibsta), ucast ibsta, code, ucast residue, ucast (drop_bit 8 residue), 0, 0, 0,
              of_nat (if chunks (block_size x) d = [] then 0 else length (last (chunks (block_size x) d)))] @ rest"
    by (simp add: read_reply_def Let_def)
  have "\<forall>c \<in> set (chunks (block_size x) d). length c \<le> block_size x"
    using chunks_bounds[of "block_size x"] by auto
  then show "data_blocks (read_reply x d ibsta code residue rest) 0 [] 0 0 =
       Inr (length ?pre, concat (map (fill (block_size x)) (chunks (block_size x) d)), length (chunks (block_size x) d),
            if chunks (block_size x) d = [] then 0 else block_size x)"
    using data_blocks_all[of "chunks (block_size x) d" x _ "[]" "[]" 0 0] by (simp add: buf)
qed

lemma parse_read_reply:
  assumes "read_status_error code = None"
  shows "parse_data_read_response (read_reply x d ibsta code residue rest) max_len = Inr (take max_len d, has_flag ibsta IBSTA_END)"
proof -
  let ?l = "block_size x" and ?cs = "chunks (block_size x) d"
  obtain k where k: "concat (map (fill ?l) ?cs) = d @ replicate k 0"
    and len: "d \<noteq> [] \<longrightarrow> (length ?cs - 1) * ?l + length (last ?cs) = length d"
    using filled_chunks[of ?l d] by auto
  have last: "unat (of_nat (length (last ?cs)) :: u8) = length (last ?cs)" if "d \<noteq> []"
  proof -
    have "length (last ?cs) \<le> ?l"
      using that chunks_bounds[of ?l "last ?cs" d] by simp
    then show ?thesis
      using block_size_pos(3)[of x] by (intro of_nat_unat_len) (simp del: block_size_pos)
  qed
  show ?thesis
    unfolding parse_data_read_response_def
    using parse_status_of[of NIUSB_IBRD_STATUS_ID ibsta code residue 0 0] assms len last k
    by (rule_tac read_reply_blocks[of x d ibsta code residue rest])
      (cases "d = []"; simp add: nth_append min_def Let_def)
qed

lemma refused_read_reply:
  assumes "read_status_error code = Some e"
  shows "parse_data_read_response (read_reply x d ibsta code residue rest) max_len = Inl e"
  unfolding parse_data_read_response_def
  using parse_status_of[of NIUSB_IBRD_STATUS_ID ibsta code residue 0 0] assms
  by (rule_tac read_reply_blocks[of x d ibsta code residue rest]) simp

section \<open>Timeouts\<close>

lemma floor_is_a_step:
  assumes "ms \<noteq> 0"
  shows "\<exists>w. (w, fst (timeout_code_floor ms)) \<in> set TIMEOUT_STEPS_MS \<and> snd (timeout_code_floor ms) = w \<and> w \<le> ms"
proof -
  have "1 \<le> ms"
    using assms by (simp add: word_le_nat_alt unat_gt_0 Suc_le_eq)
  then have "find (\<lambda>(w, code). w \<le> ms) TIMEOUT_STEPS_MS \<noteq> None"
    by (auto simp: find_None_iff TIMEOUT_STEPS_MS_def)
  then obtain w code where f: "find (\<lambda>(w, code). w \<le> ms) TIMEOUT_STEPS_MS = Some (w, code)"
    by auto
  then have "(w, code) \<in> set TIMEOUT_STEPS_MS" "w \<le> ms"
    by (auto simp: find_Some_iff in_set_conv_nth)
  then show ?thesis
    using f assms by (simp add: timeout_code_floor_def)
qed

lemma steps_agree: "\<forall>(w, code) \<in> set TIMEOUT_STEPS_MS. timeout_code w = code \<and> code \<noteq> 0 \<and> 0 < unat w"
  by (simp add: TIMEOUT_STEPS_MS_def timeout_code_def)

lemma floor_close:
  assumes "ms \<noteq> 0" "unat ms < 3000000"
  shows "3 * unat ms < 10 * unat (snd (timeout_code_floor ms))"
proof -
  have "0 < unat ms"
    using assms(1) by (simp add: unat_gt_0)
  then show ?thesis
    using assms by (auto simp: timeout_code_floor_def TIMEOUT_STEPS_MS_def word_le_nat_alt)
qed

section \<open>What operations leave alone\<close>

definition blind_usb :: "('u ni \<Rightarrow> 'p) \<Rightarrow> bool" where
  "blind_usb p \<longleftrightarrow> (\<forall>s u. p (s\<lparr>ni_transport := u\<rparr>) = p s)"

definition blind_cache :: "('u ni \<Rightarrow> 'p) \<Rightarrow> bool" where
  "blind_cache p \<longleftrightarrow> (\<forall>s ra. p (s\<lparr>ni_read_addressing := ra\<rparr>) = p s)"

lemma keeps_at: "(\<And>s. \<exists>m. f s = m s \<and> keeps p m) \<Longrightarrow> keeps p f"
  by (metis keeps_def)

lemma keeps_ni_usb [keep]: "blind_usb p \<Longrightarrow> keeps p (ni_usb f)"
  by (simp add: keeps_def blind_usb_def ni_usb_def split: prod.split)

lemma keeps_ni_usb_do [keep]: "blind_usb p \<Longrightarrow> keeps p (ni_usb_do f)"
  unfolding ni_usb_do_def by (intro keep) (simp add: blind_usb_def)

lemma keeps_forget [keep]: "blind_cache p \<Longrightarrow> keeps p forget_addressing"
  unfolding forget_addressing_def by (intro keep) (simp add: blind_cache_def)

lemma keeps_adapter_timeout_code [keep]: "blind_usb p \<Longrightarrow> keeps p (adapter_timeout_code tr ms)"
  by (cases "timeout_code_floor ms") (auto simp: adapter_timeout_code_def intro: keep)

lemma keeps_own_timeout_code [keep]: "blind_usb p \<Longrightarrow> keeps p (\<lambda>s. adapter_timeout_code tr (ni_timeout_ms s) s)"
  by (rule keeps_at) (blast intro: keep)

lemma keeps_register_write [keep]: "blind_usb p \<Longrightarrow> keeps p (register_write tr rs)"
  unfolding register_write_def by (intro keep) (auto split: prod.split intro: keep)

lemma keeps_register_read [keep]: "blind_usb p \<Longrightarrow> keeps p (register_read tr rs)"
  unfolding register_read_def by (intro keep)

lemma keeps_take_held_byte [keep]: "blind_usb p \<Longrightarrow> keeps p (take_held_byte tr)"
  unfolding take_held_byte_def by (intro keep)

lemma keeps_await_status_byte [keep]: "blind_usb p \<Longrightarrow> keeps p (await_status_byte tr dl n)"
  by (induction n) (auto split: option.split intro!: keep)

lemma keeps_take_status_byte [keep]: "blind_usb p \<Longrightarrow> keeps p (take_status_byte tr)"
  unfolding take_status_byte_def by (intro keep) (auto split: prod.split intro: keep)

lemma keeps_acceptor [keep]: "blind_usb p \<Longrightarrow> keeps p (ready_acceptor tr)" "blind_usb p \<Longrightarrow> keeps p (restore_acceptor tr)"
  unfolding ready_acceptor_def restore_acceptor_def by (intro keep; assumption)+

lemma keeps_write_pieces [keep]: "blind_usb p \<Longrightarrow> keeps p (write_pieces tr tc eoi ps)"
  by (induction ps) (auto intro!: keep)

lemma keeps_command_pieces [keep]: "blind_usb p \<Longrightarrow> keeps p (command_pieces tr tc ps)"
  by (induction ps) (auto intro!: keep)

lemma keeps_write_body [keep]: "blind_usb p \<Longrightarrow> keeps p (ni_write_data_body tr d eoi)"
  unfolding ni_write_data_body_def by (intro keep)

lemma keeps_read_body [keep]: "blind_usb p \<Longrightarrow> keeps p (ni_read_data_body tr n)"
  unfolding ni_read_data_body_def Let_def by (intro keep) (auto split: prod.split intro!: keep)

lemma keeps_send_bounded [keep]:
  "blind_usb p \<Longrightarrow> blind_cache p \<Longrightarrow> keeps p (send_command_bounded tr cmd sb ms)"
  unfolding send_command_bounded_def by (intro keep)

lemma keeps_send_command [keep]: "blind_usb p \<Longrightarrow> blind_cache p \<Longrightarrow> keeps p (ni_send_command tr cmd sb)"
  by (rule keeps_at) (auto simp: ni_send_command_def intro: keep)

lemma keeps_address_for_read [keep]: "blind_usb p \<Longrightarrow> blind_cache p \<Longrightarrow> keeps p (address_for_read tr pad)"
proof (rule keeps_at)
  fix s
  assume blind: "blind_usb p" "blind_cache p"
  then have c: "p (t\<lparr>ni_read_addressing := ra\<rparr>) = p t" for t ra
    by (simp add: blind_cache_def)
  show "\<exists>m. address_for_read tr pad s = m s \<and> keeps p m"
    by (rule exI[of _ "let want = \<lparr>ra_talker = (if ni_listen_only s then None else Some pad), ra_listener = ni_my_pad s\<rparr>
        in if ni_read_addressing s \<noteq> Some want
          then seq (ni_send_command tr (if ni_listen_only s then [GPIB_UNL, ni_listen_address (ni_my_pad s)]
                   else [GPIB_UNL, ni_listen_address (ni_my_pad s), ni_talk_address pad]) True)
             (modify (\<lambda>s. s\<lparr>ni_read_addressing := Some want\<rparr>))
          else ret ()"])
      (auto simp: address_for_read_def Let_def intro!: keep c blind)
qed

lemma keeps_ni_write [keep]: "blind_usb p \<Longrightarrow> blind_cache p \<Longrightarrow> keeps p (ni_write tr pad d eoi)"
  by (rule keeps_at) (auto simp: ni_write_def intro!: keep)

lemma keeps_ni_send [keep]: "blind_usb p \<Longrightarrow> keeps p (ni_send_data_unaddressed tr d eoi)"
  by (rule keeps_at) (auto simp: ni_send_data_unaddressed_def intro!: keep)

lemma keeps_ni_read [keep]: "blind_usb p \<Longrightarrow> blind_cache p \<Longrightarrow> keeps p (ni_read tr pad n)"
  unfolding ni_read_def Let_def by (intro keep keeps_at) (auto intro!: keep)

lemma ni_settings_kept [simp]:
  "(ni_eos_char (snd (ni_write tr pad d eoi b)), ni_eos_enabled (snd (ni_write tr pad d eoi b))) = (ni_eos_char b, ni_eos_enabled b)"
  "(ni_eos_char (snd (ni_send_data_unaddressed tr d eoi b)), ni_eos_enabled (snd (ni_send_data_unaddressed tr d eoi b))) =
     (ni_eos_char b, ni_eos_enabled b)"
  "(ni_eos_char (snd (ni_read tr pad n b)), ni_eos_enabled (snd (ni_read tr pad n b))) = (ni_eos_char b, ni_eos_enabled b)"
  "(ni_eos_char (snd (ni_read_data_body tr n b)), ni_eos_enabled (snd (ni_read_data_body tr n b))) = (ni_eos_char b, ni_eos_enabled b)"
  "ni_timeout_ms (snd (ni_write tr pad d eoi b)) = ni_timeout_ms b"
  "ni_timeout_ms (snd (ni_send_data_unaddressed tr d eoi b)) = ni_timeout_ms b"
  "ni_timeout_ms (snd (ni_read tr pad n b)) = ni_timeout_ms b"
  "ni_timeout_ms (snd (ni_read_data_body tr n b)) = ni_timeout_ms b"
proof -
  have "blind_usb ni_eos_char" "blind_usb ni_eos_enabled" "blind_usb ni_timeout_ms"
    "blind_cache ni_eos_char" "blind_cache ni_eos_enabled" "blind_cache ni_timeout_ms"
    by (simp_all add: blind_usb_def blind_cache_def)
  note blind = this
  show "(ni_eos_char (snd (ni_write tr pad d eoi b)), ni_eos_enabled (snd (ni_write tr pad d eoi b))) = (ni_eos_char b, ni_eos_enabled b)"
    "(ni_eos_char (snd (ni_send_data_unaddressed tr d eoi b)), ni_eos_enabled (snd (ni_send_data_unaddressed tr d eoi b))) =
     (ni_eos_char b, ni_eos_enabled b)"
    "(ni_eos_char (snd (ni_read tr pad n b)), ni_eos_enabled (snd (ni_read tr pad n b))) = (ni_eos_char b, ni_eos_enabled b)"
    "(ni_eos_char (snd (ni_read_data_body tr n b)), ni_eos_enabled (snd (ni_read_data_body tr n b))) = (ni_eos_char b, ni_eos_enabled b)"
    "ni_timeout_ms (snd (ni_write tr pad d eoi b)) = ni_timeout_ms b"
    "ni_timeout_ms (snd (ni_send_data_unaddressed tr d eoi b)) = ni_timeout_ms b"
    "ni_timeout_ms (snd (ni_read tr pad n b)) = ni_timeout_ms b"
    "ni_timeout_ms (snd (ni_read_data_body tr n b)) = ni_timeout_ms b"
    by (simp_all add: keepsD[OF keeps_ni_write] keepsD[OF keeps_ni_send] keepsD[OF keeps_ni_read]
        keepsD[OF keeps_read_body] blind)
qed

interpretation ni_backend: gpib_backend "ni_ops tr" ni_timeout_ms for tr
  by unfold_locales (simp_all add: ni_ops_def ni_set_timeout_def)

section \<open>Properties\<close>

text \<open>C27. Whatever the adapter read from the bus comes out of its reply: for data of any length, sent in
  standard or in extended blocks with the last block filled up, with any residual count, any status bits and any
  trailing bytes, the decoder returns the data (cut to the length that was asked for) and whether the end was
  seen, provided the adapter reports success, an abort or its own timeout; for every other error code the reply is
  an error.\<close>

theorem ni_reply_decodes:
  "parse_data_read_response (read_reply extended d ibsta code residue rest) max_len =
     (if code \<in> {NIUSB_NO_ERROR, NIUSB_ABORTED_ERROR, NIUSB_TIMEOUT_ERROR} then Inr (take max_len d, has_flag ibsta IBSTA_END)
      else Inl (the (read_status_error code)))"
proof (cases "read_status_error code")
  case None
  then show ?thesis
    by (auto simp: parse_read_reply read_status_error_def split: if_splits)
next
  case (Some e)
  then have "code \<notin> {NIUSB_NO_ERROR, NIUSB_ABORTED_ERROR, NIUSB_TIMEOUT_ERROR}"
    by (auto simp: read_status_error_def)
  then show ?thesis
    using refused_read_reply[OF Some] Some by simp
qed

text \<open>The adapter never waits longer than it was told to: for every timeout but zero, which means forever, the
  code the driver sends stands for a wait that is at most the timeout, is the code the adapter's own table gives
  for exactly that wait, is never the invalid code zero, and falls short by less than a factor of ten thirds up to
  the longest step.\<close>

theorem adapter_wait_fits:
  assumes "ms \<noteq> 0"
  shows "let (code, wait) = timeout_code_floor ms
    in code \<noteq> 0 \<and> timeout_code wait = code \<and> 0 < wait \<and> wait \<le> ms \<and>
       (unat ms < 3000000 \<longrightarrow> 3 * unat ms < 10 * unat wait)"
proof -
  obtain code wait where f: "timeout_code_floor ms = (code, wait)"
    by fastforce
  then have "(wait, code) \<in> set TIMEOUT_STEPS_MS" "wait \<le> ms"
    using floor_is_a_step[OF assms] by auto
  moreover from this have "timeout_code wait = code" "code \<noteq> 0" "0 < unat wait"
    using steps_agree by auto
  ultimately show ?thesis
    using floor_close[OF assms] f by (auto simp: word_less_nat_alt)
qed

theorem adapter_wait_fits_witness:
  "let (code, wait) = timeout_code_floor 5000 in code \<noteq> 0 \<and> timeout_code wait = code \<and> 0 < wait \<and> wait \<le> 5000"
  using adapter_wait_fits[of 5000] by (auto simp: Let_def)

end
