(* ===== verification/Ni_Addressing.thy ===== *)
theory Ni_Addressing
  imports Ni_Laws
begin

text \<open>
  The addressing the NI driver remembers from its last read, against the addressing of the bus that its requests
  bring about: after any sequence of operations of the backend trait the memory describes the bus, so a read that
  skips the addressing still reads from the instrument it names.
\<close>

section \<open>Requests\<close>

text \<open>A log of the requests the transport put on the pipe; an exchange that fails may or may not have sent its
  request.\<close>

definition records_requests :: "'u ni_transport \<Rightarrow> ('u \<Rightarrow> bytes list) \<Rightarrow> bool" where
  "records_requests tr lg \<longleftrightarrow>
     (\<forall>req n u. lg (snd (nt_transact tr req n u)) = lg u @ [req] \<or>
                (isl (fst (nt_transact tr req n u)) \<and> lg (snd (nt_transact tr req n u)) = lg u)) \<and>
     (\<forall>a b c n u. lg (snd (nt_control_in tr a b c n u)) = lg u) \<and>
     (\<forall>a b c n u. lg (snd (nt_control_in_interface tr a b c n u)) = lg u) \<and>
     (\<forall>u. lg (nt_rearm_srq_if_pending tr u) = lg u) \<and> (\<forall>ms u. lg (nt_set_adapter_wait tr ms u) = lg u) \<and>
     (\<forall>u. lg (nt_drain_stale_responses tr u) = lg u) \<and> (\<forall>b u. lg (snd (nt_rearm_srq tr b u)) = lg u) \<and>
     (\<forall>ms u. lg (nt_sleep tr ms u) = lg u)"

definition requests :: "('u \<Rightarrow> bytes list) \<Rightarrow> 'u ni \<Rightarrow> bytes list" where
  "requests lg s = lg (ni_transport s)"

lemma requests_usb: "requests lg (snd (ni_usb f s)) = lg (snd (f (ni_transport s)))"
  by (simp add: requests_def ni_usb_def split: prod.split)

lemma sends_exchange [sent]:
  assumes "records_requests tr lg"
  shows "sends (requests lg) (ni_exchange tr req n) [req]"
proof (rule sendsI)
  fix s r s'
  assume run: "ni_exchange tr req n s = (r, s')"
  then have "requests lg s' = lg (snd (nt_transact tr req n (ni_transport s)))" "r = fst (nt_transact tr req n (ni_transport s))"
    by (auto simp: requests_def ni_usb_def split: prod.splits)
  then show "\<exists>qs. requests lg s' = requests lg s @ qs \<and> (\<forall>x. r = Inr x \<longrightarrow> qs = [req])"
    using assms unfolding records_requests_def requests_def by (metis append_Nil2 isl_def Inr_not_Inl)
qed

text \<open>The methods of the transport that put no request on the pipe.\<close>

lemma keeps_no_request:
  assumes "records_requests tr lg"
  shows "keeps (requests lg) (ni_usb (nt_rearm_srq tr b))" "keeps (requests lg) (ni_usb_do (nt_set_adapter_wait tr ms))"
    "keeps (requests lg) (ni_usb_do (nt_rearm_srq_if_pending tr))" "keeps (requests lg) (ni_usb_do (nt_drain_stale_responses tr))"
    "keeps (requests lg) (ni_usb_do (nt_sleep tr k))"
  using assms by (simp_all add: keeps_def ni_usb_def ni_usb_do_def modify_def requests_def records_requests_def split: prod.split)
    (metis snd_conv)

lemma keeps_lift: "keeps lg m \<Longrightarrow> keeps (requests lg) (ni_usb m)"
  by (simp add: keeps_def requests_usb) (simp add: requests_def)

lemma keeps_handshakes:
  assumes "records_requests tr lg"
  shows "keeps (requests lg) (ni_usb (wait_for_ready tr))" "keeps (requests lg) (ni_usb (hs_plus_extra_init tr))"
    "keeps (requests lg) (ni_usb (set_interrupt_monitor tr bits))"
proof -
  have io: "keeps lg (nt_control_in tr a b c n)" "keeps lg (nt_control_in_interface tr a b c n)" "keeps lg (modify (nt_sleep tr ms))" for a b c n ms
    using assms by (simp_all add: keeps_def records_requests_def modify_def)
  have poll: "keeps lg (poll_ready tr k e)" for k e
    by (induction k arbitrary: e) (auto split: sum.split intro!: keeps_struct io)
  show "keeps (requests lg) (ni_usb (wait_for_ready tr))" "keeps (requests lg) (ni_usb (hs_plus_extra_init tr))"
    "keeps (requests lg) (ni_usb (set_interrupt_monitor tr bits))"
    unfolding wait_for_ready_def hs_plus_extra_init_def set_interrupt_monitor_def by (intro keeps_lift keeps_struct io poll)+
qed

lemma keeps_no_request_timeout_code: "records_requests tr lg \<Longrightarrow> keeps (requests lg) (adapter_timeout_code tr ms)"
  unfolding adapter_timeout_code_def by (cases "timeout_code_floor ms") (auto intro!: keeps_struct keeps_no_request)

lemma fst_timeout_code: "fst (adapter_timeout_code tr ms s) = Inr (fst (timeout_code_floor ms))"
  by (cases "timeout_code_floor ms") (simp add: adapter_timeout_code_def ni_usb_do_def act_defs)

section \<open>The bus behind the requests\<close>

definition ni_bus_effect :: "bytes \<Rightarrow> bus488 \<Rightarrow> bus488" where
  "ni_bus_effect p b =
     (if p = encode_interface_clear then b\<lparr>listeners := {}, talker := None\<rparr>
      else case command_request p of Some cs \<Rightarrow> command_bytes cs b | None \<Rightarrow> b)"

definition bus :: "('u \<Rightarrow> bytes list) \<Rightarrow> bus488 \<Rightarrow> 'u ni \<Rightarrow> bus488" where
  "bus lg b s = fold ni_bus_effect (requests lg s) b"

text \<open>Requests that are neither commands nor an interface clear are told by their first byte.\<close>

definition neutral :: "bytes \<Rightarrow> bool" where
  "neutral p \<longleftrightarrow> p \<noteq> [] \<and> hd p \<noteq> NIUSB_COMMAND_OP \<and> hd p \<noteq> NIUSB_IBSIC_ID"

lemma neutral_effect [simp]: "neutral p \<Longrightarrow> ni_bus_effect p b = b"
  by (auto simp: neutral_def ni_bus_effect_def command_request_def encode_interface_clear_def encode_simple_op_def
      hd_conv_nth)

lemma hd_pad_to_4: "pad_to_4 (x # xs) @ ys \<noteq> []" "hd (pad_to_4 (x # xs) @ ys) = x"
  using pad_to_4_shape[of "x # xs"] by auto

lemma neutral_requests [simp]:
  "neutral (encode_register_write rs)" "neutral (encode_register_read as)" "neutral (encode_data_write d e tc)"
  "neutral (encode_data_read n m c tc)" "neutral (encode_take_control y)" "neutral encode_go_to_standby"
  by (simp_all add: neutral_def encode_register_write_def encode_register_read_def encode_data_write_def
      encode_data_read_def encode_data_read_with_aux_def encode_take_control_def encode_go_to_standby_def
      encode_simple_op_def hd_pad_to_4 Let_def del: append_is_Nil_conv hd_append)

lemma command_effect [simp]:
  assumes "length cs < 256"
  shows "ni_bus_effect (encode_command cs tc) b = command_bytes cs b"
proof -
  have "hd (encode_command cs tc) = NIUSB_COMMAND_OP"
    by (simp add: encode_command_def hd_pad_to_4 del: append_is_Nil_conv hd_append)
  then have "encode_command cs tc \<noteq> encode_interface_clear"
    by (auto simp: encode_interface_clear_def encode_simple_op_def)
  then show ?thesis
    by (simp add: ni_bus_effect_def command_request_encode[OF assms])
qed

section \<open>Methods that leave the bus alone\<close>

named_theorems still \<open>methods that leave the addressing of the bus alone\<close>

definition leaves_bus :: "('u \<Rightarrow> bytes list) \<Rightarrow> bus488 \<Rightarrow> ('u ni, 'a) act \<Rightarrow> bool" where
  "leaves_bus lg b m \<longleftrightarrow> keeps (bus lg b) m"

lemma leaves_bus_requests: "keeps (requests lg) m \<Longrightarrow> leaves_bus lg b m"
  by (simp add: leaves_bus_def keeps_def bus_def)

lemma leaves_bus_exchange [still]: "records_requests tr lg \<Longrightarrow> neutral req \<Longrightarrow> leaves_bus lg b (ni_exchange tr req n)"
  unfolding leaves_bus_def keeps_def
proof
  fix s
  assume "records_requests tr lg" and n: "neutral req"
  then have "requests lg (snd (ni_exchange tr req n s)) = requests lg s @ [req] \<or>
      requests lg (snd (ni_exchange tr req n s)) = requests lg s"
    unfolding requests_usb unfolding requests_def records_requests_def by metis
  then show "bus lg b (snd (ni_exchange tr req n s)) = bus lg b s"
    using n by (auto simp: bus_def)
qed

lemma leaves_bus_struct [still]:
  "leaves_bus lg b (ret x)" "leaves_bus lg b (bail e)" "leaves_bus lg b (from_result r)" "leaves_bus lg b (asks f)"
  "leaves_bus lg b m \<Longrightarrow> (\<And>x. leaves_bus lg b (g x)) \<Longrightarrow> leaves_bus lg b (andthen m g)"
  "leaves_bus lg b m1 \<Longrightarrow> leaves_bus lg b k1 \<Longrightarrow> leaves_bus lg b (seq m1 k1)"
  "leaves_bus lg b m2 \<Longrightarrow> leaves_bus lg b (ignoring m2)" "leaves_bus lg b m3 \<Longrightarrow> leaves_bus lg b (attempt m3)"
  "leaves_bus lg b m4 \<Longrightarrow> leaves_bus lg b (with_context c m4)"
  "leaves_bus lg b m5 \<Longrightarrow> leaves_bus lg b k5 \<Longrightarrow> leaves_bus lg b (if p then m5 else k5)"
  unfolding leaves_bus_def by (intro keeps_struct; assumption)+

lemma leaves_bus_timeout_code [still]:
  assumes "records_requests tr lg"
  shows "leaves_bus lg b (adapter_timeout_code tr ms)" "leaves_bus lg b (\<lambda>s. adapter_timeout_code tr (ni_timeout_ms s) s)"
  using keeps_no_request_timeout_code[OF assms] by (auto simp: leaves_bus_def keeps_def bus_def)

lemma leaves_bus_register [still]:
  assumes "records_requests tr lg"
  shows "leaves_bus lg b (register_write tr rs)" "leaves_bus lg b (register_read tr as)"
  unfolding register_write_def register_read_def
  by (intro still assms neutral_requests; auto split: prod.split intro: still)+

lemma leaves_bus_pieces [still]:
  assumes "records_requests tr lg"
  shows "leaves_bus lg b (write_pieces tr tc e ps)"
  by (induction ps) (auto intro!: still assms neutral_requests)

lemma leaves_bus_bodies [still]:
  assumes "records_requests tr lg"
  shows "leaves_bus lg b (ni_write_data_body tr d e)" "leaves_bus lg b (ni_read_data_body tr n)"
  unfolding ni_write_data_body_def ni_read_data_body_def Let_def
  by (intro still assms; auto split: prod.split intro!: still assms neutral_requests)+

lemma leaves_bus_status_byte [still]:
  assumes "records_requests tr lg"
  shows "leaves_bus lg b (take_status_byte tr)"
proof -
  have "leaves_bus lg b (await_status_byte tr dl n)" for dl n
    by (induction n) (auto simp: take_held_byte_def split: option.split
        intro!: still assms leaves_bus_requests[OF keeps_no_request(5)[OF assms]])
  then show ?thesis
    unfolding take_status_byte_def by (intro still) (auto split: prod.split)
qed

section \<open>The memory of the last read\<close>

definition describes :: "read_addressing \<Rightarrow> bus488 \<Rightarrow> bool" where
  "describes ra b \<longleftrightarrow>
     listeners b = {ra_listener ra} \<and> (case ra_talker ra of None \<Rightarrow> True | Some t \<Rightarrow> talker b = Some t)"

definition remembers :: "('u \<Rightarrow> bytes list) \<Rightarrow> bus488 \<Rightarrow> 'u ni \<Rightarrow> bool" where
  "remembers lg b s \<longleftrightarrow>
     ni_my_pad s \<le> 30 \<and> (case ni_read_addressing s of None \<Rightarrow> True | Some ra \<Rightarrow> describes ra (bus lg b s))"

named_theorems safe \<open>methods that keep the memory true\<close>

definition truthful :: "('u \<Rightarrow> bytes list) \<Rightarrow> bus488 \<Rightarrow> ('u ni, 'a) act \<Rightarrow> bool" where
  "truthful lg b m \<longleftrightarrow> (\<forall>s. remembers lg b s \<longrightarrow> remembers lg b (snd (m s)))"

lemma truthful_andthen [safe]:
  "truthful lg b m \<Longrightarrow> (\<And>x. truthful lg b (g x)) \<Longrightarrow> truthful lg b (andthen m g)"
  unfolding truthful_def andthen_def by (simp split: prod.split sum.split) (metis snd_conv)

lemma truthful_seq [safe]: "truthful lg b m \<Longrightarrow> truthful lg b k \<Longrightarrow> truthful lg b (seq m k)"
  by (simp add: seq_def truthful_andthen)

lemma truthful_wrap [safe]:
  "truthful lg b m1 \<Longrightarrow> truthful lg b (with_context c m1)" "truthful lg b m2 \<Longrightarrow> truthful lg b (ignoring m2)"
  "truthful lg b m3 \<Longrightarrow> truthful lg b (attempt m3)"
  unfolding truthful_def with_context_def ignoring_def attempt_def
  by (auto split: prod.split sum.split)

lemma truthful_if [safe]: "(c \<Longrightarrow> truthful lg b m) \<Longrightarrow> (\<not> c \<Longrightarrow> truthful lg b k) \<Longrightarrow> truthful lg b (if c then m else k)"
  by simp

lemma truthful_here: "(\<And>x. remembers lg b x \<Longrightarrow> truthful lg b (g x)) \<Longrightarrow> truthful lg b (\<lambda>s. g s s)"
  by (simp add: truthful_def)

lemma truthful_at: "(\<And>s. remembers lg b s \<Longrightarrow> \<exists>m. f s = m s \<and> truthful lg b m) \<Longrightarrow> truthful lg b f"
  by (metis truthful_def)

lemma truthful_still:
  "leaves_bus lg b m \<Longrightarrow> keeps ni_my_pad m \<Longrightarrow> keeps ni_read_addressing m \<Longrightarrow> truthful lg b m"
  by (simp add: truthful_def remembers_def leaves_bus_def keeps_def split: option.split)

lemma truthful_basic [safe]:
  "truthful lg b (ret x)" "truthful lg b (bail e)" "truthful lg b (from_result r)" "truthful lg b (asks f)"
  by (intro truthful_still still keep)+

lemma blind_ni [simp]:
  "blind_usb ni_my_pad" "blind_usb ni_read_addressing" "blind_cache ni_my_pad" "blind_usb ni_timeout_ms"
  "blind_cache ni_timeout_ms" "blind_usb ni_listen_only" "blind_cache ni_listen_only" "blind_usb ni_device_address"
  "blind_cache ni_device_address" "blind_usb ni_eos_char" "blind_cache ni_eos_char" "blind_usb ni_eos_enabled"
  "blind_cache ni_eos_enabled"
  by (simp_all add: blind_usb_def blind_cache_def)

lemma truthful_parts [safe]:
  assumes "records_requests tr lg"
  shows "neutral req \<Longrightarrow> truthful lg b (ni_exchange tr req n)" "truthful lg b (register_write tr rs)"
    "truthful lg b (register_read tr as)" "truthful lg b (ni_write_data_body tr d e)"
    "truthful lg b (ni_read_data_body tr n)" "truthful lg b (take_status_byte tr)"
    "truthful lg b (adapter_timeout_code tr ms)"
  by (intro truthful_still still keep assms blind_ni; assumption)+

lemma truthful_usb [safe]:
  assumes "records_requests tr lg"
  shows "truthful lg b (ni_usb (wait_for_ready tr))" "truthful lg b (ni_usb (hs_plus_extra_init tr))"
    "truthful lg b (ni_usb (set_interrupt_monitor tr bits))" "truthful lg b (ni_usb (nt_rearm_srq tr bits))"
    "truthful lg b (ni_usb_do (nt_rearm_srq_if_pending tr))" "truthful lg b (ni_usb_do (nt_drain_stale_responses tr))"
    "truthful lg b (ni_usb_do (nt_set_adapter_wait tr ms))"
  by (intro truthful_still leaves_bus_requests keeps_handshakes keeps_no_request keep assms blind_ni)+

text \<open>Everything that asserts attention forgets first.\<close>

lemma seq_usb_do: "seq (ni_usb_do f) m s = m (s\<lparr>ni_transport := f (ni_transport s)\<rparr>)"
  by (simp add: seq_def andthen_def ni_usb_do_def modify_def)

lemma seq_forget: "seq forget_addressing m s = m (s\<lparr>ni_read_addressing := None\<rparr>)"
  by (simp add: seq_def andthen_def forget_addressing_def modify_def)

lemma forget_first: "keeps ni_read_addressing m \<Longrightarrow> ni_read_addressing (snd (seq forget_addressing m s)) = None"
  by (simp add: keeps_def seq_forget)

lemma truthful_forget [safe]:
  "keeps ni_my_pad m \<Longrightarrow> keeps ni_read_addressing m \<Longrightarrow> truthful lg b (seq forget_addressing m)"
  unfolding truthful_def
proof (intro allI impI)
  fix s
  assume "keeps ni_my_pad m" "keeps ni_read_addressing m" "remembers lg b s"
  moreover from this have "ni_my_pad (snd (seq forget_addressing m s)) = ni_my_pad s"
    by (intro keepsD keep) simp_all
  ultimately show "remembers lg b (snd (seq forget_addressing m s))"
    by (simp add: remembers_def forget_first)
qed

lemma truthful_send_bounded [safe]: "truthful lg b (send_command_bounded tr cmd sb ms)"
  unfolding send_command_bounded_def by (intro truthful_forget keep blind_ni)

lemma send_bounded_forgets: "ni_read_addressing (snd (send_command_bounded tr cmd sb ms s)) = None"
  unfolding send_command_bounded_def by (intro forget_first keep blind_ni)

lemma truthful_send_command [safe]: "truthful lg b (ni_send_command tr cmd sb)"
  unfolding ni_send_command_def[abs_def] by (rule truthful_here) (rule truthful_send_bounded)

section \<open>What command transfers send\<close>

lemma sends_pieces [sent]:
  assumes "records_requests tr lg"
  shows "sends (requests lg) (command_pieces tr tc ps) (map (\<lambda>p. encode_command p tc) ps)"
proof (induction ps)
  case (Cons p ps)
  show ?case
    unfolding command_pieces.simps list.map
    by (rule sends_andthen_eq[OF sends_exchange[OF assms] sends_seq_eq[OF sends_quiet Cons]])
      (auto intro: keeps_struct)
qed (simp add: sends_basic)

lemma sends_command:
  assumes "records_requests tr lg" "ni_send_command tr cmd sb s = (Inr (), s')" "0 < length cmd" "length cmd \<le> 16"
  shows "requests lg s' = requests lg s @ [encode_take_control True, encode_command cmd (fst (timeout_code_floor (ni_timeout_ms s)))] @
    (if sb then [encode_go_to_standby] else [])"
proof -
  let ?tc = "fst (timeout_code_floor (ni_timeout_ms s))"
  let ?fin = "if sb then seq (ni_exchange tr encode_go_to_standby OP_RESP_LEN) (ret ()) else ret ()"
  let ?rest = "\<lambda>tc. seq (ni_exchange tr (encode_take_control True) OP_RESP_LEN) (seq (command_pieces tr tc (chunks 16 cmd)) ?fin)"
  have one: "chunks 16 cmd = [cmd]"
    using assms(3,4) by (simp add: chunks_step)
  have last: "sends (requests lg) ?fin (if sb then [encode_go_to_standby] else [])"
    by (cases sb) (auto intro: sends_basic sends_seq_eq[OF sends_exchange[OF assms(1)] sends_basic(1)])
  have "sends (requests lg) (?rest ?tc) ([encode_take_control True, encode_command cmd ?tc] @ (if sb then [encode_go_to_standby] else []))"
    by (rule sends_seq_eq[OF sends_exchange[OF assms(1)] sends_seq_eq[OF sends_pieces[OF assms(1)] last]]) (auto simp: one)
  moreover obtain s1 where s1: "adapter_timeout_code tr (ni_timeout_ms s) (s\<lparr>ni_read_addressing := None\<rparr>) = (Inr ?tc, s1)"
    using fst_timeout_code[of tr "ni_timeout_ms s" "s\<lparr>ni_read_addressing := None\<rparr>"] by (metis prod.collapse)
  moreover have "requests lg s1 = requests lg s"
    using keepsD[OF keeps_no_request_timeout_code[OF assms(1)], of "ni_timeout_ms s" "s\<lparr>ni_read_addressing := None\<rparr>"] s1
    by (simp add: requests_def)
  moreover have "?rest ?tc s1 = (Inr (), s')"
    using assms(2) s1
    by (simp add: ni_send_command_def send_command_bounded_def seq_forget andthen_def[of "adapter_timeout_code _ _"] del: if_split)
  ultimately show ?thesis
    using sends_ok by fastforce
qed

lemma bus_command:
  assumes "records_requests tr lg" "ni_send_command tr cmd sb s = (Inr (), s')" "0 < length cmd" "length cmd \<le> 16"
  shows "bus lg b s' = command_bytes cmd (bus lg b s)"
  using sends_command[OF assms] assms(4) by (simp add: bus_def)

lemma ni_address_bytes:
  assumes "pad \<le> (30 :: u8)"
  shows "command_byte (ni_listen_address pad) b = b\<lparr>listeners := insert pad (listeners b)\<rparr>"
    "command_byte (ni_talk_address pad) b = b\<lparr>talker := Some pad\<rparr>"
  using address_commands[OF assms] by (simp_all add: ni_listen_address_def ni_talk_address_def)

abbreviation wanted :: "u8 \<Rightarrow> 'u ni \<Rightarrow> read_addressing" where
  "wanted pad s \<equiv> \<lparr>ra_talker = (if ni_listen_only s then None else Some pad), ra_listener = ni_my_pad s\<rparr>"

lemma address_for_read_ok:
  assumes log: "records_requests tr lg" and pad: "pad \<le> 30" and inv: "remembers lg b s"
    and run: "address_for_read tr pad s = (Inr (), s')"
  shows "ni_read_addressing s' = Some (wanted pad s) \<and> describes (wanted pad s) (bus lg b s')"
proof (cases "ni_read_addressing s = Some (wanted pad s)")
  case True
  then show ?thesis
    using run inv by (auto simp: address_for_read_def remembers_def ret_def)
next
  case False
  let ?cmd = "if ni_listen_only s then [GPIB_UNL, ni_listen_address (ni_my_pad s)]
       else [GPIB_UNL, ni_listen_address (ni_my_pad s), ni_talk_address pad]"
  obtain s1 where s1: "ni_send_command tr ?cmd True s = (Inr (), s1)" "s' = s1\<lparr>ni_read_addressing := Some (wanted pad s)\<rparr>"
    using run False by (auto simp: address_for_read_def Let_def seq_def andthen_def modify_def split: prod.splits sum.splits)
  from bus_command[OF log s1(1)] have "bus lg b s1 = command_bytes ?cmd (bus lg b s)"
    by simp
  moreover have "bus lg b s' = bus lg b s1"
    by (simp add: s1(2) bus_def requests_def)
  moreover have "ni_my_pad s \<le> 30"
    using inv by (simp add: remembers_def)
  ultimately show ?thesis
    using pad by (simp add: s1(2) describes_def ni_address_bytes)
qed

lemma truthful_address_for_read [safe]:
  assumes "records_requests tr lg" "pad \<le> 30"
  shows "truthful lg b (address_for_read tr pad)"
  unfolding truthful_def
proof (intro allI impI)
  fix s
  assume inv: "remembers lg b s"
  obtain r s' where run: "address_for_read tr pad s = (r, s')"
    by fastforce
  have pad: "ni_my_pad s' = ni_my_pad s"
    using keepsD[OF keeps_address_for_read, of ni_my_pad tr pad s] run by simp
  show "remembers lg b (snd (address_for_read tr pad s))"
  proof (cases r)
    case (Inr x)
    then show ?thesis
      using address_for_read_ok[OF assms inv] run inv pad by (simp add: remembers_def)
  next
    case (Inl e)
    then have "\<exists>cmd. ni_send_command tr cmd True s = (Inl e, s')"
      using run by (auto simp: address_for_read_def Let_def seq_def andthen_def modify_def ret_def
          split: if_splits prod.splits sum.splits)
    then have "ni_read_addressing s' = None"
      using send_bounded_forgets by (metis ni_send_command_def snd_conv)
    then show ?thesis
      using inv pad run by (simp add: remembers_def)
  qed
qed

section \<open>Every operation\<close>

lemma truthful_settings:
  "truthful lg b (modify (\<lambda>s. s\<lparr>ni_listen_only := x\<rparr>))" "truthful lg b (modify (\<lambda>s. s\<lparr>ni_device_address := y\<rparr>))"
  "truthful lg b (modify (\<lambda>s. s\<lparr>ni_device_address := y, ni_listen_only := x\<rparr>))"
  "pad \<le> 30 \<Longrightarrow> truthful lg b (modify (\<lambda>s. s\<lparr>ni_my_pad := pad, ni_read_addressing := None\<rparr>))"
  by (simp_all add: truthful_def modify_def remembers_def bus_def requests_def split: option.split)

lemma truthful_ifc_ren [safe]:
  assumes "records_requests tr lg"
  shows "truthful lg b (ni_ifc tr)" "truthful lg b (ni_ren tr x)"
  unfolding ni_ifc_def ni_ren_def by (intro truthful_forget keep blind_ni safe assms)+

lemma truthful_init [safe]:
  assumes "records_requests tr lg" "pad \<le> 30"
  shows "truthful lg b (ni_init tr pad)"
proof -
  have extra: "truthful lg b
      (\<lambda>s. if nt_product_id tr (ni_transport s) = PID_NI_USB_HS_PLUS then ni_usb (hs_plus_extra_init tr) s else ret () s)"
    by (rule truthful_at) (auto intro: safe assms)
  have regs: "truthful lg b (\<lambda>s. with_context c (register_write tr (setup_init pad (eos_mode s))) s)" for c
    by (rule truthful_at) (blast intro: safe assms)
  show ?thesis
    unfolding ni_init_def priming_write_def by (intro safe extra regs truthful_settings(4) assms neutral_requests)
qed

lemma truthful_write:
  assumes "records_requests tr lg"
  shows "truthful lg b (ni_write tr pad d e)"
  by (rule truthful_at) (auto simp: ni_write_def intro!: safe assms)

lemma truthful_send:
  assumes "records_requests tr lg"
  shows "truthful lg b (ni_send_data_unaddressed tr d e)"
  by (rule truthful_at) (auto simp: ni_send_data_unaddressed_def intro!: safe assms)

lemma truthful_read:
  assumes "records_requests tr lg" "pad \<le> 30"
  shows "truthful lg b (ni_read tr pad n)"
  unfolding ni_read_def Let_def by (intro safe assms truthful_at) (auto intro!: safe assms)

lemma truthful_poll:
  assumes "records_requests tr lg"
  shows "truthful lg b (ni_serial_poll tr pad)"
proof -
  have finish: "truthful lg b (finish_poll tr pad r)" for r
    unfolding finish_poll_def restore_acceptor_def by (intro safe assms)
  have collect: "truthful lg b (case standby of Inl e \<Rightarrow> ret (Inl e) | Inr _ \<Rightarrow> attempt (take_status_byte tr))" for standby :: "bytes io"
    by (auto split: sum.split intro!: safe assms)
  show ?thesis
    by (rule truthful_at, unfold ni_serial_poll_def ready_acceptor_def, intro exI conjI, rule refl)
      (intro safe assms finish collect neutral_requests)
qed

lemma truthful_modes:
  assumes "records_requests tr lg"
  shows "truthful lg b (ni_set_listen_only tr x)" "truthful lg b (ni_set_device_mode tr y)" "truthful lg b (ni_set_atn tr x)"
    "truthful lg b (ni_set_controller_pad tr pad)"
proof -
  have forget: "truthful lg b forget_addressing"
    by (simp add: forget_addressing_def truthful_def modify_def remembers_def)
  have enter: "truthful lg b (seq (with_context c (register_write tr rs)) (modify (\<lambda>s. s\<lparr>ni_listen_only := True\<rparr>)))" for c rs
    by (intro safe truthful_settings assms)
  have leave: "remembers lg b x \<Longrightarrow>
      truthful lg b (seq (modify (\<lambda>s. s\<lparr>ni_listen_only := False\<rparr>)) (with_context c (ni_init tr (ni_my_pad x))))" for c and x
    by (intro safe truthful_settings assms) (simp add: remembers_def)
  have again: "truthful lg b (\<lambda>s. with_context c (ni_init tr (ni_my_pad s)) s)" for c
    by (rule truthful_here) (intro safe assms, simp add: remembers_def)
  show "truthful lg b (ni_set_listen_only tr x)"
    unfolding ni_set_listen_only_def Let_def
    by (rule truthful_seq[OF forget], rule truthful_at) (auto intro: enter leave)
  show "truthful lg b (ni_set_device_mode tr y)"
    unfolding ni_set_device_mode_def
    by (rule truthful_seq[OF forget]) (auto split: option.split intro!: safe truthful_settings again assms)
  show "truthful lg b (ni_set_atn tr x)"
    unfolding ni_set_atn_def by (intro truthful_forget keep blind_ni)
  show "truthful lg b (ni_set_controller_pad tr pad)"
    unfolding ni_set_controller_pad_def by (auto intro!: safe truthful_settings assms simp: not_less)
qed

section \<open>Runs\<close>

text \<open>What the front-ends do with an adapter: any operation of the trait, with instrument addresses up to 30; and
  what happens besides: the task on the interrupt endpoint changes the transport without a request.\<close>

inductive ni_step :: "'u ni_transport \<Rightarrow> ('u \<Rightarrow> bytes list) \<Rightarrow> 'u ni \<Rightarrow> 'u ni \<Rightarrow> bool" for tr lg where
  init: "pad \<le> 30 \<Longrightarrow> ni_step tr lg s (snd (ni_init tr pad s))"
| wr: "ni_step tr lg s (snd (op_write (ni_ops tr) pad d e s))"
| rd: "pad \<le> 30 \<Longrightarrow> ni_step tr lg s (snd (op_read (ni_ops tr) pad n s))"
| device_clear: "ni_step tr lg s (snd (op_device_clear (ni_ops tr) pad s))"
| trigger: "ni_step tr lg s (snd (op_trigger (ni_ops tr) pad s))"
| ifc: "ni_step tr lg s (snd (op_ifc (ni_ops tr) s))"
| ren: "ni_step tr lg s (snd (op_ren (ni_ops tr) x s))"
| go_to_remote: "ni_step tr lg s (snd (op_go_to_remote (ni_ops tr) pad s))"
| go_to_local: "ni_step tr lg s (snd (op_go_to_local (ni_ops tr) pad s))"
| local_lockout: "ni_step tr lg s (snd (op_local_lockout (ni_ops tr) s))"
| serial_poll: "ni_step tr lg s (snd (op_serial_poll (ni_ops tr) pad s))"
| bus_lines: "ni_step tr lg s (snd (op_bus_lines (ni_ops tr) s))"
| srq_asserted: "ni_step tr lg s (snd (op_srq_asserted (ni_ops tr) s))"
| set_listen_only: "ni_step tr lg s (snd (op_set_listen_only (ni_ops tr) x s))"
| set_device_mode: "ni_step tr lg s (snd (op_set_device_mode (ni_ops tr) y s))"
| send_bus_command: "ni_step tr lg s (snd (op_send_bus_command (ni_ops tr) cmds s))"
| set_atn: "ni_step tr lg s (snd (op_set_atn (ni_ops tr) x s))"
| set_controller_pad: "ni_step tr lg s (snd (op_set_controller_pad (ni_ops tr) pad s))"
| send_data: "ni_step tr lg s (snd (op_send_data_unaddressed (ni_ops tr) d e s))"
| read_data: "ni_step tr lg s (snd (op_read_unaddressed (ni_ops tr) n s))"
| set_eos: "ni_step tr lg s (op_set_eos (ni_ops tr) ch x s)"
| set_timeout: "ni_step tr lg s (op_set_timeout (ni_ops tr) ms s)"
| interrupt: "lg u = lg (ni_transport s) \<Longrightarrow> ni_step tr lg s (s\<lparr>ni_transport := u\<rparr>)"

lemma truthful_rest:
  assumes "records_requests tr lg"
  shows "truthful lg b (ni_device_clear tr pad)" "truthful lg b (ni_trigger tr pad)" "truthful lg b (ni_go_to_local tr pad)"
    "truthful lg b (ni_go_to_remote tr pad)" "truthful lg b (ni_local_lockout tr)"
    "truthful lg b (ni_bus_lines tr)" "truthful lg b (ni_srq_asserted tr)"
proof -
  have lines: "truthful lg b (ni_bus_lines tr)"
    unfolding ni_bus_lines_def by (intro safe assms) (auto split: list.split intro: safe)
  then show "truthful lg b (ni_srq_asserted tr)" "truthful lg b (ni_bus_lines tr)"
    unfolding ni_srq_asserted_def by (auto intro: safe)
qed (simp_all add: ni_device_clear_def ni_trigger_def ni_go_to_local_def ni_go_to_remote_def ni_local_lockout_def
    safe assms)

lemma remembers_step:
  assumes log: "records_requests tr lg" and "ni_step tr lg s s'" "remembers lg b s"
  shows "remembers lg b s'"
  using assms(2,3)
proof (cases rule: ni_step.cases)
  case (set_eos ch x)
  then show ?thesis
    using assms(3) by (simp add: ni_ops_def remembers_def bus_def requests_def split: option.splits)
next
  case (set_timeout ms)
  then show ?thesis
    using assms(3) log by (simp add: ni_ops_def ni_set_timeout_def remembers_def bus_def requests_def records_requests_def split: option.splits)
next
  case (interrupt u)
  then show ?thesis
    using assms(3) by (simp add: remembers_def bus_def requests_def split: option.splits)
qed (use assms(3) truthful_init[OF log] truthful_write[OF log] truthful_read[OF log] truthful_rest[OF log] truthful_ifc_ren[OF log]
      truthful_poll[OF log] truthful_modes[OF log] truthful_send[OF log] truthful_parts(5)[OF log]
      truthful_send_command[of lg b tr _ True]
    in \<open>auto simp: ni_ops_def truthful_def\<close>)

lemma remembers_run:
  assumes "records_requests tr lg" "(ni_step tr lg)\<^sup>*\<^sup>* (new_ni u ms) s"
  shows "remembers lg b s"
  using assms(2)
proof induction
  case base
  then show ?case
    by (simp add: remembers_def new_ni_def)
next
  case (step s s')
  then show ?case
    using remembers_step[OF assms(1)] by blast
qed

section \<open>Reads and writes\<close>

lemma sends_read_body:
  assumes log: "records_requests tr lg" and run: "ni_read_data_body tr n s = (Inr x, s')"
  shows "\<exists>q. requests lg s' = requests lg s @ [q] \<and> hd q = NIUSB_DATA_READ_OP"
proof -
  let ?n = "min n MAX_TRANSFER_LEN" and ?tc = "fst (timeout_code_floor (ni_timeout_ms s))"
  let ?q = "encode_data_read ?n (eos_mode s) (ni_eos_char s) ?tc"
  let ?m = "andthen (ni_exchange tr ?q ((?n div 30 + 1) * 0x20 + 0x20))
     (\<lambda>resp. with_context (lit ''ni data read'') (from_result (parse_data_read_response resp ?n)))"
  obtain s1 where s1: "adapter_timeout_code tr (ni_timeout_ms s) s = (Inr ?tc, s1)"
    using fst_timeout_code[of tr "ni_timeout_ms s" s] by (metis prod.collapse)
  then have "?m s1 = (Inr x, s')"
    using run by (simp add: ni_read_data_body_def Let_def andthen_def[of "asks _"] asks_def
        andthen_def[of "\<lambda>s. adapter_timeout_code tr (ni_timeout_ms s) s"])
  moreover have "sends (requests lg) ?m [?q]"
    by (rule sends_andthen_eq[OF sends_exchange[OF log] sends_quiet]) (auto intro: keeps_struct)
  moreover have "requests lg s1 = requests lg s"
    using keepsD[OF keeps_no_request_timeout_code[OF log], of "ni_timeout_ms s" s] s1 by simp
  ultimately have "requests lg s' = requests lg s @ [?q]"
    using sends_ok by fastforce
  moreover have "hd ?q = NIUSB_DATA_READ_OP"
    by (simp add: encode_data_read_def encode_data_read_with_aux_def hd_pad_to_4 Let_def del: append_is_Nil_conv hd_append)
  ultimately show ?thesis
    by blast
qed

lemma ni_read_parts:
  assumes log: "records_requests tr lg" and run: "ni_read tr pad n s = (Inr x, s1)" and mode: "ni_device_address s = None"
  obtains s0 s' where "s0 = s\<lparr>ni_transport := nt_rearm_srq_if_pending tr (ni_transport s)\<rparr>" "requests lg s0 = requests lg s"
    "address_for_read tr pad s0 = (Inr (), s')" "ni_read_data_body tr (min n MAX_TRANSFER_LEN) s' = (Inr x, s1)"
proof -
  let ?s0 = "s\<lparr>ni_transport := nt_rearm_srq_if_pending tr (ni_transport s)\<rparr>"
  have "seq (address_for_read tr pad) (ni_read_data_body tr (min n MAX_TRANSFER_LEN)) ?s0 = (Inr x, s1)"
    using run mode by (simp add: ni_read_def Let_def seq_usb_do)
  then obtain s' where "address_for_read tr pad ?s0 = (Inr (), s')" "ni_read_data_body tr (min n MAX_TRANSFER_LEN) s' = (Inr x, s1)"
    by (auto simp: seq_def andthen_def split: prod.splits sum.splits)
  moreover have "requests lg ?s0 = requests lg s"
    using log by (simp add: requests_def records_requests_def)
  ultimately show ?thesis
    using that by blast
qed

lemma bus_read_body: "records_requests tr lg \<Longrightarrow> ni_read_data_body tr n s = (r, s') \<Longrightarrow> bus lg b s' = bus lg b s"
  using leaves_bus_bodies(2)[of tr lg b n] keepsD[of "bus lg b" "ni_read_data_body tr n" s] by (simp add: leaves_bus_def)

lemma address_for_read_sends:
  assumes "records_requests tr lg" "address_for_read tr pad s = (Inr (), s')"
  shows "\<exists>ps. requests lg s' = requests lg s @ ps \<and> (ni_read_addressing s = Some (wanted pad s) \<longrightarrow> ps = [])"
proof (cases "ni_read_addressing s = Some (wanted pad s)")
  case True
  then show ?thesis
    using assms(2) by (simp add: address_for_read_def ret_def)
next
  case False
  then obtain cmd s1 where "ni_send_command tr cmd True s = (Inr (), s1)" "0 < length cmd" "length cmd \<le> 16"
    "requests lg s' = requests lg s1"
    using assms(2) by (auto simp: address_for_read_def Let_def seq_def andthen_def modify_def requests_def
        split: prod.splits sum.splits if_splits)
  then show ?thesis
    using sends_command[OF assms(1)] False by auto
qed

lemma ni_read_addresses:
  assumes log: "records_requests tr lg" and inv: "remembers lg b s" and pad: "pad \<le> 30"
    and run: "ni_read tr pad n s = (Inr x, s1)" and mode: "ni_device_address s = None"
  shows "describes (wanted pad s) (bus lg b s1) \<and> ni_read_addressing s1 = Some (wanted pad s) \<and> wanted pad s1 = wanted pad s \<and>
    (\<exists>ps q. requests lg s1 = requests lg s @ ps @ [q] \<and> hd q = NIUSB_DATA_READ_OP \<and>
       (ni_read_addressing s = Some (wanted pad s) \<longrightarrow> ps = []))"
proof -
  obtain s0 s' where s0: "s0 = s\<lparr>ni_transport := nt_rearm_srq_if_pending tr (ni_transport s)\<rparr>" "requests lg s0 = requests lg s"
    and a: "address_for_read tr pad s0 = (Inr (), s')" and r: "ni_read_data_body tr (min n MAX_TRANSFER_LEN) s' = (Inr x, s1)"
    using ni_read_parts[OF log run mode] by blast
  have "remembers lg b s0"
    using inv s0(2) by (simp add: s0(1) remembers_def bus_def split: option.splits)
  from address_for_read_ok[OF log pad this a]
  have good: "ni_read_addressing s' = Some (wanted pad s)" "describes (wanted pad s) (bus lg b s')"
    by (simp_all add: s0(1))
  have same: "ni_read_addressing s1 = ni_read_addressing s'" "wanted pad s1 = wanted pad s"
    using keepsD[OF keeps_read_body, of ni_read_addressing tr _ s'] keepsD[OF keeps_read_body, of ni_my_pad tr _ s']
      keepsD[OF keeps_read_body, of ni_listen_only tr _ s'] keepsD[OF keeps_address_for_read, of ni_my_pad tr pad s0]
      keepsD[OF keeps_address_for_read, of ni_listen_only tr pad s0] a r s0(1)
    by (simp_all) (metis snd_conv)+
  obtain ps where "requests lg s' = requests lg s @ ps" "ni_read_addressing s = Some (wanted pad s) \<longrightarrow> ps = []"
    using address_for_read_sends[OF log a] s0 by auto
  moreover obtain q where "requests lg s1 = requests lg s' @ [q]" "hd q = NIUSB_DATA_READ_OP"
    using sends_read_body[OF log r] by blast
  ultimately show ?thesis
    using good same bus_read_body[OF log r] by auto
qed

fun data_writes :: "u8 \<Rightarrow> bool \<Rightarrow> bytes list \<Rightarrow> bytes list" where
  "data_writes tc e [] = []"
| "data_writes tc e (p # ps) = encode_data_write p (e \<and> ps = []) tc # data_writes tc e ps"

lemma sends_write_pieces:
  assumes "records_requests tr lg"
  shows "sends (requests lg) (write_pieces tr tc e ps) (data_writes tc e ps)"
proof (induction ps)
  case (Cons p ps)
  have rest: "sends (requests lg) (andthen (with_context c (from_result (parse_write_response resp n))) (\<lambda>written.
       if written \<noteq> n then bail (k written) else write_pieces tr tc e ps)) (data_writes tc e ps)" for c resp n k
    by (rule sends_andthen_eq[OF sends_quiet sends_if]) (auto intro: keeps_struct Cons sends_bail)
  show ?case
    unfolding write_pieces.simps data_writes.simps
    by (rule sends_andthen_eq[OF sends_exchange[OF assms] rest]) simp
qed (simp add: sends_basic)

lemma data_writes_decode:
  "\<forall>p \<in> set ps. length p \<le> MAX_TRANSFER_LEN \<Longrightarrow> ps \<noteq> [] \<Longrightarrow>
   map data_request (data_writes tc e ps) = map Some (zip (replicate (length ps - 1) False @ [e]) ps)"
proof (induction ps)
  case (Cons p ps)
  show ?case
  proof (cases ps)
    case Nil
    then show ?thesis
      using Cons.prems by (simp add: data_request_encode)
  next
    case (Cons q qs)
    then show ?thesis
      using Cons.IH Cons.prems by (simp add: data_request_encode)
  qed
qed simp

lemma ni_write_sends:
  assumes log: "records_requests tr lg" and run: "ni_write tr pad d e s = (Inr (), s')"
  obtains cs where "requests lg s' = requests lg s @ cs @ data_writes (fst (timeout_code_floor (ni_timeout_ms s))) e
        (if d = [] then [[]] else chunks MAX_TRANSFER_LEN d)"
    "fold ni_bus_effect cs b = command_bytes [GPIB_UNL, ni_talk_address (ni_my_pad s), ni_listen_address pad] b"
proof -
  let ?s0 = "s\<lparr>ni_transport := nt_rearm_srq_if_pending tr (ni_transport s)\<rparr>"
  let ?cmd = "[GPIB_UNL, ni_talk_address (ni_my_pad s), ni_listen_address pad]"
  let ?tc = "fst (timeout_code_floor (ni_timeout_ms s))"
  have "seq (ni_send_command tr ?cmd True) (ni_write_data_body tr d e) ?s0 = (Inr (), s')"
    using run by (auto simp: ni_write_def seq_usb_do bail_def split: if_splits)
  then obtain s1 where s1: "ni_send_command tr ?cmd True ?s0 = (Inr (), s1)" "ni_write_data_body tr d e s1 = (Inr (), s')"
    by (auto simp: seq_def andthen_def split: prod.splits sum.splits)
  have ms: "ni_timeout_ms s1 = ni_timeout_ms s"
    using keepsD[OF keeps_send_command, of ni_timeout_ms tr ?cmd True ?s0] s1(1) by simp
  obtain s2 where s2: "adapter_timeout_code tr (ni_timeout_ms s1) s1 = (Inr ?tc, s2)"
    using fst_timeout_code[of tr "ni_timeout_ms s1" s1] ms by (metis prod.collapse)
  then have "write_pieces tr ?tc e (if d = [] then [[]] else chunks MAX_TRANSFER_LEN d) s2 = (Inr (), s')"
    using s1(2) by (simp add: ni_write_data_body_def andthen_def[of "\<lambda>s. adapter_timeout_code tr (ni_timeout_ms s) s"] del: if_split)
  from sends_ok[OF sends_write_pieces[OF log] this]
  have "requests lg s' = requests lg s2 @ data_writes ?tc e (if d = [] then [[]] else chunks MAX_TRANSFER_LEN d)" .
  moreover have "requests lg s2 = requests lg s1"
    using keepsD[OF keeps_no_request_timeout_code[OF log], of "ni_timeout_ms s1" s1] s2 by simp
  moreover have "requests lg s1 = requests lg s @ [encode_take_control True, encode_command ?cmd ?tc, encode_go_to_standby]"
    using sends_command[OF log s1(1)] log by (simp add: requests_def records_requests_def)
  ultimately show ?thesis
    by (intro that[of "[encode_take_control True, encode_command ?cmd ?tc, encode_go_to_standby]"]) simp_all
qed

section \<open>Serial polls\<close>

lemma bus_leaves: "leaves_bus lg b m \<Longrightarrow> m s = (r, s') \<Longrightarrow> bus lg b s' = bus lg b s"
  using keepsD[of "bus lg b" m s] by (simp add: leaves_bus_def)

lemma finish_poll_restores:
  assumes log: "records_requests tr lg" and run: "finish_poll tr pad polled s = (Inr stb, s')"
  shows "\<not> polling (bus lg b s') \<and> talker (bus lg b s') = None"
proof -
  obtain r1 s1 where s1: "restore_acceptor tr s = (r1, s1)"
    by fastforce
  obtain r2 s2 where s2: "ni_send_command tr [GPIB_SPD, GPIB_UNT] False s1 = (r2, s2)"
    by fastforce
  have "r2 = Inr ()" and s': "s' = snd (ni_usb (nt_rearm_srq tr IBSTA_SRQI) s2)"
    using run s1 s2 by (auto simp: finish_poll_def act_defs split: sum.splits)
  then have "bus lg b s2 = command_bytes [GPIB_SPD, GPIB_UNT] (bus lg b s1)"
    using bus_command[OF log] s2 by simp
  moreover have "bus lg b s' = bus lg b s2"
    using leaves_bus_requests[OF keeps_no_request(1)[OF log]] s' by (metis bus_leaves prod.collapse)
  ultimately show ?thesis
    by simp
qed

section \<open>A transport that answers from a script\<close>

text \<open>The transport of the driver's unit tests: it records what it is given and answers from a queue.\<close>

record ni_mock =
  nm_sent :: "bytes list"
  nm_replies :: "bytes list"
  nm_clock :: nat

definition ni_mock :: "ni_mock ni_transport" where
  "ni_mock =
     \<lparr>nt_transact = \<lambda>req n u. (case nm_replies u of
          [] \<Rightarrow> (Inl (lit ''no response queued''), u\<lparr>nm_sent := nm_sent u @ [req]\<rparr>)
        | r # rs \<Rightarrow> (Inr r, u\<lparr>nm_sent := nm_sent u @ [req], nm_replies := rs\<rparr>)),
      nt_control_in = \<lambda>req v idx n u. (Inr (replicate 8 1), u),
      nt_control_in_interface = \<lambda>req v idx n u. (Inr (replicate 8 1), u),
      nt_product_id = \<lambda>u. 0x709b, nt_rearm_srq_if_pending = \<lambda>u. u, nt_set_adapter_wait = \<lambda>ms u. u,
      nt_can_srq = \<lambda>u. False, nt_drain_stale_responses = \<lambda>u. u, nt_rearm_srq = \<lambda>b u. (Inr (), u),
      nt_now = nm_clock, nt_sleep = \<lambda>ms u. u\<lparr>nm_clock := nm_clock u + ms\<rparr>\<rparr>"

lemma ni_mock_records: "records_requests ni_mock nm_sent"
  by (simp add: records_requests_def ni_mock_def split: list.split)

definition op_done :: "u8 \<Rightarrow> bytes" where
  "op_done op = op # replicate 7 0 @ termination_block"

definition ni_mocked :: "bytes list \<Rightarrow> ni_mock ni" where
  "ni_mocked replies = new_ni \<lparr>nm_sent = [], nm_replies = replies, nm_clock = 0\<rparr> 3000"

section \<open>Properties\<close>

text \<open>C8. The driver never reads from the wrong instrument, although it skips the addressing when it believes the
  bus is still addressed from the last read: start it on any transport, let any operations of the backend trait
  run in any order, successful or not, with service requests arriving in between, on a bus that was left in any
  state; then a read in controller mode that succeeds has the named instrument as the talker and the controller as
  the only listener when its transfer request goes out. And reading on from the same instrument sends nothing
  but the transfer request: no command byte, which would cost the byte the instrument is holding.\<close>

theorem ni_reads_from_the_instrument:
  assumes "records_requests tr lg" "(ni_step tr lg)\<^sup>*\<^sup>* (new_ni u ms) s" "pad \<le> 30"
    and "\<not> ni_listen_only s" "ni_device_address s = None" "ni_read tr pad n s = (Inr x, s1)"
  shows "talker (bus lg b s1) = Some pad \<and> listeners (bus lg b s1) = {ni_my_pad s} \<and>
    (\<exists>ps q. requests lg s1 = requests lg s @ ps @ [q] \<and> hd q = NIUSB_DATA_READ_OP) \<and>
    (ni_read tr pad m s1 = (Inr y, s2) \<longrightarrow> (\<exists>q. requests lg s2 = requests lg s1 @ [q] \<and> hd q = NIUSB_DATA_READ_OP))"
proof -
  have first: "describes (wanted pad s) (bus lg b s1)" "ni_read_addressing s1 = Some (wanted pad s)" "wanted pad s1 = wanted pad s"
    "\<exists>ps q. requests lg s1 = requests lg s @ ps @ [q] \<and> hd q = NIUSB_DATA_READ_OP"
    using ni_read_addresses[OF assms(1) remembers_run[OF assms(1,2)] assms(3,6,5)] by blast+
  have "remembers lg b s1"
    using truthful_read[OF assms(1,3), of b n] remembers_run[OF assms(1,2)] assms(6) by (metis truthful_def snd_conv)
  moreover have "ni_device_address s1 = None"
    using keepsD[OF keeps_ni_read, of ni_device_address tr pad n s] assms(5,6) by simp
  ultimately have "\<exists>q. requests lg s2 = requests lg s1 @ [q] \<and> hd q = NIUSB_DATA_READ_OP" if "ni_read tr pad m s1 = (Inr y, s2)"
    using ni_read_addresses[OF assms(1) _ assms(3) that, of b] first(2,3) by auto
  then show ?thesis
    using first(1,4) assms(4) by (simp add: describes_def)
qed

theorem ni_reads_from_the_instrument_witness:
  "\<exists>x s1. ni_read ni_mock 5 100 (ni_mocked [op_done 1, op_done 0x0c, op_done 6, read_reply False [0x41] 0x2000 0 0 []]) = (Inr x, s1) \<and>
     talker (bus nm_sent \<lparr>listeners = {7}, talker = Some 9, polling = False\<rparr> s1) = Some 5"
proof -
  let ?s = "ni_mocked [op_done 1, op_done 0x0c, op_done 6, read_reply False [0x41] 0x2000 0 0 []]"
  have "fst (ni_read ni_mock 5 100 ?s) = Inr ([0x41], True)"
    by code_simp
  then obtain s1 where "ni_read ni_mock 5 100 ?s = (Inr ([0x41], True), s1)"
    by (metis prod.collapse)
  then show ?thesis
    using ni_reads_from_the_instrument[OF ni_mock_records rtranclp.rtrancl_refl, of 5
        "\<lparr>nm_sent = [], nm_replies = [op_done 1, op_done 0x0c, op_done 6, read_reply False [0x41] 0x2000 0 0 []], nm_clock = 0\<rparr>"
        3000 100 "([0x41], True)" s1 "\<lparr>listeners = {7}, talker = Some 9, polling = False\<rparr>"]
    by (auto simp: ni_mocked_def new_ni_def)
qed

text \<open>C11. A write that succeeds put all of its data on the bus, once and in order, however long it is: the
  requests it sent are an addressing after which the instrument is the only listener and the controller the talker,
  whatever the bus was left like, and data transfers of at most 65535 bytes each, which is what the adapter can
  count, whose contents joined are the data; EOI is asked for with the last of them exactly when the caller asked,
  and with no other.\<close>

theorem ni_write_delivers:
  assumes "records_requests tr lg" "pad \<le> 30" "ni_my_pad s \<le> 30" "ni_write tr pad d e s = (Inr (), s')"
  shows "\<exists>cs ws ds. requests lg s' = requests lg s @ cs @ ws \<and>
    listeners (fold ni_bus_effect cs b) = {pad} \<and> talker (fold ni_bus_effect cs b) = Some (ni_my_pad s) \<and>
    map data_request ws = map Some (zip (replicate (length ds - 1) False @ [e]) ds) \<and>
    concat ds = d \<and> (\<forall>p \<in> set ds. length p \<le> MAX_TRANSFER_LEN)"
proof -
  let ?ds = "if d = [] then [[]] else chunks MAX_TRANSFER_LEN d" and ?tc = "fst (timeout_code_floor (ni_timeout_ms s))"
  obtain cs where cs: "requests lg s' = requests lg s @ cs @ data_writes ?tc e ?ds"
    "fold ni_bus_effect cs b = command_bytes [GPIB_UNL, ni_talk_address (ni_my_pad s), ni_listen_address pad] b"
    using ni_write_sends[OF assms(1,4)] by blast
  have small: "\<forall>p \<in> set ?ds. length p \<le> MAX_TRANSFER_LEN"
    using chunks_bounds[of MAX_TRANSFER_LEN _ d] by auto
  have "?ds \<noteq> []" "concat ?ds = d"
    by (simp_all add: concat_chunks)
  with data_writes_decode[OF small] small cs show ?thesis
    using assms(2,3) by (intro exI[of _ cs] exI[of _ "data_writes ?tc e ?ds"] exI[of _ ?ds])
      (simp add: ni_address_bytes del: if_split)
qed

theorem ni_write_delivers_witness:
  "\<exists>s' cs ws ds. ni_write ni_mock 5 [0x2A, 0x49] True (ni_mocked [op_done 1, op_done 0x0c, op_done 6, op_done 0x0d]) = (Inr (), s') \<and>
     requests nm_sent s' = cs @ ws \<and> listeners (fold ni_bus_effect cs \<lparr>listeners = {7, 9}, talker = None, polling = False\<rparr>) = {5} \<and>
     map data_request ws = map Some (zip (replicate (length ds - 1) False @ [True]) ds) \<and> concat ds = [0x2A, 0x49]"
proof -
  let ?s = "ni_mocked [op_done 1, op_done 0x0c, op_done 6, op_done 0x0d]"
  have "fst (ni_write ni_mock 5 [0x2A, 0x49] True ?s) = Inr ()"
    by code_simp
  then obtain s' where s': "ni_write ni_mock 5 [0x2A, 0x49] True ?s = (Inr (), s')"
    by (metis prod.collapse)
  moreover have "requests nm_sent ?s = []" "ni_my_pad ?s = 0"
    by (simp_all add: requests_def ni_mocked_def new_ni_def)
  ultimately show ?thesis
    using ni_write_delivers[OF ni_mock_records, of 5 ?s "[0x2A, 0x49]" True s' "\<lparr>listeners = {7, 9}, talker = None, polling = False\<rparr>"]
    by auto
qed

text \<open>A serial poll that returns a status byte has taken the bus out of serial-poll mode and left nobody
  talking. But one that fails while the acceptor is being readied, after the serial-poll enable went out, returns at
  once: the bus stays in serial-poll mode with the instrument addressed to talk, where no instrument answers
  anything, which the operation's documentation says an early return would do and promises against.\<close>

theorem ni_serial_poll_modes:
  assumes "records_requests tr lg" "pad \<le> 30" "ni_my_pad s \<le> 30"
  shows "(ni_serial_poll tr pad s = (Inr stb, s') \<longrightarrow> \<not> polling (bus lg b s') \<and> talker (bus lg b s') = None) \<and>
    (ni_send_command tr [GPIB_UNL, GPIB_SPE, ni_talk_address pad, ni_listen_address (ni_my_pad s)] False s = (Inr (), s1) \<and>
     ready_acceptor tr s1 = (Inl e, s2) \<longrightarrow>
     ni_serial_poll tr pad s = (Inl e, s2) \<and> polling (bus lg b s2) \<and> talker (bus lg b s2) = Some pad)"
proof (intro conjI impI)
  assume "ni_serial_poll tr pad s = (Inr stb, s')"
  then obtain polled s3 where "finish_poll tr pad polled s3 = (Inr stb, s')"
    unfolding ni_serial_poll_def seq_def andthen_def by (auto split: prod.splits sum.splits)
  from finish_poll_restores[OF assms(1) this] show "\<not> polling (bus lg b s')" "talker (bus lg b s') = None"
    by auto
next
  let ?cmd = "[GPIB_UNL, GPIB_SPE, ni_talk_address pad, ni_listen_address (ni_my_pad s)]"
  assume early: "ni_send_command tr ?cmd False s = (Inr (), s1) \<and> ready_acceptor tr s1 = (Inl e, s2)"
  then show "ni_serial_poll tr pad s = (Inl e, s2)"
    by (simp add: ni_serial_poll_def seq_def andthen_def)
  have "bus lg b s1 = command_bytes ?cmd (bus lg b s)"
    using early by (intro bus_command[OF assms(1)]) auto
  moreover have "bus lg b s2 = bus lg b s1"
    using bus_leaves[of lg b "ready_acceptor tr"] early by (simp add: ready_acceptor_def still assms)
  ultimately show "polling (bus lg b s2)" "talker (bus lg b s2) = Some pad"
    using assms(2,3) by (simp_all add: ni_address_bytes)
qed

theorem ni_serial_poll_modes_witness:
  "\<exists>e s2. ni_serial_poll ni_mock 5 (ni_mocked [op_done 1, op_done 0x0c]) = (Inl e, s2) \<and>
     polling (bus nm_sent \<lparr>listeners = {}, talker = None, polling = False\<rparr> s2)"
proof -
  let ?s = "ni_mocked [op_done 1, op_done 0x0c]"
  let ?c = "ni_send_command ni_mock [GPIB_UNL, GPIB_SPE, ni_talk_address 5, ni_listen_address (ni_my_pad ?s)] False ?s"
  have "fst ?c = Inr ()" "isl (fst (ready_acceptor ni_mock (snd ?c)))"
    by code_simp+
  then obtain s1 e s2 where "?c = (Inr (), s1)" "ready_acceptor ni_mock s1 = (Inl e, s2)"
    by (metis isl_def prod.collapse)
  moreover have "ni_my_pad ?s \<le> 30"
    by (simp add: ni_mocked_def new_ni_def)
  ultimately show ?thesis
    using ni_serial_poll_modes[OF ni_mock_records, of 5 ?s undefined undefined "\<lparr>listeners = {}, talker = None, polling = False\<rparr>" s1 e s2]
    by auto
qed

end
