(* ===== verification/Ni_Transport_Laws.thy ===== *)
theory Ni_Transport_Laws
  imports Ni_Transport Ni_Addressing "HOL-Library.Sublist"
begin

text \<open>
  The NI transport against what the driver relies on: requests go out once and in order, a reply that is handed
  over answers the request it is handed over for, replies to earlier requests are skipped, and an exchange that
  did not complete is marked until the next one has drained what it left behind.
\<close>

lemma seq_modify: "seq (modify f) m s = m (f s)"
  by (simp add: seq_def andthen_def modify_def)

lemma seq_run: "m s = (Inr x, s') \<Longrightarrow> seq m k s = k s'" "m s = (Inl e, s') \<Longrightarrow> seq m k s = (Inl e, s')"
  by (simp_all add: seq_def andthen_def)

section \<open>The log of requests\<close>

text \<open>What goes out on the bulk-out endpoint is what was submitted there.\<close>

definition pipe_log :: "'h usb_pipe \<Rightarrow> ('h \<Rightarrow> bytes list) \<Rightarrow> bool" where
  "pipe_log up lg \<longleftrightarrow>
     (\<forall>d h. lg (up_submit_out up d h) = lg h @ [d]) \<and> (\<forall>t h. lg (snd (up_next_out up t h)) = lg h) \<and>
     (\<forall>n h. lg (up_submit_in up n h) = lg h) \<and> (\<forall>t h. lg (snd (up_next_in up t h)) = lg h) \<and>
     (\<forall>h. lg (up_clear_halt up h) = lg h) \<and> (\<forall>a b c n h. lg (snd (up_control_in up a b c n h)) = lg h) \<and>
     (\<forall>a b c n h. lg (snd (up_control_in_interface up a b c n h)) = lg h) \<and> (\<forall>ms h. lg (up_sleep up ms h) = lg h)"

lemma log_bulk_in_loop: "pipe_log up lg \<Longrightarrow> lg (snd (bulk_in_loop up wait n acc h)) = lg h"
proof (induction up wait n acc h rule: bulk_in_loop.induct)
  case (1 up wait n acc h)
  let ?h0 = "up_submit_in up (round_up (max 1 (up_max_packet_size up h)) (max 1 (min (n - length acc) MAX_REQUEST))) h"
  obtain r h1 where io: "up_next_in up (wait ?h0) ?h0 = (r, h1)"
    by fastforce
  have "lg (snd (up_next_in up (wait ?h0) ?h0)) = lg h"
    using 1(2) by (simp add: pipe_log_def)
  then have h1: "lg h1 = lg h"
    by (simp only: io snd_conv)
  show ?case
  proof (cases "length acc < n \<and> \<not> ends_with acc termination_block")
    case go: True
    show ?thesis
    proof (cases "\<exists>p. r = Some (Inr p) \<and> p \<noteq> []")
      case True
      then obtain p where p: "r = Some (Inr p)" "p \<noteq> []"
        by blast
      then show ?thesis
        using 1(1)[OF go refl refl io[symmetric]] 1(2) io h1 go by (subst bulk_in_loop.simps) (simp add: Let_def)
    next
      case False
      then show ?thesis
        using io h1 go by (subst bulk_in_loop.simps) (auto simp: Let_def split: option.split sum.split)
    qed
  next
    case False
    then show ?thesis
      by (subst bulk_in_loop.simps) auto
  qed
qed

lemma log_bulk_in: "pipe_log up lg \<Longrightarrow> lg (snd (bulk_in_locked up n t h)) = lg h"
  using log_bulk_in_loop[of up lg "\<lambda>_. t" n "[]" h] by (auto simp: bulk_in_locked_def split: prod.split option.split)

lemma log_bulk_out: "pipe_log up lg \<Longrightarrow> lg (snd (bulk_out_locked up d t h)) = lg h @ [d]"
proof -
  assume *: "pipe_log up lg"
  then have "lg (snd (up_next_out up t (up_submit_out up d h))) = lg h @ [d]"
    by (simp add: pipe_log_def)
  then show ?thesis
    by (auto simp: bulk_out_locked_def split: prod.split option.split sum.split)
qed

lemma log_drain_reads: "pipe_log up lg \<Longrightarrow> lg (drain_reads up mps w n h) = lg h"
proof (induction n arbitrary: w h)
  case (Suc n)
  have "lg (snd (up_next_in up w (up_submit_in up (round_up mps 256) h))) = lg h"
    using Suc.prems by (simp add: pipe_log_def)
  then show ?case
    using Suc by (auto split: prod.split option.split sum.split)
qed simp

lemma log_drain_stale: "pipe_log up lg \<Longrightarrow> lg (drain_stale_reads up n h) = lg h"
proof (induction n arbitrary: h)
  case (Suc n)
  have "lg (snd (bulk_in_loop up w 1024 [] h)) = lg h" for w
    using log_bulk_in_loop[OF Suc.prems] .
  then show ?case
    using Suc by (auto simp: Let_def split: prod.split option.split sum.split) (metis snd_conv)+
qed simp

lemma on_io_snd: "lg (nu_io (snd (on_io f u))) = lg (snd (f (nu_io u)))"
  by (simp add: on_io_def split: prod.split)

lemma on_io_fst: "fst (on_io f u) = fst (f (nu_io u))"
  by (simp add: on_io_def split: prod.split)

lemma log_await_reply: "pipe_log up lg \<Longrightarrow> keeps (\<lambda>u. lg (nu_io u)) (await_reply up req n t k)"
proof (induction k)
  case (Suc k)
  have "keeps (\<lambda>u. lg (nu_io u)) (on_io (bulk_in_locked up n t))"
    using log_bulk_in[OF Suc.prems] by (simp add: keeps_def on_io_snd[of lg])
  then show ?case
    using Suc by (auto intro!: keeps_struct)
qed (simp add: keeps_struct)

lemma log_drain_abandoned: "pipe_log up lg \<Longrightarrow> lg (nu_io (drain_abandoned up u)) = lg (nu_io u)"
  by (simp add: drain_abandoned_def drain_bulk_in_locked_def log_drain_reads split: option.split)

lemma log_transact: "pipe_log up lg \<Longrightarrow> lg (nu_io (snd (ni_usb_transact up req n u))) = lg (nu_io u) @ [req]"
proof -
  assume *: "pipe_log up lg"
  let ?t = "bulk_timeout u" and ?u1 = "drain_abandoned up u"
  let ?u2 = "?u1\<lparr>nu_abandoned := Some (up_now up (nu_io ?u1) + ?t)\<rparr>"
  obtain r u3 where out: "on_io (bulk_out_locked up req ?t) ?u2 = (r, u3)"
    by fastforce
  then have sent: "lg (nu_io u3) = lg (nu_io u) @ [req]"
    using on_io_snd[of lg "bulk_out_locked up req ?t" ?u2] log_bulk_out[OF *] log_drain_abandoned[OF *, of u] by simp
  have "lg (nu_io (snd (await_reply up req n ?t MAX_RESYNC u3))) = lg (nu_io u3)"
    using keepsD[OF log_await_reply[OF *]] by fastforce
  then show ?thesis
    using out sent by (cases r) (simp_all add: ni_usb_transact_def Let_def seq_modify seq_run)
qed

lemma log_control:
  assumes "pipe_log up lg"
  shows "lg (nu_io (snd (ni_control_in up a b c n u))) = lg (nu_io u)"
    "lg (nu_io (snd (ni_control_in_interface up a b c n u))) = lg (nu_io u)"
proof -
  have "lg (nu_io (snd (on_io (up_control_in up a b c n) u))) = lg (nu_io u)"
    "lg (nu_io (snd (on_io (up_control_in_interface up a b c n) u))) = lg (nu_io u)"
    using assms by (simp_all add: on_io_snd[of lg] pipe_log_def)
  then show "lg (nu_io (snd (ni_control_in up a b c n u))) = lg (nu_io u)"
    "lg (nu_io (snd (ni_control_in_interface up a b c n u))) = lg (nu_io u)"
    by (auto simp: ni_control_in_def ni_control_in_interface_def split: prod.split sum.split)
qed

lemma ni_usb_records:
  assumes "pipe_log up lg"
  shows "records_requests (ni_usb_transport up) (\<lambda>u. lg (nu_io u))"
proof -
  have "lg (nu_io (snd (rearm_srq up bits u))) = lg (nu_io u)" for bits u
    using log_control(1)[OF assms, where u = u]
    by (auto simp: rearm_srq_def seq_def andthen_def modify_def split: prod.split sum.split)
      (metis snd_conv)+
  then show ?thesis
    using assms
    by (auto simp: records_requests_def ni_usb_transport_def log_transact log_control rearm_srq_if_pending_def
        log_drain_stale pipe_log_def[of up lg])
qed

section \<open>Exchanges\<close>

lemma await_reply_outcome:
  "case await_reply up req n t k u of
     (Inr resp, u') \<Rightarrow> reply_answers_request req resp \<and> nu_abandoned u' = None
   | (Inl e, u') \<Rightarrow> nu_abandoned u' = nu_abandoned u"
proof (induction k arbitrary: u)
  case (Suc k)
  obtain r u1 where io: "on_io (bulk_in_locked up n t) u = (r, u1)"
    by fastforce
  then have same: "nu_abandoned u1 = nu_abandoned u"
    by (auto simp: on_io_def split: prod.splits)
  show ?case
  proof (cases r)
    case (Inl e)
    then show ?thesis
      using io same by (simp add: andthen_def)
  next
    case (Inr resp)
    then show ?thesis
      using io same Suc[of u1] by (auto simp: andthen_def seq_modify ret_def split: prod.splits sum.splits)
  qed
qed (simp add: bail_def)

text \<open>The replies that successive reads of the pipe hand over.\<close>

fun yields :: "'h usb_pipe \<Rightarrow> nat \<Rightarrow> nat \<Rightarrow> 'h \<Rightarrow> bytes list \<Rightarrow> 'h \<Rightarrow> bool" where
  "yields up n t h [] h' = (h = h')"
| "yields up n t h (r # rs) h' =
     (case bulk_in_locked up n t h of (Inl _, _) \<Rightarrow> False | (Inr x, h1) \<Rightarrow> x = r \<and> yields up n t h1 rs h')"

lemma await_reply_skips:
  assumes "yields up n t (nu_io u) (stale @ [resp]) h'" "\<forall>r \<in> set stale. \<not> reply_answers_request req r"
    "reply_answers_request req resp" "length stale < k"
  shows "await_reply up req n t k u = (Inr resp, u\<lparr>nu_io := h', nu_abandoned := None\<rparr>)"
  using assms
proof (induction stale arbitrary: k u)
  case Nil
  then obtain k' where k: "k = Suc k'"
    by (cases k) auto
  show ?case
    using Nil by (auto simp: k andthen_def on_io_def seq_modify ret_def split: prod.splits sum.splits)
next
  case (Cons r stale)
  then obtain k' where k: "k = Suc k'"
    by (cases k) auto
  obtain h1 where h1: "bulk_in_locked up n t (nu_io u) = (Inr r, h1)" "yields up n t h1 (stale @ [resp]) h'"
    using Cons.prems(1) by (auto split: prod.splits sum.splits)
  have "await_reply up req n t k u = await_reply up req n t k' (u\<lparr>nu_io := h1\<rparr>)"
    using h1(1) Cons.prems(2) by (simp add: k andthen_def on_io_def)
  also have "\<dots> = (Inr resp, u\<lparr>nu_io := h1, nu_io := h', nu_abandoned := None\<rparr>)"
    using Cons.IH[where u = "u\<lparr>nu_io := h1\<rparr>" and k = k'] Cons.prems h1(2) by (simp add: k)
  finally show ?case
    by simp
qed

lemma await_reply_gives_up:
  assumes "yields up n t (nu_io u) stale h'" "\<forall>r \<in> set stale. \<not> reply_answers_request req r" "length stale = k"
  shows "\<exists>e. await_reply up req n t k u = (Inl e, u\<lparr>nu_io := h'\<rparr>)"
  using assms
proof (induction stale arbitrary: k u)
  case Nil
  then show ?case
    by (simp add: bail_def)
next
  case (Cons r stale)
  then obtain k' where k: "k = Suc k'"
    by (cases k) auto
  obtain h1 where h1: "bulk_in_locked up n t (nu_io u) = (Inr r, h1)" "yields up n t h1 stale h'"
    using Cons.prems(1) by (auto split: prod.splits sum.splits)
  have "await_reply up req n t k u = await_reply up req n t k' (u\<lparr>nu_io := h1\<rparr>)"
    using h1(1) Cons.prems(2) by (simp add: k andthen_def on_io_def)
  then show ?case
    using Cons.IH[where u = "u\<lparr>nu_io := h1\<rparr>" and k = k'] Cons.prems h1(2) by (simp add: k)
qed

text \<open>One reply in one or more transfers.\<close>

fun arrives :: "'h usb_pipe \<Rightarrow> nat \<Rightarrow> nat \<Rightarrow> bytes \<Rightarrow> 'h \<Rightarrow> bytes list \<Rightarrow> 'h \<Rightarrow> bool" where
  "arrives up n t acc h [] h' = (h = h')"
| "arrives up n t acc h (p # ps) h' =
     (p \<noteq> [] \<and>
      (case up_next_in up t (up_submit_in up (round_up (max 1 (up_max_packet_size up h))
              (max 1 (min (n - length acc) MAX_REQUEST))) h) of
         (Some (Inr x), h1) \<Rightarrow> x = p \<and> arrives up n t (acc @ p) h1 ps h'
       | _ \<Rightarrow> False))"

lemma bulk_in_loop_arrives:
  assumes "arrives up n t acc h ps h'" "length (acc @ concat (butlast ps)) < n \<or> ps = []"
    "\<forall>qs. strict_prefix qs ps \<longrightarrow> \<not> ends_with (acc @ concat qs) termination_block"
    "ends_with (acc @ concat ps) termination_block"
  shows "bulk_in_loop up (\<lambda>_. t) n acc h = (Some (Inr (acc @ concat ps)), h')"
  using assms
proof (induction ps arbitrary: acc h)
  case Nil
  then show ?case
    by (subst bulk_in_loop.simps) simp
next
  case (Cons p ps)
  let ?h0 = "up_submit_in up (round_up (max 1 (up_max_packet_size up h)) (max 1 (min (n - length acc) MAX_REQUEST))) h"
  obtain h1 where h1: "up_next_in up t ?h0 = (Some (Inr p), h1)" "p \<noteq> []" "arrives up n t (acc @ p) h1 ps h'"
    using Cons.prems(1) by (auto split: prod.splits option.splits sum.splits)
  have go: "length acc < n \<and> \<not> ends_with acc termination_block"
    using Cons.prems(2) Cons.prems(3)[rule_format, of "[]"] by (auto split: if_splits)
  have "bulk_in_loop up (\<lambda>_. t) n acc h = bulk_in_loop up (\<lambda>_. t) n (acc @ p) h1"
    using h1(1,2) go by (subst bulk_in_loop.simps) (simp add: Let_def)
  also have "\<dots> = (Some (Inr ((acc @ p) @ concat ps)), h')"
  proof (rule Cons.IH[OF h1(3)])
    show "length ((acc @ p) @ concat (butlast ps)) < n \<or> ps = []"
      using Cons.prems(2) by (cases ps) auto
    show "\<forall>qs. strict_prefix qs ps \<longrightarrow> \<not> ends_with ((acc @ p) @ concat qs) termination_block"
    proof (intro allI impI)
      fix qs
      assume "strict_prefix qs ps"
      then have "strict_prefix (p # qs) (p # ps)"
        by simp
      from Cons.prems(3)[rule_format, OF this] show "\<not> ends_with ((acc @ p) @ concat qs) termination_block"
        by simp
    qed
    show "ends_with ((acc @ p) @ concat ps) termination_block"
      using Cons.prems(4) by simp
  qed
  finally show ?case
    by simp
qed

lemma transact_run:
  assumes "nu_abandoned u = None" "bulk_out_locked up req (bulk_timeout u) (nu_io u) = (Inr (), h)"
  shows "ni_usb_transact up req n u = await_reply up req n (bulk_timeout u) MAX_RESYNC
    (u\<lparr>nu_abandoned := Some (up_now up (nu_io u) + bulk_timeout u), nu_io := h\<rparr>)"
proof -
  let ?u2 = "u\<lparr>nu_abandoned := Some (up_now up (nu_io u) + bulk_timeout u)\<rparr>"
  have "on_io (bulk_out_locked up req (bulk_timeout u)) ?u2 = (Inr (), ?u2\<lparr>nu_io := h\<rparr>)"
    using assms(2) by (simp add: on_io_def)
  then show ?thesis
    using assms(1) by (simp add: ni_usb_transact_def Let_def drain_abandoned_def seq_modify seq_run)
qed

lemma ends_with_suffix: "ends_with d t \<longleftrightarrow> suffix t d"
  by (auto simp: ends_with_def suffix_def) (metis append_take_drop_id)

lemma last_chunk:
  assumes "n \<noteq> 0" "n dvd length d" "d \<noteq> []"
  shows "suffix (last (chunks n d)) d \<and> length (last (chunks n d)) = n"
  using assms
proof (induction n d rule: chunks.induct)
  case (1 n d)
  then have step: "chunks n d = take n d # chunks n (drop n d)" and n: "n \<le> length d"
    by (auto simp: chunks_step dvd_imp_le)
  show ?case
  proof (cases "drop n d = []")
    case True
    then show ?thesis
      using n by (simp add: step)
  next
    case False
    then have "suffix (last (chunks n (drop n d))) (drop n d) \<and> length (last (chunks n (drop n d))) = n"
      using 1 by (intro 1(1)) auto
    then show ?thesis
      using False 1(2) by (auto simp: step intro: suffix_order.trans suffix_drop)
  qed
qed

lemma full_blocks_end:
  assumes "30 dvd length d" "d \<noteq> []" "suffix t d" "length t \<le> 30"
  shows "suffix t (concat (map (data_block True) (chunks 30 d)))"
proof -
  let ?c = "last (chunks 30 d)"
  have c: "suffix ?c d" "length ?c = 30"
    using last_chunk[of 30 d] assms(1,2) by auto
  then have "suffix t ?c"
    using suffix_length_suffix[OF assms(3) c(1)] assms(4) by simp
  moreover have "suffix ?c (data_block True ?c)"
    using c(2) by (simp add: data_block_def block_size_def fill_def suffix_def)
  moreover have "suffix (data_block True ?c) (concat (map (data_block True) (butlast (chunks 30 d) @ [?c])))"
    by (simp add: suffix_def)
  ultimately have "suffix t (concat (map (data_block True) (butlast (chunks 30 d) @ [?c])))"
    using suffix_order.trans by blast
  then show ?thesis
    using assms(2) by simp
qed

section \<open>A pipe that answers from a script\<close>

text \<open>Transfers complete at once, in the order of the script.\<close>

record script_pipe =
  sp_sent :: "bytes list"
  sp_transfers :: "bytes list"
  sp_clock :: nat

definition script_pipe :: "script_pipe usb_pipe" where
  "script_pipe =
     \<lparr>up_submit_out = \<lambda>d h. h\<lparr>sp_sent := sp_sent h @ [d]\<rparr>, up_next_out = \<lambda>t h. (Some (Inr ()), h),
      up_submit_in = \<lambda>n h. h,
      up_next_in = \<lambda>t h. (case sp_transfers h of
          [] \<Rightarrow> (None, h\<lparr>sp_clock := sp_clock h + t\<rparr>) | p # ps \<Rightarrow> (Some (Inr p), h\<lparr>sp_transfers := ps\<rparr>)),
      up_max_packet_size = \<lambda>h. 512, up_clear_halt = \<lambda>h. h,
      up_control_in = \<lambda>req v idx n h. (Inr (replicate 8 1), h),
      up_control_in_interface = \<lambda>req v idx n h. (Inr (replicate 8 1), h), up_now = sp_clock,
      up_sleep = \<lambda>ms h. h\<lparr>sp_clock := sp_clock h + ms\<rparr>\<rparr>"

lemma script_pipe_log: "pipe_log script_pipe sp_sent"
  by (simp add: pipe_log_def script_pipe_def split: list.split)

lemma script_read:
  assumes "sp_transfers h = p # ps" "p \<noteq> []" "0 < n" "ends_with p termination_block"
  shows "bulk_in_locked script_pipe n t h = (Inr p, h\<lparr>sp_transfers := ps\<rparr>)"
proof -
  have "bulk_in_loop script_pipe (\<lambda>_. t) n p (h\<lparr>sp_transfers := ps\<rparr>) = (Some (Inr p), h\<lparr>sp_transfers := ps\<rparr>)"
    using assms(4) by (subst bulk_in_loop.simps) simp
  then have "bulk_in_loop script_pipe (\<lambda>_. t) n [] h = (Some (Inr p), h\<lparr>sp_transfers := ps\<rparr>)"
    using assms(1-3) by (subst bulk_in_loop.simps) (simp add: script_pipe_def ends_with_def)
  then show ?thesis
    by (simp add: bulk_in_locked_def)
qed

lemma op_done_ends: "op_done x \<noteq> []" "ends_with (op_done x) termination_block"
  by (simp_all add: op_done_def ends_with_def)

definition on_script :: "bytes list \<Rightarrow> script_pipe ni_usb_state" where
  "on_script transfers = new_ni_usb \<lparr>sp_sent = [], sp_transfers = transfers, sp_clock = 0\<rparr> 0x709b 3000"

section \<open>Properties\<close>

text \<open>C25. Whatever the USB pipe does, a reply the transport hands over answers the request it was sent for, by the
  identifier the two share, and the exchange is then complete; when the exchange fails in any way, the transport
  remembers by when the adapter must have finished with it: the time it began plus the adapter's own wait
  plus two seconds. And the request itself goes out exactly once.\<close>

theorem ni_exchange_in_step:
  assumes "pipe_log up lg"
  shows "lg (nu_io (snd (ni_usb_transact up req n u))) = lg (nu_io u) @ [req] \<and>
    (case ni_usb_transact up req n u of
       (Inr resp, u') \<Rightarrow> reply_answers_request req resp \<and> nu_abandoned u' = None
     | (Inl e, u') \<Rightarrow> nu_abandoned u' =
         Some (up_now up (nu_io (drain_abandoned up u)) + unat (nu_adapter_wait_ms u) + BULK_REPLY_MARGIN_MS))"
proof
  show "lg (nu_io (snd (ni_usb_transact up req n u))) = lg (nu_io u) @ [req]"
    by (rule log_transact[OF assms])
  let ?t = "bulk_timeout u" and ?u1 = "drain_abandoned up u"
  let ?u2 = "?u1\<lparr>nu_abandoned := Some (up_now up (nu_io ?u1) + ?t)\<rparr>"
  obtain r u3 where out: "on_io (bulk_out_locked up req ?t) ?u2 = (r, u3)"
    by fastforce
  then have "nu_abandoned u3 = nu_abandoned ?u2"
    by (auto simp: on_io_def split: prod.splits)
  then show "case ni_usb_transact up req n u of
       (Inr resp, u') \<Rightarrow> reply_answers_request req resp \<and> nu_abandoned u' = None
     | (Inl e, u') \<Rightarrow> nu_abandoned u' =
         Some (up_now up (nu_io (drain_abandoned up u)) + unat (nu_adapter_wait_ms u) + BULK_REPLY_MARGIN_MS)"
    using out await_reply_outcome[where up = up and req = req and n = n and t = ?t and k = MAX_RESYNC and u = u3]
    by (cases r) (auto simp: ni_usb_transact_def Let_def seq_modify seq_run bulk_timeout_def split: prod.splits sum.splits)
qed

theorem ni_exchange_in_step_witness:
  "nu_abandoned (snd (ni_usb_transact script_pipe encode_go_to_standby 12 (on_script []))) = Some 5000"
proof -
  let ?r = "ni_usb_transact script_pipe encode_go_to_standby 12 (on_script [])"
  have "isl (fst ?r)"
    by code_simp
  then obtain e u' where r: "?r = (Inl e, u')"
    by (metis isl_def prod.collapse)
  have "up_now script_pipe (nu_io (drain_abandoned script_pipe (on_script []))) = 0" "unat (nu_adapter_wait_ms (on_script [])) = 3000"
    by code_simp+
  with r ni_exchange_in_step[OF script_pipe_log, of encode_go_to_standby 12 "on_script []"] show ?thesis
    by simp
qed

text \<open>The transport gets back in step by itself: when up to three replies to earlier requests are still to come
  ahead of the reply to this one, the exchange skips them and returns the right one; when four in a row
  belong to earlier requests it is an error, and the mark makes the next exchange drain the pipe.\<close>

theorem ni_exchange_resynchronises:
  assumes "nu_abandoned u = None" "bulk_out_locked up req (bulk_timeout u) (nu_io u) = (Inr (), h)"
    and "\<forall>r \<in> set stale. \<not> reply_answers_request req r" "reply_answers_request req resp"
    and "yields up n (bulk_timeout u) h (if length stale < 4 then stale @ [resp] else stale) h'" "length stale \<le> 4"
  shows "if length stale < 4 then ni_usb_transact up req n u = (Inr resp, u\<lparr>nu_io := h', nu_abandoned := None\<rparr>)
    else \<exists>e d. ni_usb_transact up req n u = (Inl e, u\<lparr>nu_abandoned := Some d, nu_io := h'\<rparr>)"
proof -
  let ?t = "bulk_timeout u"
  let ?u2 = "u\<lparr>nu_abandoned := Some (up_now up (nu_io u) + ?t)\<rparr>"
  note run = transact_run[OF assms(1,2), of n]
  show ?thesis
  proof (cases "length stale < 4")
    case True
    then show ?thesis
      using await_reply_skips[of up n ?t "?u2\<lparr>nu_io := h\<rparr>" stale resp h' req MAX_RESYNC] assms run by simp
  next
    case False
    then show ?thesis
      using await_reply_gives_up[of up n ?t "?u2\<lparr>nu_io := h\<rparr>" stale h' req MAX_RESYNC] assms run by auto
  qed
qed

theorem ni_exchange_resynchronises_witness:
  "fst (ni_usb_transact script_pipe encode_go_to_standby 12 (on_script [op_done 1, op_done 9, op_done 6])) = Inr (op_done 6)"
proof -
  let ?u = "on_script [op_done 1, op_done 9, op_done 6]"
  let ?h = "snd (bulk_out_locked script_pipe encode_go_to_standby (bulk_timeout ?u) (nu_io ?u))"
  have out: "bulk_out_locked script_pipe encode_go_to_standby (bulk_timeout ?u) (nu_io ?u) = (Inr (), ?h)"
    by (simp add: bulk_out_locked_def script_pipe_def)
  have queue: "sp_transfers ?h = [op_done 1, op_done 9, op_done 6]"
    by (simp add: bulk_out_locked_def script_pipe_def on_script_def new_ni_usb_def)
  have "yields script_pipe 12 (bulk_timeout ?u) ?h [op_done 1, op_done 9, op_done 6] (?h\<lparr>sp_transfers := []\<rparr>)"
    using queue by (simp add: script_read op_done_ends)
  moreover have "\<forall>r \<in> set [op_done 1, op_done 9]. \<not> reply_answers_request encode_go_to_standby r"
    "reply_answers_request encode_go_to_standby (op_done 6)" "nu_abandoned ?u = None"
    by (simp_all add: reply_answers_request_def encode_go_to_standby_def encode_simple_op_def op_done_def on_script_def
        new_ni_usb_def)
  ultimately show ?thesis
    using ni_exchange_resynchronises[OF _ out, of "[op_done 1, op_done 9]" "op_done 6" 12 "?h\<lparr>sp_transfers := []\<rparr>"] by simp
qed

text \<open>A reply that arrives in several transfers is put together again and ends with the first transfer
  after which the bytes so far end in a termination block: everything up to there is returned and what comes after it
  stays in the pipe, provided the limit was not reached before.\<close>

theorem ni_reply_reassembled:
  assumes "arrives up n t [] h ps h'" "ps \<noteq> []" "length (concat (butlast ps)) < n"
    and "\<forall>qs. strict_prefix qs ps \<longrightarrow> \<not> ends_with (concat qs) termination_block"
    and "ends_with (concat ps) termination_block"
  shows "bulk_in_locked up n t h = (Inr (concat ps), h')"
  using bulk_in_loop_arrives[OF assms(1)] assms(2-) by (simp add: bulk_in_locked_def)

theorem ni_reply_reassembled_witness:
  "fst (bulk_in_locked script_pipe 64 10 (nu_io (on_script [[0x36, 1, 2], op_done 0x38, op_done 6]))) = Inr ([0x36, 1, 2] @ op_done 0x38)"
proof -
  let ?h = "nu_io (on_script [[0x36, 1, 2], op_done 0x38, op_done 6])"
  let ?ps = "[[0x36, 1, 2], op_done 0x38]"
  have "arrives script_pipe 64 10 [] ?h ?ps (?h\<lparr>sp_transfers := [op_done 6]\<rparr>)"
    by (simp add: script_pipe_def on_script_def new_ni_usb_def op_done_ends)
  moreover have "\<not> ends_with (concat qs) termination_block" if "strict_prefix qs ?ps" for qs
  proof -
    have "qs = [] \<or> qs = [[0x36, 1, 2]]"
      using that by (auto simp: strict_prefix_def prefix_Cons)
    then show ?thesis
      by (auto simp: ends_with_def)
  qed
  moreover have "ends_with (concat ?ps) termination_block"
    by (simp add: ends_with_def op_done_def)
  ultimately show ?thesis
    using ni_reply_reassembled[of script_pipe 64 10 ?h ?ps] by simp
qed

text \<open>C35. So data from an instrument can end a reply: when the 480 bytes that fill the first sixteen blocks, one
  512-byte packet, end in 04 00 00 00 and come as a transfer of their own, the exchange takes the packet for
  the whole reply and reports success, the driver finds no status block in it, and the rest of the reply stays in
  the pipe unmarked.\<close>

theorem data_can_end_a_reply:
  assumes "length d = 480" "ends_with d termination_block" "0 < n" "nu_abandoned u = None"
    and "bulk_out_locked up (encode_data_read m mode ch tc) (bulk_timeout u) (nu_io u) = (Inr (), h)"
    and "arrives up n (bulk_timeout u) [] h [concat (map (data_block True) (chunks 30 d))] h'"
  shows "\<exists>reply. ni_usb_transact up (encode_data_read m mode ch tc) n u = (Inr reply, u\<lparr>nu_io := h', nu_abandoned := None\<rparr>) \<and>
    parse_data_read_response reply m = Inl (lit ''ni status block too short: 0 bytes'')"
proof -
  let ?p = "concat (map (data_block True) (chunks 30 d))" and ?req = "encode_data_read m mode ch tc"
  have "d \<noteq> []"
    using assms(1) by auto
  then have "ends_with ?p termination_block"
    using full_blocks_end[of d termination_block] assms(1,2) by (simp add: ends_with_suffix)
  moreover have "\<not> ends_with (concat qs) termination_block" if "strict_prefix qs [?p]" for qs
    using that by (auto simp: strict_prefix_def prefix_Cons ends_with_def)
  ultimately have "bulk_in_loop up (\<lambda>_. bulk_timeout u) n [] h = (Some (Inr ([] @ concat [?p])), h')"
    using assms(3) by (intro bulk_in_loop_arrives[OF assms(6)]) auto
  then have "yields up n (bulk_timeout u) h [?p] h'"
    by (simp add: bulk_in_locked_def)
  moreover have "reply_answers_request ?req ?p"
    using \<open>d \<noteq> []\<close> by (simp add: reply_answers_request_def encode_data_read_def encode_data_read_with_aux_def hd_pad_to_4
        chunks_step data_block_def Let_def del: append_is_Nil_conv hd_append)
  ultimately have "ni_usb_transact up ?req n u = (Inr ?p, u\<lparr>nu_io := h', nu_abandoned := None\<rparr>)"
    using transact_run[OF assms(4,5), of n] await_reply_skips[of up n "bulk_timeout u" _ "[]" ?p h' ?req MAX_RESYNC] by simp
  moreover have "data_blocks ?p 0 [] 0 0 = Inr (length ?p, concat (map (fill 30) (chunks 30 d)), length (chunks 30 d),
      if chunks 30 d = [] then 0 else 30)"
    using data_blocks_all[of "chunks 30 d" True "[]" "[]" "[]" 0 0] chunks_bounds[of 30 _ d]
    by (simp add: block_size_def)
  then have "parse_data_read_response ?p m = Inl (lit ''ni status block too short: 0 bytes'')"
    by (simp add: parse_data_read_response_def parse_status_block_def lit_def dec.simps[of 0])
  ultimately show ?thesis
    by blast
qed

theorem data_can_end_a_reply_witness:
  "\<exists>reply u'. ni_usb_transact script_pipe (encode_data_read 1000 0 10 0xfc) 2000
       (on_script [concat (map (data_block True) (chunks 30 (replicate 476 1 @ termination_block))), op_done 0x38]) = (Inr reply, u') \<and>
     nu_abandoned u' = None \<and> sp_transfers (nu_io u') = [op_done 0x38] \<and>
     parse_data_read_response reply 1000 = Inl (lit ''ni status block too short: 0 bytes'')"
proof -
  let ?d = "replicate 476 1 @ termination_block" and ?req = "encode_data_read 1000 0 10 0xfc"
  let ?p = "concat (map (data_block True) (chunks 30 ?d))"
  let ?u = "on_script [?p, op_done 0x38]"
  let ?h = "(nu_io ?u)\<lparr>sp_sent := [?req]\<rparr>"
  have "?p \<noteq> []"
    by (simp add: chunks_step data_block_def)
  then have "arrives script_pipe 2000 (bulk_timeout ?u) [] ?h [?p] (?h\<lparr>sp_transfers := [op_done 0x38]\<rparr>)"
    by (simp add: script_pipe_def on_script_def new_ni_usb_def del: concat_eq_Nil_conv)
  moreover have "bulk_out_locked script_pipe ?req (bulk_timeout ?u) (nu_io ?u) = (Inr (), ?h)"
    by (simp add: bulk_out_locked_def script_pipe_def on_script_def new_ni_usb_def)
  moreover have "nu_abandoned ?u = None" "length ?d = 480" "ends_with ?d termination_block"
    by (simp_all add: on_script_def new_ni_usb_def ends_with_def)
  ultimately show ?thesis
    using data_can_end_a_reply[where d = ?d and n = 2000 and u = ?u and up = script_pipe and m = 1000 and h = ?h
        and h' = "?h\<lparr>sp_transfers := [op_done 0x38]\<rparr>"] by fastforce
qed

end
