(* ===== verification/Select.thy ===== *)
theory Select
  imports Backend
begin

text \<open>
  Choosing among the attached adapters, \<^verbatim>\<open>src/src/backend/select.rs\<close> and the second half of
  \<^verbatim>\<open>src/src/backend/mod.rs\<close>. What the \<^verbatim>\<open>nusb\<close> crate reports of a device is a record; its port is the
  identifier that \<^verbatim>\<open>port_id\<close> derives from what the operating system reports. The errors are values of
  a datatype instead of their texts.
\<close>

section \<open>Devices and kinds\<close>

record usb_interface =
  ui_number :: u8
  ui_class :: u8
  ui_subclass :: u8
  ui_protocol :: u8

record usb_device =
  ud_vendor :: u16
  ud_product :: u16
  ud_port :: rstr
  ud_bus :: rstr
  ud_address :: u8
  ud_interfaces :: "usb_interface list"
  ud_product_string :: "rstr option"
  ud_serial :: "rstr option"

datatype backend_kind = Agilent82357b | Agilent82357a | NiUsbHs | Usbtmc

abbreviation ALL_KINDS :: "backend_kind list" where
  "ALL_KINDS \<equiv> [Agilent82357b, Agilent82357a, NiUsbHs, Usbtmc]"

abbreviation USB_VID_AGILENT :: u16 where "USB_VID_AGILENT \<equiv> 0x0957"
abbreviation USB_VENDOR_ID_NI :: u16 where "USB_VENDOR_ID_NI \<equiv> 0x3923"

text \<open>The descriptor of an Agilent model; the firmware image is a data file and therefore an argument.\<close>

record agilent_model =
  md_id :: rstr
  md_description :: rstr
  md_usb_ids :: "(u16 \<times> u16) list"
  md_pid_preinit :: u16
  md_pid_ready :: u16
  md_bulk_out_ep :: u8
  md_irq_in_ep :: u8
  md_cpucs_addr :: u16

definition MODEL_82357B :: agilent_model where
  "MODEL_82357B = \<lparr>md_id = lit ''agilent-82357b'', md_description = lit ''Agilent/Keysight 82357B USB-GPIB adapter'',
     md_usb_ids = [(USB_VID_AGILENT, 0x0518), (USB_VID_AGILENT, 0x0718)], md_pid_preinit = 0x0518, md_pid_ready = 0x0718,
     md_bulk_out_ep = 0x06, md_irq_in_ep = 0x88, md_cpucs_addr = 0xE600\<rparr>"

definition MODEL_82357A :: agilent_model where
  "MODEL_82357A = \<lparr>md_id = lit ''agilent-82357a'', md_description = lit ''Agilent 82357A USB-GPIB adapter'',
     md_usb_ids = [(USB_VID_AGILENT, 0x0007), (USB_VID_AGILENT, 0x0107)], md_pid_preinit = 0x0007, md_pid_ready = 0x0107,
     md_bulk_out_ep = 0x04, md_irq_in_ep = 0x86, md_cpucs_addr = 0x7F92\<rparr>"

abbreviation NI_USB_IDS :: "(u16 \<times> u16) list" where
  "NI_USB_IDS \<equiv> [(USB_VENDOR_ID_NI, 0x709b), (USB_VENDOR_ID_NI, 0x7618), (USB_VENDOR_ID_NI, 0x725c), (USB_VENDOR_ID_NI, 0x725d)]"

text \<open>The code's match never reaches its \<^verbatim>\<open>unreachable!\<close> arm: every caller asks it of an Agilent kind only.\<close>

fun kind_id :: "backend_kind \<Rightarrow> rstr" where
  "kind_id Agilent82357b = md_id MODEL_82357B"
| "kind_id Agilent82357a = md_id MODEL_82357A"
| "kind_id NiUsbHs = lit ''ni-usb-hs''"
| "kind_id Usbtmc = lit ''usbtmc''"

fun usb_ids :: "backend_kind \<Rightarrow> (u16 \<times> u16) list" where
  "usb_ids Agilent82357b = md_usb_ids MODEL_82357B"
| "usb_ids Agilent82357a = md_usb_ids MODEL_82357A"
| "usb_ids NiUsbHs = NI_USB_IDS"
| "usb_ids Usbtmc = []"

record tmc_interface =
  ti_number :: u8
  ti_protocol :: u8

definition usbtmc_interface :: "usb_device \<Rightarrow> tmc_interface option" where
  "usbtmc_interface dev =
     map_option (\<lambda>i. \<lparr>ti_number = ui_number i, ti_protocol = ui_protocol i\<rparr>)
       (find (\<lambda>i. ui_class i = 0xfe \<and> ui_subclass i = 0x03) (ud_interfaces dev))"

definition detect :: "usb_device \<Rightarrow> backend_kind option" where
  "detect dev =
     (case find (\<lambda>k. (ud_vendor dev, ud_product dev) \<in> set (usb_ids k)) ALL_KINDS of
        Some k \<Rightarrow> Some k
      | None \<Rightarrow> (case usbtmc_interface dev of Some _ \<Rightarrow> Some Usbtmc | None \<Rightarrow> None))"

fun is_preinit_pid :: "backend_kind \<Rightarrow> u16 \<Rightarrow> bool" where
  "is_preinit_pid Agilent82357b pid \<longleftrightarrow> md_pid_preinit MODEL_82357B = pid"
| "is_preinit_pid Agilent82357a pid \<longleftrightarrow> md_pid_preinit MODEL_82357A = pid"
| "is_preinit_pid _ pid \<longleftrightarrow> False"

definition from_id :: "rstr \<Rightarrow> backend_kind option" where
  "from_id s = find (\<lambda>k. kind_id k = s) ALL_KINDS"

section \<open>Selection\<close>

datatype usb_selector = Auto | Port rstr

fun selector_port :: "usb_selector \<Rightarrow> rstr option" where
  "selector_port Auto = None"
| "selector_port (Port p) = Some p"

record discovered_adapter =
  da_kind :: backend_kind
  da_port_id :: rstr
  da_vid :: u16
  da_pid :: u16
  da_product :: "rstr option"
  da_serial :: "rstr option"

datatype select_error =
    ListFailed rstr
  | UnknownBackend rstr
  | NothingAtPort rstr
  | NoBackendAdapter rstr
  | NoneDetected
  | MultipleAdapters "(rstr \<times> rstr) list"
  | NotFound "rstr option"
  | OpenFailed rstr

definition discovered :: "usb_device \<Rightarrow> discovered_adapter option" where
  "discovered dev =
     (case detect dev of
        None \<Rightarrow> None
      | Some k \<Rightarrow>
          let preinit = is_preinit_pid k (ud_product dev)
          in Some \<lparr>da_kind = k, da_port_id = ud_port dev, da_vid = ud_vendor dev, da_pid = ud_product dev,
                   da_product = (if preinit then None else ud_product_string dev),
                   da_serial = (if preinit then None else ud_serial dev)\<rparr>)"

definition enumerate_adapters :: "usb_device list io \<Rightarrow> (select_error, discovered_adapter list) result" where
  "enumerate_adapters listing =
     (case listing of Inl e \<Rightarrow> Inl (ListFailed e) | Inr devs \<Rightarrow> Inr (List.map_filter discovered devs))"

definition linux_port_input_matches :: "rstr \<Rightarrow> rstr \<Rightarrow> bool" where
  "linux_port_input_matches canonical input \<longleftrightarrow> input = canonical \<or> last (split_on 47 input) = canonical"

definition parse_hex_u32 :: "rstr \<Rightarrow> nat option" where
  "parse_hex_u32 s =
     (let t = trim s
      in from_hex (2 ^ 32 - 1)
           (case strip_prefix (lit ''0x'') t of
              Some r \<Rightarrow> r
            | None \<Rightarrow> (case strip_prefix (lit ''0X'') t of Some r \<Rightarrow> r | None \<Rightarrow> t)))"

definition macos_port_input_matches :: "rstr \<Rightarrow> rstr \<Rightarrow> bool" where
  "macos_port_input_matches canonical input =
     (case (parse_hex_u32 canonical, parse_hex_u32 input) of
        (Some a, Some b) \<Rightarrow> a = b
      | _ \<Rightarrow> input = canonical)"

datatype target_os = Linux | Macos | OtherOs

fun port_input_matches :: "target_os \<Rightarrow> rstr \<Rightarrow> rstr \<Rightarrow> bool" where
  "port_input_matches Linux = linux_port_input_matches"
| "port_input_matches Macos = macos_port_input_matches"
| "port_input_matches OtherOs = (\<lambda>canonical input. input = canonical)"

definition resolve ::
  "target_os \<Rightarrow> discovered_adapter list \<Rightarrow> rstr option \<Rightarrow> usb_selector \<Rightarrow> (select_error, discovered_adapter) result" where
  "resolve os found backend selector =
     (let by_backend = filter (\<lambda>a. case backend of None \<Rightarrow> True | Some s \<Rightarrow> kind_id (da_kind a) = s) found;
          candidates = (case selector_port selector of
                          None \<Rightarrow> by_backend
                        | Some want \<Rightarrow> filter (\<lambda>a. port_input_matches os (da_port_id a) want) by_backend)
      in case candidates of
           [one] \<Rightarrow> Inr one
         | [] \<Rightarrow>
             (case selector_port selector of
                Some want \<Rightarrow> Inl (NothingAtPort want)
              | None \<Rightarrow> (case backend of Some s \<Rightarrow> Inl (NoBackendAdapter s) | None \<Rightarrow> Inl NoneDetected))
         | many \<Rightarrow> Inl (MultipleAdapters (map (\<lambda>a. (kind_id (da_kind a), da_port_id a)) many)))"

text \<open>One presence check per entry of the schedule; the wait ends with the first check that finds the port empty,
  and goes on (\<open>None\<close>) while there is none.\<close>

fun wait_for_removal :: "target_os \<Rightarrow> rstr \<Rightarrow> usb_device list io list \<Rightarrow> nat option" where
  "wait_for_removal os port [] = None"
| "wait_for_removal os port (listing # rest) =
     (case enumerate_adapters listing of
        Inr found \<Rightarrow>
          if \<not> list_ex (\<lambda>a. port_input_matches os (da_port_id a) port) found then Some 1
          else map_option Suc (wait_for_removal os port rest)
      | Inl _ \<Rightarrow> map_option Suc (wait_for_removal os port rest))"

section \<open>Opening\<close>

text \<open>How each driver finds its device again when it opens: the first one of its kind, at the port when one is given.\<close>

definition first_device ::
  "usb_device list io \<Rightarrow> (usb_device \<Rightarrow> bool) \<Rightarrow> rstr option \<Rightarrow> (select_error, usb_device) result" where
  "first_device listing mine port =
     (case listing of
        Inl e \<Rightarrow> Inl (ListFailed e)
      | Inr devs \<Rightarrow>
          (case find (\<lambda>dev. mine dev \<and> (case port of None \<Rightarrow> True | Some want \<Rightarrow> ud_port dev = want)) devs of
             Some dev \<Rightarrow> Inr dev
           | None \<Rightarrow> Inl (NotFound port)))"

definition agilent_find_device ::
  "agilent_model \<Rightarrow> rstr option \<Rightarrow> usb_device list io \<Rightarrow> (select_error, usb_device \<times> u16) result" where
  "agilent_find_device model port listing =
     rbind (first_device listing
              (\<lambda>dev. ud_vendor dev = USB_VID_AGILENT \<and> (ud_product dev = md_pid_ready model \<or> ud_product dev = md_pid_preinit model)) port)
       (\<lambda>dev. Inr (dev, ud_product dev))"

definition ni_find_device :: "rstr option \<Rightarrow> usb_device list io \<Rightarrow> (select_error, usb_device \<times> u16) result" where
  "ni_find_device port listing =
     rbind (first_device listing
              (\<lambda>dev. ud_vendor dev = USB_VENDOR_ID_NI \<and> (USB_VENDOR_ID_NI, ud_product dev) \<in> set NI_USB_IDS) port)
       (\<lambda>dev. Inr (dev, ud_product dev))"

definition tmc_find_device :: "rstr option \<Rightarrow> usb_device list io \<Rightarrow> (select_error, usb_device \<times> tmc_interface) result" where
  "tmc_find_device port listing =
     rbind (first_device listing (\<lambda>dev. usbtmc_interface dev \<noteq> None) port)
       (\<lambda>dev. case usbtmc_interface dev of Some tmc \<Rightarrow> Inr (dev, tmc) | None \<Rightarrow> Inl (NotFound port))"

text \<open>\<^verbatim>\<open>BackendKind::open\<close> hands on to the driver of the kind; the three drivers' own \<^verbatim>\<open>open\<close> are the fields.\<close>

record 'h drivers =
  agilent_open :: "agilent_model \<Rightarrow> u32 \<Rightarrow> rstr option \<Rightarrow> (select_error, 'h) result"
  ni_usb_hs_open :: "u32 \<Rightarrow> rstr option \<Rightarrow> (select_error, 'h) result"
  usbtmc_open :: "u32 \<Rightarrow> rstr option \<Rightarrow> (select_error, 'h) result"

fun open_kind :: "'h drivers \<Rightarrow> backend_kind \<Rightarrow> u32 \<Rightarrow> rstr option \<Rightarrow> (select_error, 'h) result" where
  "open_kind drv Agilent82357b ms port = agilent_open drv MODEL_82357B ms port"
| "open_kind drv Agilent82357a ms port = agilent_open drv MODEL_82357A ms port"
| "open_kind drv NiUsbHs ms port = ni_usb_hs_open drv ms port"
| "open_kind drv Usbtmc ms port = usbtmc_open drv ms port"

definition open_selected ::
  "target_os \<Rightarrow> usb_device list io \<Rightarrow> 'h drivers \<Rightarrow> usb_selector \<Rightarrow> rstr option \<Rightarrow> u32 \<Rightarrow>
   (select_error, 'h \<times> rstr) result" where
  "open_selected os listing drv selector backend timeout_ms =
     rbind (case backend of
              Some s \<Rightarrow> if from_id s = None then Inl (UnknownBackend s) else Inr ()
            | None \<Rightarrow> Inr ()) (\<lambda>_.
     rbind (enumerate_adapters listing) (\<lambda>found.
     rbind (resolve os found backend selector) (\<lambda>chosen.
     rbind (open_kind drv (da_kind chosen) timeout_ms (Some (da_port_id chosen))) (\<lambda>opened.
       Inr (opened, da_port_id chosen)))))"

section \<open>Exactly one\<close>

text \<open>What the operator's choice admits, said of devices.\<close>

definition wanted :: "target_os \<Rightarrow> rstr option \<Rightarrow> usb_selector \<Rightarrow> usb_device \<Rightarrow> bool" where
  "wanted os backend selector dev \<longleftrightarrow>
     (\<exists>k. detect dev = Some k \<and> (\<forall>s. backend = Some s \<longrightarrow> kind_id k = s) \<and>
          (\<forall>p. selector = Port p \<longrightarrow> port_input_matches os (ud_port dev) p))"

text \<open>The search a driver repeats when it opens; a driver keeps to it if it opens the device it finds.\<close>

fun find_for :: "backend_kind \<Rightarrow> rstr option \<Rightarrow> usb_device list io \<Rightarrow> (select_error, usb_device) result" where
  "find_for Agilent82357b port listing = rbind (agilent_find_device MODEL_82357B port listing) (Inr \<circ> fst)"
| "find_for Agilent82357a port listing = rbind (agilent_find_device MODEL_82357A port listing) (Inr \<circ> fst)"
| "find_for NiUsbHs port listing = rbind (ni_find_device port listing) (Inr \<circ> fst)"
| "find_for Usbtmc port listing = rbind (tmc_find_device port listing) (Inr \<circ> fst)"

abbreviation choice :: "target_os \<Rightarrow> rstr option \<Rightarrow> usb_selector \<Rightarrow> discovered_adapter \<Rightarrow> bool" where
  "choice os backend selector a \<equiv>
     (case backend of None \<Rightarrow> True | Some s \<Rightarrow> kind_id (da_kind a) = s) \<and>
     (case selector_port selector of None \<Rightarrow> True | Some want \<Rightarrow> port_input_matches os (da_port_id a) want)"

lemma resolve_Inr:
  "resolve os found backend selector = Inr a \<longleftrightarrow> filter (choice os backend selector) found = [a]"
  by (cases selector; cases backend) (auto simp: resolve_def conj_commute split: list.splits)

lemma discovered_kind: "discovered dev = Some a \<Longrightarrow> detect dev = Some (da_kind a) \<and> da_port_id a = ud_port dev"
  by (auto simp: discovered_def Let_def split: option.splits)

lemma discovers: "detect dev = Some k \<Longrightarrow> \<exists>a. discovered dev = Some a \<and> da_port_id a = ud_port dev"
  by (simp add: discovered_def Let_def)

lemma wanted_discovered:
  "wanted os backend selector dev \<longleftrightarrow> (\<exists>a. discovered dev = Some a \<and> choice os backend selector a)"
  by (cases selector; cases backend) (auto simp: wanted_def discovered_def Let_def split: option.splits)

lemma filter_discovered:
  "filter (choice os backend selector) (List.map_filter discovered devs) =
     List.map_filter discovered (filter (wanted os backend selector) devs)"
  by (induction devs) (auto simp: wanted_discovered List.map_filter_simps split: option.splits)

lemma wanted_one:
  "filter (choice os backend selector) (List.map_filter discovered devs) = [a] \<longleftrightarrow>
     (\<exists>dev. filter (wanted os backend selector) devs = [dev] \<and> discovered dev = Some a)"
proof -
  have all: "\<forall>d\<in>set (filter (wanted os backend selector) devs). discovered d \<noteq> None"
    by (auto simp: wanted_discovered)
  show ?thesis
    unfolding filter_discovered using all
    by (cases "filter (wanted os backend selector) devs"; cases "tl (filter (wanted os backend selector) devs)")
       (auto simp: List.map_filter_simps split: option.splits)
qed

lemma first_device_at:
  assumes "distinct (map ud_port devs)" "dev \<in> set devs" "mine dev"
  shows "first_device (Inr devs) mine (Some (ud_port dev)) = Inr dev"
proof -
  have "find (\<lambda>d. mine d \<and> ud_port d = ud_port dev) devs = Some dev"
    using assms by (induction devs) (auto simp: image_iff)
  then show ?thesis by (simp add: first_device_def)
qed

lemma detect_by_id:
  assumes "detect dev = Some k" "k \<noteq> Usbtmc"
  shows "(ud_vendor dev, ud_product dev) \<in> set (usb_ids k)"
  using assms by (auto simp: detect_def split: option.splits if_splits)

lemma detect_usbtmc: "detect dev = Some Usbtmc \<Longrightarrow> \<exists>tmc. usbtmc_interface dev = Some tmc"
  by (auto simp: detect_def split: option.splits if_splits)

text \<open>At a port of its own, a driver's search ends at the very device that was discovered there.\<close>

lemma find_for_detected:
  assumes "distinct (map ud_port devs)" "dev \<in> set devs" "detect dev = Some k"
  shows "find_for k (Some (ud_port dev)) (Inr devs) = Inr dev"
  using detect_by_id [OF assms(3)] assms
  by (cases k)
     (auto dest!: detect_usbtmc simp: agilent_find_device_def ni_find_device_def tmc_find_device_def first_device_at
        MODEL_82357A_def MODEL_82357B_def)

lemma from_id_kind: "from_id (kind_id k) \<noteq> None"
  by (cases k) (simp_all add: from_id_def MODEL_82357A_def MODEL_82357B_def)

lemma unknown_backend_wants_nothing: "from_id s = None \<Longrightarrow> \<not> wanted os (Some s) selector dev"
  using from_id_kind unfolding wanted_def by metis

lemma distinct_set_single:
  assumes "set ys = {x}" "distinct ys"
  shows "ys = [x]"
proof (cases ys)
  case (Cons y zs)
  with assms have "y = x" "x \<notin> set zs" "set zs \<subseteq> {x}" by auto
  then have "zs = []" by (metis subset_singletonD insertI1 set_empty)
  with Cons \<open>y = x\<close> show ?thesis by simp
qed (use assms in simp)

lemma filter_one:
  assumes "distinct xs"
  shows "filter P xs = [x] \<longleftrightarrow> x \<in> set xs \<and> P x \<and> (\<forall>y\<in>set xs. P y \<longrightarrow> y = x)"
proof
  assume "filter P xs = [x]"
  then have "set (filter P xs) = {x}" by simp
  then show "x \<in> set xs \<and> P x \<and> (\<forall>y\<in>set xs. P y \<longrightarrow> y = x)" by auto
next
  assume "x \<in> set xs \<and> P x \<and> (\<forall>y\<in>set xs. P y \<longrightarrow> y = x)"
  then have "set (filter P xs) = {x}" by auto
  moreover have "distinct (filter P xs)" using assms by simp
  ultimately show "filter P xs = [x]" by (rule distinct_set_single)
qed

lemma open_selected_Inr:
  "open_selected os (Inr devs) drv selector backend ms = Inr (h, port) \<longleftrightarrow>
     (\<exists>dev k. filter (wanted os backend selector) devs = [dev] \<and> detect dev = Some k \<and> port = ud_port dev \<and>
              open_kind drv k ms (Some port) = Inr h)" (is "?l \<longleftrightarrow> ?r")
proof -
  have "?l \<longleftrightarrow> (\<forall>s. backend = Some s \<longrightarrow> from_id s \<noteq> None) \<and>
    (\<exists>a. filter (choice os backend selector) (List.map_filter discovered devs) = [a] \<and> port = da_port_id a \<and>
         open_kind drv (da_kind a) ms (Some port) = Inr h)"
    by (auto simp: open_selected_def enumerate_adapters_def rbind_Inr_iff resolve_Inr split: option.splits if_splits)
  also have "\<dots> \<longleftrightarrow> ?r"
  proof
    assume ?r
    then obtain dev k where one: "filter (wanted os backend selector) devs = [dev]" and k: "detect dev = Some k" "port = ud_port dev"
        "open_kind drv k ms (Some port) = Inr h" by blast
    obtain a where a: "discovered dev = Some a" using k(1) by (simp add: discovered_def Let_def)
    have "dev \<in> set (filter (wanted os backend selector) devs)" unfolding one by simp
    then have "wanted os backend selector dev" by simp
    then have "\<forall>s. backend = Some s \<longrightarrow> from_id s \<noteq> None" using unknown_backend_wants_nothing by blast
    moreover have "filter (choice os backend selector) (List.map_filter discovered devs) = [a]"
      unfolding wanted_one using one a by blast
    ultimately show "(\<forall>s. backend = Some s \<longrightarrow> from_id s \<noteq> None) \<and>
      (\<exists>a. filter (choice os backend selector) (List.map_filter discovered devs) = [a] \<and> port = da_port_id a \<and>
           open_kind drv (da_kind a) ms (Some port) = Inr h)" using k discovered_kind [OF a] by (metis option.inject)
  qed (unfold wanted_one, use discovered_kind in metis)
  finally show ?thesis .
qed

section \<open>Watching for removal\<close>

lemma port_matches_itself: "port_input_matches os p p"
  by (cases os) (auto simp: linux_port_input_matches_def macos_port_input_matches_def split: option.splits)

definition gone :: "target_os \<Rightarrow> rstr \<Rightarrow> usb_device list io \<Rightarrow> bool" where
  "gone os port listing \<longleftrightarrow>
     (\<exists>devs. listing = Inr devs \<and> (\<forall>dev\<in>set devs. detect dev \<noteq> None \<longrightarrow> \<not> port_input_matches os (ud_port dev) port))"

lemma set_map_filter: "set (List.map_filter f xs) = {y. \<exists>x\<in>set xs. f x = Some y}"
  by (induction xs) (auto simp: List.map_filter_simps split: option.splits)

lemma wait_for_removal_Cons:
  "wait_for_removal os port (listing # rest) =
     (if gone os port listing then Some 1 else map_option Suc (wait_for_removal os port rest))"
proof (cases listing)
  case (Inr devs)
  have "list_ex (\<lambda>a. port_input_matches os (da_port_id a) port) (List.map_filter discovered devs) \<longleftrightarrow> \<not> gone os port listing"
    using discovered_kind discovers unfolding list_ex_iff set_map_filter gone_def Inr
    by simp (metis option.distinct(1) not_Some_eq)
  then show ?thesis by (simp add: Inr enumerate_adapters_def)
qed (simp add: enumerate_adapters_def gone_def)

lemma wait_for_removal_takeWhile:
  "wait_for_removal os port listings =
     (if \<exists>l\<in>set listings. gone os port l then Some (Suc (length (takeWhile (\<lambda>l. \<not> gone os port l) listings))) else None)"
proof (induction listings)
  case (Cons l ls)
  show ?case unfolding wait_for_removal_Cons Cons.IH by simp
qed simp

lemma wait_for_removal_Some:
  assumes "wait_for_removal os port listings = Some n"
  shows "0 < n \<and> n \<le> length listings \<and> gone os port (listings ! (n - 1)) \<and> (\<forall>i<n - 1. \<not> gone os port (listings ! i))"
proof -
  let ?w = "takeWhile (\<lambda>l. \<not> gone os port l) listings"
  have ex: "\<exists>l\<in>set listings. gone os port l" and n: "n = Suc (length ?w)"
    using assms unfolding wait_for_removal_takeWhile by (auto split: if_splits)
  have "?w \<noteq> listings" using ex by (metis set_takeWhileD)
  then have "length ?w < length listings" by (metis le_neq_implies_less length_takeWhile_le takeWhile_eq_take take_all_iff order_refl)
  moreover from this have "gone os port (listings ! length ?w)" using nth_length_takeWhile by blast
  moreover have "\<not> gone os port (listings ! i)" if "i < length ?w" for i
    using that by (metis nth_mem set_takeWhileD takeWhile_nth)
  ultimately show ?thesis unfolding n by simp
qed

section \<open>Properties\<close>

text \<open>C20. Opening an adapter succeeds exactly when one single attached device is what the operator asked for
  (a supported device, of the named kind if one is named, at the named port if one is named) and its driver
  opens; the port handed back is that device's, and the search the driver repeats at that port, among
  devices on ports of their own, finds that very device.\<close>

theorem opened_adapter_is_the_only_match:
  assumes "distinct (map ud_port devs)"
  shows "open_selected os (Inr devs) drv selector backend ms = Inr (h, port) \<longleftrightarrow>
     (\<exists>dev k. dev \<in> set devs \<and> wanted os backend selector dev \<and>
              (\<forall>d\<in>set devs. wanted os backend selector d \<longrightarrow> d = dev) \<and>
              detect dev = Some k \<and> port = ud_port dev \<and> find_for k (Some port) (Inr devs) = Inr dev \<and>
              open_kind drv k ms (Some port) = Inr h)"
proof -
  have "distinct devs" using assms by (simp add: distinct_map)
  note one = filter_one [OF this, of "wanted os backend selector"]
  show ?thesis unfolding open_selected_Inr one using find_for_detected [OF assms] by metis
qed

text \<open>Once an adapter is open, the watch on its port returns at the first check whose listing succeeds and
  has no supported adapter at that port: a failed listing or one that still has the adapter never ends it.\<close>

theorem removal_is_noticed:
  assumes "open_selected os (Inr devs) drv selector backend ms = Inr (h, port)"
  shows "\<exists>dev\<in>set devs. detect dev \<noteq> None \<and> ud_port dev = port \<and>
     (\<forall>listings n. wait_for_removal os port listings = Some n \<longrightarrow>
        0 < n \<and> n \<le> length listings \<and> gone os port (listings ! (n - 1)) \<and>
        (\<forall>i<n - 1. \<not> gone os port (listings ! i)) \<and>
        (\<forall>present. listings ! (n - 1) = Inr present \<longrightarrow> dev \<notin> set present)) \<and>
     (\<forall>listings. (\<exists>l\<in>set listings. gone os port l) \<longrightarrow> (\<exists>n. wait_for_removal os port listings = Some n))"
proof -
  obtain dev k where one: "filter (wanted os backend selector) devs = [dev]" and k: "detect dev = Some k" "port = ud_port dev"
    using assms unfolding open_selected_Inr by blast
  have "dev \<in> set (filter (wanted os backend selector) devs)" unfolding one by simp
  then have "dev \<in> set devs" by simp
  moreover have "dev \<notin> set present" if "gone os port (Inr present)" for present
    using that k port_matches_itself [of os port] by (auto simp: gone_def)
  moreover have "\<exists>n. wait_for_removal os port listings = Some n" if "\<exists>l\<in>set listings. gone os port l" for listings
    using that unfolding wait_for_removal_takeWhile by simp
  ultimately show ?thesis
    using k wait_for_removal_Some [of os port] by (intro bexI [of _ dev] conjI allI impI) (metis option.distinct(1))+
qed

text \<open>Two adapters of different makes on ports of their own, and drivers that report their kind.\<close>

definition bench :: "usb_device list" where
  "bench =
     [\<lparr>ud_vendor = 0x0957, ud_product = 0x0718, ud_port = lit ''1-1.1'', ud_bus = lit ''1'', ud_address = 4, ud_interfaces = [], ud_product_string = None, ud_serial = None\<rparr>,
      \<lparr>ud_vendor = 0x3923, ud_product = 0x709b, ud_port = lit ''1-1.2'', ud_bus = lit ''1'', ud_address = 5, ud_interfaces = [], ud_product_string = None, ud_serial = None\<rparr>]"

definition bench_drivers :: "nat drivers" where
  "bench_drivers = \<lparr>agilent_open = (\<lambda>_ _ _. Inr 1), ni_usb_hs_open = (\<lambda>_ _. Inr 2), usbtmc_open = (\<lambda>_ _. Inr 3)\<rparr>"

lemmas bench_defs =
  bench_def bench_drivers_def wanted_def detect_def MODEL_82357A_def MODEL_82357B_def usbtmc_interface_def

lemma bench_wanted:
  "filter (wanted Linux (Some (lit ''ni-usb-hs'')) Auto) bench = [bench ! 1]"
  by (simp add: bench_defs lit_def)

theorem opened_adapter_is_the_only_match_witness:
  "distinct (map ud_port bench) \<and> wanted Linux (Some (lit ''ni-usb-hs'')) Auto (bench ! 1) \<and>
   open_selected Linux (Inr bench) bench_drivers Auto (Some (lit ''ni-usb-hs'')) 1000 = Inr (2, lit ''1-1.2'') \<and>
   find_for NiUsbHs (Some (lit ''1-1.2'')) (Inr bench) = Inr (bench ! 1)"
proof -
  have dist: "distinct (map ud_port bench)" by (simp add: bench_def lit_def)
  have opened: "open_selected Linux (Inr bench) bench_drivers Auto (Some (lit ''ni-usb-hs'')) 1000 = Inr (2, lit ''1-1.2'')"
    unfolding open_selected_Inr bench_wanted by (simp add: bench_defs)
  then obtain dev k where found: "wanted Linux (Some (lit ''ni-usb-hs'')) Auto dev" "dev \<in> set bench"
      "\<forall>d\<in>set bench. wanted Linux (Some (lit ''ni-usb-hs'')) Auto d \<longrightarrow> d = dev"
      "detect dev = Some k" "find_for k (Some (lit ''1-1.2'')) (Inr bench) = Inr dev"
    unfolding opened_adapter_is_the_only_match [OF dist] by (elim exE conjE)
  have "dev \<in> set (filter (wanted Linux (Some (lit ''ni-usb-hs'')) Auto) bench)" using found(1,2) by simp
  then have "dev \<in> set [bench ! 1]" unfolding bench_wanted .
  then have dev: "dev = bench ! 1" by simp
  have kind: "k = NiUsbHs" using found(4) unfolding dev by (simp add: bench_defs)
  show ?thesis using dist opened found unfolding dev kind by (intro conjI)
qed

theorem removal_is_noticed_witness:
  "open_selected Linux (Inr bench) bench_drivers Auto (Some (lit ''ni-usb-hs'')) 1000 = Inr (2, lit ''1-1.2'') \<and>
   (\<exists>n. wait_for_removal Linux (lit ''1-1.2'') [Inr bench, Inl [], Inr [bench ! 0], Inr []] = Some n)"
proof -
  have opened: "open_selected Linux (Inr bench) bench_drivers Auto (Some (lit ''ni-usb-hs'')) 1000 = Inr (2, lit ''1-1.2'')"
    unfolding open_selected_Inr bench_wanted by (simp add: bench_defs)
  have "gone Linux (lit ''1-1.2'') (Inr [])" by (simp add: gone_def)
  then have "\<exists>l\<in>set [Inr bench, Inl [], Inr [bench ! 0], Inr []]. gone Linux (lit ''1-1.2'') l" by simp
  with opened removal_is_noticed [OF opened] show ?thesis by blast
qed

end
