(* ===== verification/Firmware.thy ===== *)
theory Firmware
  imports Select Agilent
begin

text \<open>
  Bringing up an Agilent 82357: the firmware image and its upload, \<^verbatim>\<open>src/src/backend/agilent_82357/firmware.rs\<close>,
  the wait for the adapter to come back with its new identity, \<^verbatim>\<open>initialize_device\<close> in
  \<^verbatim>\<open>src/src/backend/agilent_82357/usb.rs\<close>, and the attempts to initialise the controller, \<^verbatim>\<open>open\<close> in
  \<^verbatim>\<open>src/src/backend/agilent_82357/mod.rs\<close>. Reading an image gives \<open>None\<close> where the code panics, which is when a
  pair of digits would be cut out of the middle of a character. Device listings come with the time at which they are
  made, and a wait whose schedule runs out goes on (\<open>None\<close>). The text of the UTF-8 error does not say where it is.
\<close>

section \<open>Intel HEX\<close>

record hex_record =
  hr_address :: u16
  hr_data :: bytes

fun hex_pairs :: "bytes \<Rightarrow> bytes io option" where
  "hex_pairs (a # b # rest) =
     (if rest \<noteq> [] \<and> cont_byte (unat (hd rest)) then None
      else case from_hex 255 [unat a, unat b] of
             None \<Rightarrow> Some (Inl (lit ''invalid digit found in string''))
           | Some v \<Rightarrow> map_option (\<lambda>r. rbind r (\<lambda>vs. Inr (of_nat v # vs))) (hex_pairs rest))"
| "hex_pairs _ = Some (Inr [])"

definition hex_decode :: "rstr \<Rightarrow> bytes io option" where
  "hex_decode s =
     (let bs = as_bytes s
      in if length bs mod 2 \<noteq> 0 then Some (Inl (lit ''odd hex length'')) else hex_pairs bs)"

definition line_error :: "nat \<Rightarrow> rstr \<Rightarrow> rstr" where
  "line_error line_num what = lit ''line '' @ dec (line_num + 1) @ lit '': '' @ what"

text \<open>The bytes of one record: an error, or the record type with what the record holds.\<close>

definition check_record :: "nat \<Rightarrow> bytes \<Rightarrow> (u8 \<times> hex_record) io" where
  "check_record line_num bs =
     (if length bs < 5 then Inl (line_error line_num (lit ''too short''))
      else let byte_count = unat (bs ! 0); sum = fold (\<lambda>b acc. acc + b) bs (0 :: u8)
           in if length bs \<noteq> byte_count + 5 then Inl (line_error line_num (lit ''length mismatch''))
              else if sum \<noteq> 0 then
                Inl (line_error line_num (lit ''bad checksum (got '' @ hex (unat sum) @ lit '')''))
              else Inr (bs ! 3, \<lparr>hr_address = of_be [bs ! 1, bs ! 2], hr_data = take byte_count (drop 4 bs)\<rparr>))"

fun parse_lines :: "nat \<Rightarrow> rstr list \<Rightarrow> hex_record list io option" where
  "parse_lines line_num [] = Some (Inr [])"
| "parse_lines line_num (l # ls) =
     (let line = trim l
      in if line = [] then parse_lines (Suc line_num) ls
         else if hd line \<noteq> 58 then Some (Inl (line_error line_num (lit ''missing leading '' @ [39, 58, 39])))
         else case hex_decode (tl line) of
                None \<Rightarrow> None
              | Some (Inl e) \<Rightarrow> Some (Inl (line_error line_num (lit ''invalid hex: '' @ e)))
              | Some (Inr bs) \<Rightarrow>
                  (case check_record line_num bs of
                     Inl e \<Rightarrow> Some (Inl e)
                   | Inr (record_type, r) \<Rightarrow>
                       if record_type = 0 then map_option (\<lambda>res. rbind res (\<lambda>rs. Inr (r # rs))) (parse_lines (Suc line_num) ls)
                       else if record_type = 1 then Some (Inr [])
                       else parse_lines (Suc line_num) ls))"

definition parse_hex :: "rstr \<Rightarrow> hex_record list io option" where
  "parse_hex s = parse_lines 0 (text_lines s)"

section \<open>Upload\<close>

text \<open>A vendor control request to the device, in the order type, value, index, data, is a method of the device.\<close>

type_synonym 'd control_out = "u8 \<Rightarrow> u16 \<Rightarrow> u16 \<Rightarrow> bytes \<Rightarrow> ('d, unit) act"

abbreviation ANCHOR_LOAD_INTERNAL :: u8 where "ANCHOR_LOAD_INTERNAL \<equiv> 0xA0"

definition anchor_load :: "'d control_out \<Rightarrow> u16 \<Rightarrow> bytes \<Rightarrow> ('d, unit) act" where
  "anchor_load ctl address d =
     with_context (lit ''FX2 vendor control-out failed'') (ctl ANCHOR_LOAD_INTERNAL address 0 d)"

text \<open>\<^verbatim>\<open>{:#06x}\<close>\<close>

definition hex4 :: "u16 \<Rightarrow> rstr" where
  "hex4 w = (let ds = hex_digits (unat w) in lit ''0x'' @ replicate (4 - length ds) 48 @ ds)"

fun load_records :: "'d control_out \<Rightarrow> hex_record list \<Rightarrow> ('d, unit) act" where
  "load_records ctl [] = ret ()"
| "load_records ctl (r # rs) =
     seq (with_context (lit ''failed to write firmware record at '' @ hex4 (hr_address r))
            (anchor_load ctl (hr_address r) (hr_data r)))
       (load_records ctl rs)"

definition upload_firmware :: "'d control_out \<Rightarrow> bytes \<Rightarrow> u16 \<Rightarrow> 'd \<Rightarrow> (unit io \<times> 'd) option" where
  "upload_firmware ctl firmware cpucs_addr d =
     (case from_utf8 firmware of
        None \<Rightarrow> Some (Inl (lit ''firmware blob is not valid UTF-8''), d)
      | Some hex_text \<Rightarrow>
          (case parse_hex hex_text of
             None \<Rightarrow> None
           | Some (Inl e) \<Rightarrow> Some (Inl (lit ''failed to parse firmware HEX: '' @ e), d)
           | Some (Inr records) \<Rightarrow>
               Some (seq (with_context (lit ''failed to hold 8051 in reset'') (anchor_load ctl cpucs_addr [1]))
                      (seq (load_records ctl records)
                        (with_context (lit ''failed to release 8051 from reset'') (anchor_load ctl cpucs_addr [0]))) d)))"

section \<open>Images\<close>

text \<open>The Intel HEX format, written: a colon, then in hexadecimal the count, the address, the record type, the data
  and the byte that makes the sum zero; an image is its data records and the end record.\<close>

definition hex2 :: "u8 \<Rightarrow> rstr" where
  "hex2 b = [hex_digit (unat b div 16), hex_digit (unat b mod 16)]"

definition record_bytes :: "u8 \<Rightarrow> hex_record \<Rightarrow> bytes" where
  "record_bytes t r =
     (let body = of_nat (length (hr_data r)) # be16 (hr_address r) @ t # hr_data r in body @ [- sum_list body])"

definition record_line :: "bytes \<Rightarrow> rstr" where
  "record_line bs = 58 # concat (map hex2 bs)"

definition end_record :: hex_record where
  "end_record = \<lparr>hr_address = 0, hr_data = []\<rparr>"

definition image :: "hex_record list \<Rightarrow> rstr" where
  "image rs = concat (map (\<lambda>r. record_line (record_bytes 0 r) @ [10]) rs) @ record_line (record_bytes 1 end_record) @ [10]"

lemma text_lines_line:
  assumes "10 \<notin> set l" "last l \<noteq> 13"
  shows "text_lines (l @ 10 # rest) = l # text_lines rest"
  using assms by (auto simp: text_lines_def split_on_append strip_cr_def Let_def)

lemma trim_clean: "list_all (\<lambda>c. \<not> is_whitespace c) s \<Longrightarrow> trim s = s"
proof -
  assume clean: "list_all (\<lambda>c. \<not> is_whitespace c) s"
  have "dropWhile is_whitespace t = t" if "list_all (\<lambda>c. \<not> is_whitespace c) t" for t
    using that by (cases t) auto
  with clean show ?thesis by (simp add: trim_def trim_start_def)
qed

definition hex_char :: "nat \<Rightarrow> bool" where
  "hex_char c \<longleftrightarrow> 48 \<le> c \<and> c \<le> 58 \<or> 97 \<le> c \<and> c \<le> 102"

lemma hex_char_clean: "hex_char c \<Longrightarrow> \<not> is_whitespace c \<and> c \<noteq> 10 \<and> c \<noteq> 13 \<and> c < 128"
  by (auto simp: hex_char_def is_whitespace_def)

lemma u8_small: "unat (b :: u8) < 256"
  using unsigned_less [of b] by simp

lemma hex_digit_char: "d < 16 \<Longrightarrow> hex_char (hex_digit d)"
  by (auto simp: hex_digit_def hex_char_def)

lemma hex2_chars: "c \<in> set (hex2 b) \<Longrightarrow> hex_char c"
  using u8_small [of b] hex_digit_char [of "unat b div 16"] hex_digit_char [of "unat b mod 16"]
  by (auto simp: hex2_def)

lemma record_line_chars: "c \<in> set (record_line bs) \<Longrightarrow> hex_char c"
  using hex2_chars by (auto simp: record_line_def hex_char_def)

lemma text_lines_record: "text_lines (record_line bs @ 10 # rest) = record_line bs # text_lines rest"
proof (rule text_lines_line)
  show "10 \<notin> set (record_line bs)" using record_line_chars hex_char_clean by blast
  have "last (record_line bs) \<in> set (record_line bs)" by (intro last_in_set) (simp add: record_line_def)
  then show "last (record_line bs) \<noteq> 13" using record_line_chars hex_char_clean by blast
qed

lemma trim_record: "trim (record_line bs) = record_line bs"
  using record_line_chars hex_char_clean by (intro trim_clean) (auto simp: list_all_iff)

lemma from_hex_hex2: "from_hex 255 (hex2 b) = Some (unat b)"
proof -
  have "unat b div 16 < 16" "unat b mod 16 < 16" using u8_small [of b] by auto
  moreover have digit: "hex_digit_value (hex_digit d) = Some d" "hex_digit d \<noteq> 43" if "d < 16" for d
    using that by (auto simp: hex_digit_value_def hex_digit_def)
  moreover have "unat b div 16 * 16 + unat b mod 16 = unat b" by simp
  ultimately show ?thesis using u8_small [of b] by (simp add: from_hex_def hex2_def)
qed

lemma hex_pairs_hex2: "hex_pairs (map of_nat (concat (map hex2 bs))) = Some (Inr bs)"
proof (induction bs)
  case (Cons b bs)
  have small: "unat (of_nat c :: u8) = c \<and> \<not> cont_byte c" if "hex_char c" for c
    using that hex_char_clean [OF that] by (auto simp: of_nat_unat_len cont_byte_def)
  obtain x y where xy: "hex2 b = [x, y]" by (simp add: hex2_def)
  have "hex_char x" "hex_char y" using hex2_chars [of _ b] xy by auto
  moreover have "\<not> cont_byte (unat (hd (map of_nat (concat (map hex2 bs)) :: bytes)))" if "concat (map hex2 bs) \<noteq> []"
  proof -
    have "hd (concat (map hex2 bs)) \<in> set (concat (map hex2 bs))" using that by (rule hd_in_set)
    then have "hex_char (hd (concat (map hex2 bs)))" using hex2_chars by auto
    then show ?thesis using small that by (simp add: hd_map)
  qed
  ultimately show ?case
    using Cons.IH from_hex_hex2 [of b] small unfolding xy by (auto simp: xy)
qed simp

lemma hex_decode_line: "hex_decode (tl (record_line bs)) = Some (Inr bs)"
proof -
  let ?s = "concat (map hex2 bs)"
  have "list_all (\<lambda>c. c < 0x80) ?s" using hex2_chars hex_char_clean by (fastforce simp: list_all_iff)
  then have "as_bytes ?s = map of_nat ?s" by (rule as_bytes_ascii)
  moreover have "even (length ?s)" by (induction bs) (auto simp: hex2_def)
  ultimately show ?thesis
    using hex_pairs_hex2 [of bs] by (simp add: hex_decode_def record_line_def Let_def even_iff_mod_2_eq_zero)
qed

lemma fold_plus: "fold (\<lambda>b acc. acc + b) bs a = a + sum_list (bs :: 'a::comm_monoid_add list)"
  by (induction bs arbitrary: a) (simp_all add: add.assoc)

lemma be16_two: "\<exists>x y. be16 w = [x, y]"
  by (simp add: to_be_def numeral_2_eq_2)

lemma check_record_bytes:
  assumes "length (hr_data r) \<le> 255"
  shows "check_record n (record_bytes t r) = Inr (t, r)"
proof -
  have count: "unat (of_nat (length (hr_data r)) :: u8) = length (hr_data r)"
    using assms by (intro of_nat_unat_len) simp
  obtain x y where xy: "be16 (hr_address r) = [x, y]" using be16_two by blast
  then have address: "of_be [x, y] = hr_address r" by (metis of_be_be(1))
  show ?thesis
    by (simp add: check_record_def record_bytes_def Let_def xy count address fold_plus)
qed

lemma sum_list_update_group:
  "i < length bs \<Longrightarrow> sum_list (bs[i := b]) = sum_list bs - bs ! i + (b :: 'a::ab_group_add)"
  by (induction bs arbitrary: i) (auto split: nat.split)

text \<open>A record in which one byte was changed is refused: the sum is off by the change.\<close>

lemma check_record_changed:
  assumes "check_record n bs = Inr x" "i < length bs" "b \<noteq> bs ! i"
  shows "\<exists>e. check_record n (bs[i := b]) = Inl e"
proof -
  have "sum_list bs = 0" using assms(1) by (auto simp: check_record_def fold_plus Let_def split: if_splits)
  then have "sum_list (bs[i := b]) \<noteq> 0" using assms(2,3) by (simp add: sum_list_update_group)
  then show ?thesis by (auto simp: check_record_def fold_plus Let_def)
qed

lemma parse_record_line:
  "parse_lines n (record_line bs # ls) =
     (case check_record n bs of
        Inl e \<Rightarrow> Some (Inl e)
      | Inr (record_type, r) \<Rightarrow>
          if record_type = 0 then map_option (\<lambda>res. rbind res (\<lambda>rs. Inr (r # rs))) (parse_lines (Suc n) ls)
          else if record_type = 1 then Some (Inr [])
          else parse_lines (Suc n) ls)"
  using hex_decode_line [of bs] by (simp add: trim_record) (simp add: record_line_def)

lemma parse_good_records:
  assumes "\<forall>r\<in>set rs. length (hr_data r) \<le> 255"
  shows "parse_lines n (text_lines (concat (map (\<lambda>r. record_line (record_bytes 0 r) @ [10]) rs) @ rest)) =
    map_option (\<lambda>res. rbind res (\<lambda>trail. Inr (rs @ trail))) (parse_lines (n + length rs) (text_lines rest))"
  using assms
proof (induction rs arbitrary: n)
  case Nil
  have "rbind res Inr = res" for res :: "hex_record list io" by (cases res) simp_all
  then show ?case by (simp add: option.map_ident)
next
  case (Cons r rs)
  have "rbind (rbind res (\<lambda>trail. Inr (rs @ trail))) (\<lambda>x. Inr (r # x)) = rbind res (\<lambda>trail. Inr (r # rs @ trail))"
    for res :: "hex_record list io" by (cases res) simp_all
  with Cons show ?case
    by (simp add: text_lines_record parse_record_line check_record_bytes option.map_comp comp_def del: parse_lines.simps)
qed

lemma parse_image:
  assumes "\<forall>r\<in>set rs. length (hr_data r) \<le> 255"
  shows "parse_hex (image rs @ trail) = Some (Inr rs)"
proof -
  have "check_record n (record_bytes 1 end_record) = Inr (1, end_record)" for n
    by (rule check_record_bytes) (simp add: end_record_def)
  then show ?thesis
    using parse_good_records [OF assms, of 0 "record_line (record_bytes 1 end_record) @ 10 # trail"]
    by (simp add: parse_hex_def image_def text_lines_record parse_record_line del: parse_lines.simps)
qed

lemma image_is_text: "from_utf8 (as_bytes (image rs)) = Some (image rs)"
proof -
  have "list_all (\<lambda>c. c < 0x80) (image rs)"
    using record_line_chars hex_char_clean by (fastforce simp: list_all_iff image_def)
  then show ?thesis by (simp add: from_utf8_def Let_def lossy_as_bytes_ascii)
qed

section \<open>Properties\<close>

text \<open>C28. A firmware image in Intel HEX form is read back as exactly its records, in order, with everything after
  the end record ignored; an image in which any one byte of a record was changed (count, address, type, data or
  check sum) is refused as a whole.\<close>

theorem firmware_image_integrity:
  assumes "\<forall>r\<in>set rs. length (hr_data r) \<le> 255"
  shows "parse_hex (image rs @ trail) = Some (Inr rs) \<and>
    (\<forall>k i b. k < length rs \<and> i < length (record_bytes 0 (rs ! k)) \<and> b \<noteq> record_bytes 0 (rs ! k) ! i \<longrightarrow>
      (\<exists>e. parse_hex (concat (map (\<lambda>r. record_line (record_bytes 0 r) @ [10]) (take k rs)) @
                       record_line ((record_bytes 0 (rs ! k))[i := b]) @ 10 # trail) = Some (Inl e)))"
proof (intro conjI allI impI)
  show "parse_hex (image rs @ trail) = Some (Inr rs)" using assms by (rule parse_image)
next
  fix k i b
  assume at: "k < length rs \<and> i < length (record_bytes 0 (rs ! k)) \<and> b \<noteq> record_bytes 0 (rs ! k) ! i"
  have good: "\<forall>r\<in>set (take k rs). length (hr_data r) \<le> 255" using assms by (auto dest: in_set_takeD)
  have "length (hr_data (rs ! k)) \<le> 255" using assms at by simp
  then obtain e where "check_record k ((record_bytes 0 (rs ! k))[i := b]) = Inl e"
    using check_record_changed [OF check_record_bytes] at by blast
  then show "\<exists>e. parse_hex (concat (map (\<lambda>r. record_line (record_bytes 0 r) @ [10]) (take k rs)) @
       record_line ((record_bytes 0 (rs ! k))[i := b]) @ 10 # trail) = Some (Inl e)"
    using parse_good_records [OF good, of 0 "record_line ((record_bytes 0 (rs ! k))[i := b]) @ 10 # trail"] at
    by (simp add: parse_hex_def text_lines_record parse_record_line min_def del: parse_lines.simps)
qed

theorem firmware_image_integrity_witness:
  "parse_hex (image [\<lparr>hr_address = 0x1F00, hr_data = [0x12, 0xFF]\<rparr>] @ lit ''tail'') =
     Some (Inr [\<lparr>hr_address = 0x1F00, hr_data = [0x12, 0xFF]\<rparr>]) \<and>
   (\<exists>e. parse_hex (record_line ((record_bytes 0 \<lparr>hr_address = 0x1F00, hr_data = [0x12, 0xFF]\<rparr>)[4 := 0x13]) @ 10 # lit ''tail'') =
     Some (Inl e))"
proof -
  let ?r = "\<lparr>hr_address = 0x1F00, hr_data = [0x12, 0xFF]\<rparr>"
  have hyp: "\<forall>r\<in>set [?r]. length (hr_data r) \<le> 255" by simp
  obtain x y where "be16 (0x1F00 :: u16) = [x, y]" using be16_two by blast
  then have "4 < length (record_bytes 0 ?r) \<and> (0x13 :: u8) \<noteq> record_bytes 0 ?r ! 4"
    by (simp add: record_bytes_def Let_def)
  then have "0 < length [?r] \<and> 4 < length (record_bytes 0 ([?r] ! 0)) \<and> (0x13 :: u8) \<noteq> record_bytes 0 ([?r] ! 0) ! 4"
    by (simp only: nth_Cons_0 list.size) simp
  note changed = conjunct2 [OF firmware_image_integrity [OF hyp, of "lit ''tail''"], rule_format, OF this]
  show ?thesis using conjunct1 [OF firmware_image_integrity [OF hyp, of "lit ''tail''"]] changed
    by (simp only: take_0 list.map concat.simps append_Nil nth_Cons_0 simp_thms)
qed

text \<open>What a device that keeps a record of its control requests has seen.\<close>

definition upload_plan :: "u16 \<Rightarrow> hex_record list \<Rightarrow> (u8 \<times> u16 \<times> u16 \<times> bytes) list" where
  "upload_plan cpucs rs =
     (0xA0, cpucs, 0, [1]) # map (\<lambda>r. (0xA0, hr_address r, 0, hr_data r)) rs @ [(0xA0, cpucs, 0, [0])]"

lemma anchor_load_sends:
  assumes "\<And>q v i d s. sent (snd (ctl q v i d s)) = sent s @ [(q, v, i, d)]"
  shows "sent (snd (anchor_load ctl a d s)) = sent s @ [(0xA0, a, 0, d)]"
  using assms [of "0xA0" a 0 d s] by (auto simp: anchor_load_def with_context_def split: prod.splits sum.splits)

lemma load_records_sends:
  assumes "\<And>q v i d s. sent (snd (ctl q v i d s)) = sent s @ [(q, v, i, d)]"
  shows "case load_records ctl rs s of
      (Inr _, s') \<Rightarrow> sent s' = sent s @ map (\<lambda>r. (0xA0, hr_address r, 0, hr_data r)) rs
    | (Inl _, s') \<Rightarrow> \<exists>n \<le> length rs. sent s' = sent s @ take n (map (\<lambda>r. (0xA0, hr_address r, 0, hr_data r)) rs)"
proof (induction rs arbitrary: s)
  case (Cons r rs)
  obtain x s1 where first: "anchor_load ctl (hr_address r) (hr_data r) s = (x, s1)" by fastforce
  have s1: "sent s1 = sent s @ [(0xA0, hr_address r, 0, hr_data r)]"
    using anchor_load_sends [OF assms, of "hr_address r" "hr_data r" s] first by simp
  show ?case
  proof (cases x)
    case (Inl e)
    then show ?thesis using s1 first by (auto simp: act_defs intro!: exI [of _ 1])
  next
    case (Inr u)
    show ?thesis
      using Cons.IH [of s1] s1 first Inr
      by (auto simp: act_defs split: prod.splits sum.splits)
  qed
qed (simp add: ret_def)


text \<open>A device that takes every request.\<close>

definition recorder :: "(u8 \<times> u16 \<times> u16 \<times> bytes) list control_out" where
  "recorder q v i d log = (Inr (), log @ [(q, v, i, d)])"


end
