(* ===== verification/Agilent_Usb.thy ===== *)
theory Agilent_Usb
  imports Firmware Usb_Pipe
begin

text \<open>
  The USB side of the Agilent 82357, \<^verbatim>\<open>src/src/backend/agilent_82357/usb.rs\<close>: bulk transfers, the task that polls the
  interrupt endpoint, finding an adapter and loading its firmware, and the \<^verbatim>\<open>open\<close> of
  \<^verbatim>\<open>src/src/backend/agilent_82357/mod.rs\<close> on top of it. Interrupt completions reach the transport through the
  poller; those that arrive during each wait for the end of a write are part of the state.
\<close>

section \<open>The interrupt poller\<close>

text \<open>A write awaits its completion without a limit.\<close>

record 'h agilent_pipe = "'h usb_pipe" +
  ap_complete_out :: "'h \<Rightarrow> unit io \<times> 'h"

datatype transfer_error = Cancelled | Stall | Disconnected | Fault | OtherError rstr

datatype poller_action = Recover | Stop

fun classify_error :: "transfer_error \<Rightarrow> poller_action" where
  "classify_error Cancelled = Stop"
| "classify_error Disconnected = Stop"
| "classify_error _ = Recover"

type_synonym completion = "transfer_error + bytes"

record 'h agilent_usb =
  au_io :: 'h
  au_write_complete :: bool
  au_srq_sent :: nat
  au_backoff :: nat
  au_polling :: bool
  au_timeout_ms :: u32
  au_unfinished :: "(nat \<times> nat \<times> bytes) option"
  au_arriving :: "completion list list"

abbreviation IRQ_RECOVER_MIN :: nat where "IRQ_RECOVER_MIN \<equiv> 50"
abbreviation IRQ_RECOVER_MAX :: nat where "IRQ_RECOVER_MAX \<equiv> 1000"

text \<open>One completion: a permit for whoever waits for the end of a write (\<^verbatim>\<open>notify_one\<close> keeps at most one) and a
  service-request notification, as the flags say; after a transient error the endpoint is used again, after a
  pause that doubles.\<close>

definition interrupt_turn :: "completion \<Rightarrow> 'h agilent_usb \<Rightarrow> 'h agilent_usb" where
  "interrupt_turn c u =
     (case c of
        Inr buffer \<Rightarrow>
          let flags = (case buffer of b # _ \<Rightarrow> b | [] \<Rightarrow> 0)
          in u\<lparr>au_backoff := IRQ_RECOVER_MIN,
               au_write_complete := au_write_complete u \<or> bit flags 1,
               au_srq_sent := au_srq_sent u + (if bit flags 0 then 1 else 0)\<rparr>
      | Inl e \<Rightarrow>
          (case classify_error e of
             Stop \<Rightarrow> u\<lparr>au_polling := False\<rparr>
           | Recover \<Rightarrow> u\<lparr>au_backoff := min (au_backoff u * 2) IRQ_RECOVER_MAX\<rparr>))"

fun interrupt_poller :: "completion list \<Rightarrow> 'h agilent_usb \<Rightarrow> 'h agilent_usb" where
  "interrupt_poller [] u = u"
| "interrupt_poller (c # cs) u = (if au_polling u then interrupt_poller cs (interrupt_turn c u) else u)"

section \<open>Bulk transfers\<close>

definition new_agilent_usb :: "'h \<Rightarrow> u32 \<Rightarrow> completion list list \<Rightarrow> 'h agilent_usb" where
  "new_agilent_usb io timeout_ms arriving =
     \<lparr>au_io = io, au_write_complete = False, au_srq_sent = 0, au_backoff = IRQ_RECOVER_MIN, au_polling = True,
      au_timeout_ms = timeout_ms, au_unfinished = None, au_arriving = arriving\<rparr>"

fun quiesce_reads :: "'h agilent_pipe \<Rightarrow> nat \<Rightarrow> 'h \<Rightarrow> 'h" where
  "quiesce_reads up 0 h = h"
| "quiesce_reads up (Suc n) h =
     (case up_next_in up 100 (up_submit_in up (round_up (max 1 (up_max_packet_size up h)) 0x40) h) of
        (Some (Inr buffer), h1) \<Rightarrow> if buffer \<noteq> [] then quiesce_reads up n h1 else h1
      | (_, h1) \<Rightarrow> h1)"

definition quiesce_bulk :: "'h agilent_pipe \<Rightarrow> 'h \<Rightarrow> 'h" where
  "quiesce_bulk up h = quiesce_reads up 3 (up_clear_halt up h)"

text \<open>A method on the endpoints as a method of the transport.\<close>

definition on_pipe :: "('h \<Rightarrow> 'a \<times> 'h) \<Rightarrow> 'h agilent_usb \<Rightarrow> 'a \<times> 'h agilent_usb" where
  "on_pipe f u = (case f (au_io u) of (r, h) \<Rightarrow> (r, u\<lparr>au_io := h\<rparr>))"

definition write_bulk :: "'h agilent_pipe \<Rightarrow> bytes \<Rightarrow> ('h agilent_usb, unit) act" where
  "write_bulk up d = on_pipe (\<lambda>h. with_context (lit ''bulk-out failed'') (ap_complete_out up) (up_submit_out up d h))"

text \<open>Packets up to the first short one or the wanted length. With the deadline passed in the middle of a transfer
  the read is unfinished: the transfer stays submitted and what was read so far is kept for whoever polls the same
  read again.\<close>

function read_packets ::
  "'h agilent_pipe \<Rightarrow> nat \<Rightarrow> nat \<Rightarrow> nat \<Rightarrow> bool \<Rightarrow> bytes \<Rightarrow> 'h \<Rightarrow> (bytes io + bytes) \<times> 'h" where
  "read_packets up mps deadline max_len submitted acc h =
     (if length acc < max_len then
        let h0 = (if submitted then h else up_submit_in up (round_up mps (max 1 (max_len - length acc))) h)
        in case up_next_in up (deadline - up_now up h0) h0 of
             (None, h1) \<Rightarrow> (Inr acc, h1)
           | (Some (Inl e), h1) \<Rightarrow> (Inl (Inl (lit ''bulk-in failed: '' @ e)), h1)
           | (Some (Inr chunk), h1) \<Rightarrow>
               if length chunk mod mps \<noteq> 0 \<or> chunk = [] then (Inl (Inr (acc @ chunk)), h1)
               else read_packets up mps deadline max_len False (acc @ chunk) h1
      else (Inl (Inr acc), h))"
  by pat_completeness auto
termination
  by (relation "measure (\<lambda>(up, mps, deadline, max_len, submitted, acc, h). max_len - length acc)")
     (auto intro!: diff_less_mono2)

declare read_packets.simps [simp del]

definition settle_read ::
  "nat \<Rightarrow> nat \<Rightarrow> (bytes io + bytes) \<times> 'h \<Rightarrow> 'h agilent_usb \<Rightarrow> bytes io option \<times> 'h agilent_usb" where
  "settle_read max_len mps outcome u =
     (case outcome of
        (Inl r, h) \<Rightarrow> (Some r, u\<lparr>au_io := h, au_unfinished := None\<rparr>)
      | (Inr acc, h) \<Rightarrow> (None, u\<lparr>au_io := h, au_unfinished := Some (max_len, mps, acc)\<rparr>))"

definition read_bulk :: "'h agilent_pipe \<Rightarrow> nat \<Rightarrow> nat \<Rightarrow> 'h agilent_usb \<Rightarrow> bytes io option \<times> 'h agilent_usb" where
  "read_bulk up max_len ms u =
     (let mps = max 1 (up_max_packet_size up (au_io u))
      in settle_read max_len mps (read_packets up mps (up_now up (au_io u) + ms) max_len False [] (au_io u)) u)"

definition resume_read :: "'h agilent_pipe \<Rightarrow> nat \<Rightarrow> 'h agilent_usb \<Rightarrow> bytes io option \<times> 'h agilent_usb" where
  "resume_read up ms u =
     (case au_unfinished u of
        None \<Rightarrow> (None, u)
      | Some (max_len, mps, acc) \<Rightarrow>
          settle_read max_len mps (read_packets up mps (up_now up (au_io u) + ms) max_len True acc (au_io u)) u)"

fun drain_bulk_in :: "'h agilent_pipe \<Rightarrow> nat \<Rightarrow> 'h agilent_usb \<Rightarrow> 'h agilent_usb" where
  "drain_bulk_in up 0 u = u"
| "drain_bulk_in up (Suc n) u =
     (case read_bulk up 1024 50 u of
        (Some (Inr buf), u1) \<Rightarrow> if buf \<noteq> [] then drain_bulk_in up n u1 else u1
      | (_, u1) \<Rightarrow> u1)"

section \<open>The end of a write\<close>

text \<open>Waiting takes the permit that is there, or the first one that the poller hands out in time; completions that
  arrive after it go on to the poller.\<close>

fun await_permit :: "completion list \<Rightarrow> 'h agilent_usb \<Rightarrow> unit io \<times> 'h agilent_usb" where
  "await_permit cs u =
     (if au_write_complete u then (Inr (), interrupt_poller cs (u\<lparr>au_write_complete := False\<rparr>))
      else case cs of
             [] \<Rightarrow> (Inl (lit ''timeout waiting for write-complete interrupt: deadline has elapsed''), u)
           | c # rest \<Rightarrow> await_permit rest (interrupt_poller [c] u))"

definition await_write_complete :: "('h agilent_usb, unit) act" where
  "await_write_complete u =
     (case au_arriving u of
        [] \<Rightarrow> await_permit [] u
      | cs # later \<Rightarrow> await_permit cs (u\<lparr>au_arriving := later\<rparr>))"

definition drain_write_complete :: "'h agilent_usb \<Rightarrow> 'h agilent_usb" where
  "drain_write_complete u = u\<lparr>au_write_complete := False\<rparr>"

section \<open>The transport of the controller\<close>

definition agilent_control_in :: "'h agilent_pipe \<Rightarrow> u8 \<Rightarrow> u16 \<Rightarrow> u16 \<Rightarrow> nat \<Rightarrow> ('h agilent_usb, bytes) act" where
  "agilent_control_in up request v index max_len =
     on_pipe (with_context (lit ''control-in failed'') (up_control_in up request v index (max_len mod 2 ^ 16)))"

definition agilent_usb_transport :: "'h agilent_pipe \<Rightarrow> 'h agilent_usb transport" where
  "agilent_usb_transport up =
     \<lparr>tr_write_bulk = write_bulk up, tr_read_bulk = read_bulk up, tr_resume = resume_read up,
      tr_control_in = agilent_control_in up, tr_await_write_complete = await_write_complete,
      tr_drain_write_complete = drain_write_complete, tr_drain_bulk_in = drain_bulk_in up 8, tr_can_srq = (\<lambda>_. True)\<rparr>"

section \<open>Finding and loading an adapter\<close>

text \<open>What the machine offers: opening a device, control requests to it, claiming its interface and endpoints, and
  the bulk endpoints of the device that was claimed last.\<close>

record 'w usb_host =
  uh_open :: "usb_device \<Rightarrow> ('w, unit) act"
  uh_control :: "usb_device \<Rightarrow> 'w control_out"
  uh_claim :: "usb_device \<Rightarrow> u8 \<Rightarrow> ('w, unit) act"
  uh_endpoint :: "usb_device \<Rightarrow> u8 \<Rightarrow> ('w, unit) act"
  uh_pipe :: "'w agilent_pipe"

type_synonym listing_schedule = "(nat \<times> usb_device list io) list"

abbreviation EP_BULK_IN :: u8 where "EP_BULK_IN \<equiv> 0x82"

definition open_endpoints :: "'w usb_host \<Rightarrow> agilent_model \<Rightarrow> usb_device \<Rightarrow> ('w, unit) act" where
  "open_endpoints host model dev =
     seq (with_context (lit ''open interrupt endpoint '' @ hex_u8 (md_irq_in_ep model)) (uh_endpoint host dev (md_irq_in_ep model)))
     (seq (with_context (lit ''open bulk-out endpoint '' @ hex_u8 (md_bulk_out_ep model)) (uh_endpoint host dev (md_bulk_out_ep model)))
       (with_context (lit ''open bulk-in endpoint '' @ hex_u8 EP_BULK_IN) (uh_endpoint host dev EP_BULK_IN)))"

text \<open>The transport is known by the device it is open on.\<close>

definition open_transport :: "'w usb_host \<Rightarrow> agilent_model \<Rightarrow> usb_device \<Rightarrow> ('w, usb_device) act" where
  "open_transport host model dev =
     seq (with_context (lit ''failed to open USB device'') (uh_open host dev))
     (seq (with_context (lit ''failed to claim interface 0 '' @ [8212] @ lit '' is another process using the adapter?'') (uh_claim host dev 0))
     (seq (open_endpoints host model dev)
     (seq (modify (quiesce_bulk (uh_pipe host))) (ret dev))))"

text \<open>The wait for the adapter to come back takes the listings of its schedule in turn, each with the milliseconds
  since the wait began. The outer \<^const>\<open>None\<close> is a wait that goes on, the inner one the limit of ten seconds.\<close>

fun await_departure :: "rstr \<Rightarrow> u8 \<Rightarrow> listing_schedule \<Rightarrow> (unit io option \<times> listing_schedule) option" where
  "await_departure bus addr [] = None"
| "await_departure bus addr ((t, listing) # rest) =
     (if 10000 < t then Some (None, rest)
      else case listing of
             Inl e \<Rightarrow> Some (Some (Inl (lit ''failed to list USB devices: '' @ e)), rest)
           | Inr devs \<Rightarrow>
               if \<not> list_ex (\<lambda>d. ud_bus d = bus \<and> ud_address d = addr) devs \<or> 3000 \<le> t then Some (Some (Inr ()), rest)
               else await_departure bus addr rest)"

fun await_return :: "agilent_model \<Rightarrow> rstr option \<Rightarrow> listing_schedule \<Rightarrow> (usb_device \<times> u16) io option option" where
  "await_return model port [] = None"
| "await_return model port ((t, listing) # rest) =
     (if 10000 < t then Some None
      else case listing of
             Inl e \<Rightarrow> Some (Some (Inl (lit ''failed to list USB devices: '' @ e)))
           | Inr devs \<Rightarrow>
               (case find (\<lambda>d. ud_vendor d = USB_VID_AGILENT \<and>
                               (ud_product d = md_pid_ready model \<or> ud_product d = md_pid_preinit model) \<and>
                               (case port of None \<Rightarrow> True | Some want \<Rightarrow> ud_port d = want)) devs of
                  Some d \<Rightarrow> Some (Some (Inr (d, ud_product d)))
                | None \<Rightarrow> await_return model port rest))"

definition wait_for_renumeration ::
  "agilent_model \<Rightarrow> rstr option \<Rightarrow> rstr \<Rightarrow> u8 \<Rightarrow> listing_schedule \<Rightarrow> (usb_device \<times> u16) io option option" where
  "wait_for_renumeration model port bus addr schedule =
     (case await_departure bus addr schedule of
        None \<Rightarrow> None
      | Some (None, _) \<Rightarrow> Some None
      | Some (Some (Inl e), _) \<Rightarrow> Some (Some (Inl e))
      | Some (Some (Inr _), rest) \<Rightarrow> await_return model port rest)"

definition attempt_text :: "nat \<Rightarrow> rstr" where
  "attempt_text k = lit '' (attempt '' @ dec k @ lit '')''"

text \<open>The uploads, one per schedule of the wait that follows it; the code allows two.\<close>

fun upload_attempts ::
  "'w usb_host \<Rightarrow> agilent_model \<Rightarrow> bytes \<Rightarrow> rstr option \<Rightarrow> nat \<Rightarrow> listing_schedule list \<Rightarrow> usb_device \<Rightarrow> 'w \<Rightarrow>
   (usb_device io \<times> 'w) option" where
  "upload_attempts host model firmware port k [] current w =
     Some (Inl (lit ''device still pre-init ('' @ hex4 (md_pid_preinit model) @ lit '') after two upload attempts''), w)"
| "upload_attempts host model firmware port k (schedule # more_waits) current w =
     (case with_context (lit ''failed to open pre-init device'' @ attempt_text k) (uh_open host current) w of
        (Inl e, w1) \<Rightarrow> Some (Inl e, w1)
      | (Inr _, w1) \<Rightarrow>
          (case upload_firmware (uh_control host current) firmware (md_cpucs_addr model) w1 of
             None \<Rightarrow> None
           | Some (Inl e, w2) \<Rightarrow> Some (Inl (lit ''firmware upload failed'' @ attempt_text k @ lit '': '' @ e), w2)
           | Some (Inr _, w2) \<Rightarrow>
               (case wait_for_renumeration model port (ud_bus current) (ud_address current) schedule of
                  None \<Rightarrow> None
                | Some None \<Rightarrow>
                    Some (Inl (lit ''timeout waiting for renumeration on attempt '' @ dec k @ lit '': deadline has elapsed''), w2)
                | Some (Some (Inl e)) \<Rightarrow> Some (Inl e, w2)
                | Some (Some (Inr (new_info, new_pid))) \<Rightarrow>
                    if new_pid = md_pid_ready model then Some (open_transport host model new_info w2)
                    else upload_attempts host model firmware port (Suc k) more_waits new_info w2)))"

definition initialize_device ::
  "'w usb_host \<Rightarrow> agilent_model \<Rightarrow> bytes option \<Rightarrow> rstr option \<Rightarrow> usb_device list io \<Rightarrow>
   listing_schedule \<Rightarrow> listing_schedule \<Rightarrow> 'w \<Rightarrow> ((select_error, usb_device) result \<times> 'w) option" where
  "initialize_device host model firmware port listing first_wait second_wait w =
     (case agilent_find_device model port listing of
        Inl e \<Rightarrow> Some (Inl e, w)
      | Inr (dev_info, pid) \<Rightarrow>
          map_option (\<lambda>(r, w1). (map_err OpenFailed r, w1))
            (if pid = md_pid_ready model then Some (open_transport host model dev_info w)
             else case firmware of
                    None \<Rightarrow>
                      Some (Inl (md_id model @ lit '' is in pre-firmware state (PID '' @ hex4 (md_pid_preinit model) @
                        lit '') but its firmware image is not bundled; load it externally (e.g. fxload) or connect an already-initialized adapter''), w)
                  | Some blob \<Rightarrow> upload_attempts host model blob port 1 [first_wait, second_wait] dev_info w))"

section \<open>Opening\<close>

text \<open>Up to three rounds of aborting what the adapter may still hold and initialising the controller; the error of
  the last round is the result when none succeeds.\<close>

fun init_rounds :: "'u transport \<Rightarrow> nat \<Rightarrow> rstr \<Rightarrow> ('u controller, unit) act" where
  "init_rounds tr 0 last_err = bail last_err"
| "init_rounds tr (Suc n) last_err =
     seq (ignoring (abort tr True)) (seq (ignoring (abort tr False))
       (andthen (attempt (init tr 0)) (\<lambda>r. case r of Inr _ \<Rightarrow> ret () | Inl e \<Rightarrow> init_rounds tr n e)))"

definition open_controller :: "'u transport \<Rightarrow> 'u \<Rightarrow> u32 \<Rightarrow> unit io \<times> 'u controller" where
  "open_controller tr transport timeout_ms = init_rounds tr 3 [] (new_controller transport timeout_ms)"

section \<open>Which device is written to\<close>

text \<open>A method adds only devices with a property to a log.\<close>

definition logs_only :: "('w \<Rightarrow> usb_device list) \<Rightarrow> (usb_device \<Rightarrow> bool) \<Rightarrow> 'w \<Rightarrow> 'w \<Rightarrow> bool" where
  "logs_only touched P w w' \<longleftrightarrow> (\<exists>l. touched w' = touched w @ l \<and> list_all P l)"

lemma logs_only_refl [simp]: "logs_only touched P w w"
  by (simp add: logs_only_def)

lemma logs_only_trans [trans]: "logs_only touched P w1 w2 \<Longrightarrow> logs_only touched P w2 w3 \<Longrightarrow> logs_only touched P w1 w3"
  by (auto simp: logs_only_def)

lemma logs_only_same: "touched w' = touched w \<Longrightarrow> logs_only touched P w w'"
  by (simp add: logs_only_def)

lemma anchor_load_logs:
  assumes "\<And>q v i d s. touched (snd (ctl q v i d s)) = touched s @ [dev]" "P dev"
  shows "logs_only touched P s (snd (anchor_load ctl a d s))"
proof -
  have "snd (anchor_load ctl a d s) = snd (ctl 0xA0 a 0 d s)"
    by (auto simp: anchor_load_def with_context_def split: prod.split sum.split)
  then show ?thesis using assms by (simp add: logs_only_def)
qed

lemma snd_with_context [simp]: "snd (with_context c m s) = snd (m s)"
  by (auto simp: with_context_def split: prod.split sum.split)

lemma seq_logs:
  assumes "logs_only touched P s (snd (m s))" "\<And>s. logs_only touched P s (snd (k s))"
  shows "logs_only touched P s (snd (seq m k s))"
  using assms logs_only_trans by (fastforce simp: seq_def andthen_def split: prod.splits sum.splits)

lemma load_records_logs:
  assumes "\<And>q v i d s. touched (snd (ctl q v i d s)) = touched s @ [dev]" "P dev"
  shows "logs_only touched P s (snd (load_records ctl rs s))"
  by (induction rs arbitrary: s) (auto simp: ret_def intro!: seq_logs anchor_load_logs [where touched = touched and ctl = ctl and dev = dev and P = P, OF assms])

lemma upload_logs:
  assumes "\<And>q v i d s. touched (snd (ctl q v i d s)) = touched s @ [dev]" "P dev"
    and "upload_firmware ctl firmware cpucs s = Some (r, s')"
  shows "logs_only touched P s s'"
proof -
  have "logs_only touched P s (snd (seq (with_context c (anchor_load ctl cpucs [1]))
      (seq (load_records ctl rs) (with_context c' (anchor_load ctl cpucs [0]))) s))" for rs c c'
    by (intro seq_logs) (auto intro!: anchor_load_logs [where touched = touched and ctl = ctl and dev = dev and P = P, OF assms(1,2)] load_records_logs [where touched = touched and ctl = ctl and dev = dev and P = P, OF assms(1,2)])
  then show ?thesis
    using assms(3) by (auto simp: upload_firmware_def split: option.splits sum.splits) (metis snd_conv)
qed

text \<open>A machine whose log gets the device of every control request and nothing else.\<close>

definition logging_host :: "('w \<Rightarrow> usb_device list) \<Rightarrow> 'w usb_host \<Rightarrow> bool" where
  "logging_host touched host \<longleftrightarrow>
     (\<forall>dev q v i d s. touched (snd (uh_control host dev q v i d s)) = touched s @ [dev]) \<and>
     (\<forall>dev. keeps touched (uh_open host dev)) \<and> (\<forall>dev n. keeps touched (uh_claim host dev n)) \<and>
     (\<forall>dev n. keeps touched (uh_endpoint host dev n)) \<and> (\<forall>s. touched (quiesce_bulk (uh_pipe host) s) = touched s)"

lemma open_transport_keeps: "logging_host touched host \<Longrightarrow> keeps touched (open_transport host model dev)"
  by (auto simp: logging_host_def open_transport_def open_endpoints_def keeps_def act_defs split: prod.splits sum.splits)
     (metis snd_conv)+

lemma open_transport_device: "open_transport host model dev w = (Inr d, w') \<Longrightarrow> d = dev"
  by (auto simp: open_transport_def act_defs split: prod.splits sum.splits)

definition at_port :: "agilent_model \<Rightarrow> rstr option \<Rightarrow> usb_device \<Rightarrow> bool" where
  "at_port model port d \<longleftrightarrow>
     ud_vendor d = USB_VID_AGILENT \<and> (ud_product d = md_pid_ready model \<or> ud_product d = md_pid_preinit model) \<and>
     (\<forall>p. port = Some p \<longrightarrow> ud_port d = p)"

lemma at_port_pid: "at_port model port d \<Longrightarrow> ud_product d \<noteq> md_pid_ready model \<Longrightarrow> ud_product d = md_pid_preinit model"
  by (simp add: at_port_def)

lemma at_port_alt:
  "at_port model port d \<longleftrightarrow> ud_vendor d = USB_VID_AGILENT \<and>
     (ud_product d = md_pid_ready model \<or> ud_product d = md_pid_preinit model) \<and>
     (case port of None \<Rightarrow> True | Some want \<Rightarrow> ud_port d = want)"
  by (cases port) (auto simp: at_port_def)

lemma await_return_at:
  "await_return model port schedule = Some (Some (Inr (d, pid))) \<Longrightarrow> at_port model port d \<and> pid = ud_product d"
  by (induction schedule)
     (auto simp: at_port_alt find_Some_iff split: if_splits sum.splits option.splits)

lemma wait_for_renumeration_at:
  "wait_for_renumeration model port bus addr schedule = Some (Some (Inr (d, pid))) \<Longrightarrow> at_port model port d \<and> pid = ud_product d"
  by (auto simp: wait_for_renumeration_def split: option.splits sum.splits prod.splits dest: await_return_at)

lemma agilent_find_device_at:
  "agilent_find_device model port listing = Inr (d, pid) \<Longrightarrow> at_port model port d \<and> pid = ud_product d"
  by (cases listing)
     (auto simp: agilent_find_device_def first_device_def at_port_alt rbind_Inr_iff find_Some_iff split: option.splits)

abbreviation unloaded_at :: "agilent_model \<Rightarrow> rstr option \<Rightarrow> usb_device \<Rightarrow> bool" where
  "unloaded_at model port d \<equiv> at_port model port d \<and> ud_product d = md_pid_preinit model"

lemma upload_once:
  assumes host: "logging_host touched host" and cur: "unloaded_at model port current"
    and run: "upload_attempts host model firmware port k (schedule # waits) current w = Some (r, w')"
  obtains (failed) e where "r = Inl e" "logs_only touched (unloaded_at model port) w w'"
  | (ready) d w2 where "logs_only touched (unloaded_at model port) w w2" "at_port model port d" "ud_product d = md_pid_ready model"
      "open_transport host model d w2 = (r, w')"
  | (again) d w2 where "logs_only touched (unloaded_at model port) w w2" "unloaded_at model port d"
      "upload_attempts host model firmware port (Suc k) waits d w2 = Some (r, w')"
proof -
  obtain r1 w1 where opened: "uh_open host current w = (r1, w1)" by (cases "uh_open host current w")
  have "touched (snd (uh_open host current w)) = touched w" using host by (simp add: logging_host_def keeps_def)
  then have step1: "logs_only touched (unloaded_at model port) w w1" unfolding opened by (simp add: logs_only_same)
  show thesis
  proof (cases r1)
    case (Inl e)
    then show thesis using run opened step1 failed by (auto simp: with_context_def)
  next
    case (Inr x)
    note run1 = run [simplified, unfolded with_context_def opened prod.case, simplified Inr, simplified]
    obtain r2 w2 where up: "upload_firmware (uh_control host current) firmware (md_cpucs_addr model) w1 = Some (r2, w2)"
      using run1 by (cases "upload_firmware (uh_control host current) firmware (md_cpucs_addr model) w1") auto
    have "touched (snd (uh_control host current q v i d s)) = touched s @ [current]" for q v i d s
      using host by (simp add: logging_host_def)
    from logs_only_trans [OF step1 upload_logs [where touched = touched and ctl = "uh_control host current" and dev = current and P = "unloaded_at model port", OF this cur up]]
    have step2: "logs_only touched (unloaded_at model port) w w2" .
    show thesis
      using run1 [unfolded up, simplified] step2 failed
      by (auto split: sum.splits option.splits if_splits dest!: wait_for_renumeration_at)
         (blast intro: ready [OF step2] again [OF step2] at_port_pid)+
  qed
qed

lemma upload_attempts_safe:
  assumes host: "logging_host touched host" and "unloaded_at model port current"
    and "upload_attempts host model firmware port k waits current w = Some (r, w')"
  shows "logs_only touched (unloaded_at model port) w w' \<and>
    (\<forall>d. r = Inr d \<longrightarrow> at_port model port d \<and> ud_product d = md_pid_ready model)"
  using assms(2-)
proof (induction waits arbitrary: k current w)
  case Nil
  then show ?case by auto
next
  case (Cons schedule waits)
  show ?case
    using host Cons.prems
  proof (cases rule: upload_once)
    case (failed e)
    then show ?thesis by simp
  next
    case (ready d w2)
    have "touched w' = touched w2"
      using keepsD [OF open_transport_keeps [OF host], of model d w2] ready(4) by simp
    then show ?thesis
      using logs_only_trans [OF ready(1) logs_only_same] ready(2,3) open_transport_device [of host model d w2] ready(4) by auto
  next
    case (again d w2)
    with Cons.IH [OF again(2,3)] logs_only_trans [OF again(1)] show ?thesis by simp
  qed
qed

text \<open>C22. Bringing up an adapter: the transport handed over is open on a device of the model at the chosen port that runs its
  firmware, and on the way firmware is written to no device but a pre-firmware one of the model at that port, also when
  identical adapters share the bus and the adapter comes back under another address.\<close>

theorem firmware_goes_to_the_chosen_adapter:
  assumes "logging_host touched host"
    and "initialize_device host model firmware (Some p) listing wait1 wait2 w = Some (r, w')"
  shows "(\<exists>l. touched w' = touched w @ l \<and>
             (\<forall>d\<in>set l. ud_vendor d = 0x0957 \<and> ud_product d = md_pid_preinit model \<and> ud_port d = p)) \<and>
    (\<forall>d. r = Inr d \<longrightarrow> ud_vendor d = 0x0957 \<and> ud_product d = md_pid_ready model \<and> ud_port d = p)"
proof -
  have "logs_only touched (unloaded_at model (Some p)) w w' \<and> (\<forall>d. r = Inr d \<longrightarrow> at_port model (Some p) d \<and> ud_product d = md_pid_ready model)"
  proof (cases "agilent_find_device model (Some p) listing")
    case (Inl e)
    then show ?thesis using assms(2) by (auto simp: initialize_device_def)
  next
    case (Inr found)
    obtain dev pid where found: "found = (dev, pid)" by fastforce
    note at = agilent_find_device_at [OF Inr [unfolded found]]
    show ?thesis
    proof (cases "pid = md_pid_ready model")
      case True
      then obtain r1 where "open_transport host model dev w = (r1, w')" "r = map_err OpenFailed r1"
        using assms(2) Inr found by (auto simp: initialize_device_def split: prod.splits)
      moreover from this have "touched w' = touched w"
        using open_transport_keeps [OF assms(1), of model dev] by (metis keepsD snd_conv)
      ultimately show ?thesis
        using at True open_transport_device [of host model dev w]
        by (cases r1) (simp_all add: logs_only_same)
    next
      case False
      then have pre: "unloaded_at model (Some p) dev" using at by (auto simp: at_port_def)
      show ?thesis
      proof (cases firmware)
        case None
        then show ?thesis using assms(2) Inr found False by (auto simp: initialize_device_def)
      next
        case (Some blob)
        then obtain r1 where "upload_attempts host model blob (Some p) 1 [wait1, wait2] dev w = Some (r1, w')"
            "r = map_err OpenFailed r1"
          using assms(2) Inr found False by (auto simp: initialize_device_def)
        with upload_attempts_safe [OF assms(1) pre, of blob 1 "[wait1, wait2]" w r1 w'] show ?thesis
          by (cases r1) simp_all
      qed
    qed
  qed
  then show ?thesis by (auto simp: logs_only_def at_port_def list_all_iff)
qed

text \<open>A machine without surprises: opening and claiming succeed, control requests are logged.\<close>

definition quiet_host :: "usb_device list usb_host" where
  "quiet_host =
     \<lparr>uh_open = (\<lambda>_. ret ()), uh_control = (\<lambda>dev _ _ _ _ log. (Inr (), log @ [dev])), uh_claim = (\<lambda>_ _. ret ()),
      uh_endpoint = (\<lambda>_ _. ret ()),
      uh_pipe = \<lparr>up_submit_out = (\<lambda>_ h. h), up_next_out = (\<lambda>_ h. (Some (Inr ()), h)), up_submit_in = (\<lambda>_ h. h),
        up_next_in = (\<lambda>_ h. (None, h)), up_max_packet_size = (\<lambda>_. 64), up_clear_halt = (\<lambda>h. h),
        up_control_in = (\<lambda>_ _ _ _. ret []), up_control_in_interface = (\<lambda>_ _ _ _. ret []), up_now = (\<lambda>_. 0), up_sleep = (\<lambda>_ h. h),
        ap_complete_out = ret ()\<rparr>\<rparr>"

lemma quiet_host_logs: "logging_host (\<lambda>log. log) quiet_host"
  by (simp add: logging_host_def quiet_host_def keeps_def ret_def quiesce_bulk_def numeral_3_eq_3)

definition unloaded :: "rstr \<Rightarrow> u8 \<Rightarrow> usb_device" where
  "unloaded port addr =
     \<lparr>ud_vendor = 0x0957, ud_product = 0x0518, ud_port = port, ud_bus = lit ''1'', ud_address = addr,
      ud_interfaces = [], ud_product_string = None, ud_serial = None\<rparr>"

definition loaded :: "rstr \<Rightarrow> u8 \<Rightarrow> usb_device" where
  "loaded port addr = (unloaded port addr)\<lparr>ud_product := 0x0718\<rparr>"

theorem firmware_goes_to_the_chosen_adapter_witness:
  "\<exists>w'. initialize_device quiet_host MODEL_82357B (Some []) (Some (lit ''1-2''))
          (Inr [unloaded (lit ''1-1'') 4, unloaded (lit ''1-2'') 5])
          [(0, Inr [unloaded (lit ''1-1'') 4]), (300, Inr [loaded (lit ''1-1'') 6, loaded (lit ''1-2'') 7])] [] [] =
        Some (Inr (loaded (lit ''1-2'') 7), w') \<and>
        list_all (\<lambda>d. ud_port d = lit ''1-2'') w' \<and> ud_product (loaded (lit ''1-2'') 7) = md_pid_ready MODEL_82357B"
proof -
  let ?run = "initialize_device quiet_host MODEL_82357B (Some []) (Some (lit ''1-2''))
          (Inr [unloaded (lit ''1-1'') 4, unloaded (lit ''1-2'') 5])
          [(0, Inr [unloaded (lit ''1-1'') 4]), (300, Inr [loaded (lit ''1-1'') 6, loaded (lit ''1-2'') 7])] [] []"
  have empty: "from_utf8 [] = Some []" "parse_hex [] = Some (Inr [])"
    by (simp_all add: from_utf8_def from_utf8_lossy.simps as_bytes_def parse_hex_def text_lines_def)
  obtain w' where run: "?run = Some (Inr (loaded (lit ''1-2'') 7), w')"
    by (simp add: initialize_device_def agilent_find_device_def first_device_def MODEL_82357B_def unloaded_def loaded_def
        upload_firmware_def empty wait_for_renumeration_def quiet_host_def open_transport_def open_endpoints_def act_defs
        anchor_load_def lit_def)
  from firmware_goes_to_the_chosen_adapter [OF quiet_host_logs run] show ?thesis
    using run by (simp add: list_all_iff)
qed

section \<open>Interrupts are not lost\<close>

definition raises :: "nat \<Rightarrow> completion \<Rightarrow> bool" where
  "raises n c \<longleftrightarrow> (\<exists>flags rest. c = Inr (flags # rest) \<and> bit flags n)"

definition transient :: "completion \<Rightarrow> bool" where
  "transient c \<longleftrightarrow> c \<noteq> Inl Cancelled \<and> c \<noteq> Inl Disconnected"

lemma interrupt_turn_effect:
  assumes "transient c"
  shows "interrupt_turn c u =
    u\<lparr>au_write_complete := au_write_complete u \<or> raises 1 c, au_srq_sent := au_srq_sent u + (if raises 0 c then 1 else 0),
      au_backoff := (if isl c then min (au_backoff u * 2) IRQ_RECOVER_MAX else IRQ_RECOVER_MIN)\<rparr>"
proof (cases c)
  case (Inl e)
  then show ?thesis using assms by (cases e) (simp_all add: interrupt_turn_def raises_def transient_def)
next
  case (Inr buffer)
  then show ?thesis by (cases buffer) (simp_all add: interrupt_turn_def raises_def)
qed

lemma min_doubled:
  assumes "1 \<le> k"
  shows "min (min n m * k) m = min (n * k) (m :: nat)"
proof (cases "n \<le> m")
  case False
  have "m \<le> m * k" using mult_le_mono2 [OF assms, of m] by simp
  moreover have "m * k \<le> n * k" using False by (intro mult_le_mono1) simp
  ultimately show ?thesis using False by (simp only: min_absorb2 min_absorb1 linear le_trans nat_le_linear)
qed (simp add: min_absorb1)

text \<open>The task that reads the interrupt endpoint survives every error but cancellation and disconnection: whatever
  mix of completions and transient errors comes, it is still polling, the end of a write was announced if any
  completion announced it, every service request was passed on exactly once, and the pause before the next attempt is
  between 50 and 1000 milliseconds, 50 after a completion and doubled per error in a row.\<close>

theorem interrupts_survive_errors:
  assumes "au_polling u" "50 \<le> au_backoff u" "au_backoff u \<le> 1000" "list_all transient cs"
  shows "au_polling (interrupt_poller cs u) \<and>
    au_write_complete (interrupt_poller cs u) = (au_write_complete u \<or> list_ex (raises 1) cs) \<and>
    au_srq_sent (interrupt_poller cs u) = au_srq_sent u + length (filter (raises 0) cs) \<and>
    50 \<le> au_backoff (interrupt_poller cs u) \<and> au_backoff (interrupt_poller cs u) \<le> 1000 \<and>
    (cs \<noteq> [] \<and> \<not> isl (last cs) \<longrightarrow> au_backoff (interrupt_poller cs u) = 50) \<and>
    (list_all isl cs \<longrightarrow> au_backoff (interrupt_poller cs u) = min (au_backoff u * 2 ^ length cs) 1000)"
  using assms
proof (induction cs arbitrary: u)
  case (Cons c cs)
  let ?u = "interrupt_turn c u"
  have turn: "au_polling ?u" "50 \<le> au_backoff ?u" "au_backoff ?u \<le> 1000" "list_all transient cs"
    using Cons.prems by (auto simp: interrupt_turn_effect)
  have "min (min (au_backoff u * 2) 1000 * 2 ^ length cs) 1000 = min (au_backoff u * 2 ^ Suc (length cs)) (1000 :: nat)"
    by (subst min_doubled) (simp_all add: ac_simps)
  note double = this
  have eff: "au_write_complete ?u = (au_write_complete u \<or> raises 1 c)"
    "au_srq_sent ?u = au_srq_sent u + (if raises 0 c then 1 else 0)"
    "au_backoff ?u = (if isl c then min (au_backoff u * 2) 1000 else 50)"
    using Cons.prems(4) by (simp_all add: interrupt_turn_effect)
  have step: "interrupt_poller (c # cs) u = interrupt_poller cs ?u" using Cons.prems(1) by simp
  show ?case
    unfolding step using Cons.IH [OF turn] double by (cases "cs = []") (simp_all add: eff del: power_Suc)
qed simp

theorem interrupts_survive_errors_witness:
  "au_srq_sent (interrupt_poller [Inl Stall, Inr [1], Inl Fault, Inl (OtherError [])] (new_agilent_usb () 1000 [])) = 1 \<and>
   au_polling (interrupt_poller [Inl Stall, Inr [1], Inl Fault, Inl (OtherError [])] (new_agilent_usb () 1000 []))"
proof -
  have "list_all transient [Inl Stall, Inr [1], Inl Fault, Inl (OtherError [])]"
    "au_polling (new_agilent_usb () 1000 [])" "50 \<le> au_backoff (new_agilent_usb () 1000 [])"
    "au_backoff (new_agilent_usb () 1000 []) \<le> 1000" "au_srq_sent (new_agilent_usb () 1000 []) = 0"
    by (simp_all add: transient_def new_agilent_usb_def)
  with interrupts_survive_errors [of "new_agilent_usb () 1000 []" "[Inl Stall, Inr [1], Inl Fault, Inl (OtherError [])]"]
  show ?thesis by (simp add: raises_def)
qed

end
