(* ===== verification/Vxi11_Client.thy ===== *)
theory Vxi11_Client
  imports Vxi11_Laws
begin

text \<open>
  The VXI-11 client, \<^verbatim>\<open>src/src/vxi11/client.rs\<close>: one connection with one call in flight, and the callback server
  that a client runs to be told of service requests. What is at the other end of the connection and the process number
  are arguments.
\<close>

section \<open>Calls\<close>

datatype client_error =
    Network io_error
  | HungUp
  | BadReply reply_error
  | AcceptedError u32 u32
  | DeniedError u32 u32
  | BadResult xdr_error
  | AbortFailed reply_body

record 'p vxi_client =
  vc_incoming :: stream
  vc_peer :: 'p
  vc_xid :: u32

type_synonym ('p, 'a) remote = "'p vxi_client \<Rightarrow> ((client_error, 'a) result \<times> 'p vxi_client) option"

definition vxi_connect :: "'p \<Rightarrow> stream \<Rightarrow> 'p vxi_client" where
  "vxi_connect p incoming = \<lparr>vc_incoming = incoming, vc_peer = p, vc_xid = 1\<rparr>"

definition vxi_call :: "'p peer \<Rightarrow> u32 \<Rightarrow> u32 \<Rightarrow> u32 \<Rightarrow> bytes \<Rightarrow> ('p, reply_body) remote" where
  "vxi_call net prog vers proc args c =
     (let c1 = c\<lparr>vc_xid := vc_xid c + 1\<rparr>
      in case write_record (encode_call (vc_xid c1) prog vers proc args) of
           Inl e \<Rightarrow> Some (Inl (Network e), c1)
         | Inr frame \<Rightarrow>
             (case net frame (vc_incoming c1) (vc_peer c1) of
                None \<Rightarrow> None
              | Some (Inl e) \<Rightarrow> Some (Inl (Network e), c1)
              | Some (Inr (incoming, p)) \<Rightarrow>
                  let c2 = c1\<lparr>vc_peer := p\<rparr>
                  in case read_record RECORD_MAX incoming of
                       Inl e \<Rightarrow> Some (Inl (Network e), c2\<lparr>vc_incoming := incoming\<rparr>)
                     | Inr (None, rest) \<Rightarrow> Some (Inl HungUp, c2\<lparr>vc_incoming := rest\<rparr>)
                     | Inr (Some reply, rest) \<Rightarrow>
                         Some (map_err BadReply (decode_reply reply (vc_xid c2)), c2\<lparr>vc_incoming := rest\<rparr>)))"

definition vxi_core :: "'p peer \<Rightarrow> u32 \<Rightarrow> bytes \<Rightarrow> ('p, bytes) remote" where
  "vxi_core net proc args c =
     map_option (\<lambda>(r, c1).
       (rbind r (\<lambda>reply. case reply of
          Success results \<Rightarrow> Inr results
        | Accepted stat \<Rightarrow> Inl (AcceptedError stat proc)
        | Denied stat \<Rightarrow> Inl (DeniedError stat proc)), c1))
       (vxi_call net DEVICE_CORE_PROG DEVICE_CORE_VERS proc args c)"

text \<open>\<^verbatim>\<open>Ok(decode(&self.core(proc, args).await?)?)\<close>, the end of every procedure.\<close>

definition core_result ::
  "'p peer \<Rightarrow> u32 \<Rightarrow> bytes \<Rightarrow> (bytes \<Rightarrow> (xdr_error, 'a) result) \<Rightarrow> ('p, 'a) remote" where
  "core_result net proc args decode c =
     map_option (\<lambda>(r, c1). (rbind r (\<lambda>results. map_err BadResult (decode results)), c1)) (vxi_core net proc args c)"

section \<open>Procedures\<close>

definition generic :: "i32 \<Rightarrow> u32 \<Rightarrow> bytes" where
  "generic lid io_timeout_ms =
     encode_device_generic_parms \<lparr>dgp_lid = lid, dgp_flags = 0, dgp_lock_timeout_ms = 0, dgp_io_timeout_ms = io_timeout_ms\<rparr> []"

definition call_create_link :: "'p peer \<Rightarrow> i32 \<Rightarrow> bytes \<Rightarrow> ('p, create_link_resp) remote" where
  "call_create_link net pid device =
     core_result net CREATE_LINK
       (encode_create_link_parms
          \<lparr>clp_client_id = pid, clp_lock_device = False, clp_lock_timeout_ms = 0, clp_device = device\<rparr> [])
       decode_create_link_resp"

definition call_create_link_locked :: "'p peer \<Rightarrow> i32 \<Rightarrow> bytes \<Rightarrow> u32 \<Rightarrow> ('p, create_link_resp) remote" where
  "call_create_link_locked net pid device lock_timeout_ms =
     core_result net CREATE_LINK
       (encode_create_link_parms
          \<lparr>clp_client_id = pid, clp_lock_device = True, clp_lock_timeout_ms = lock_timeout_ms, clp_device = device\<rparr> [])
       decode_create_link_resp"

definition call_device_write :: "'p peer \<Rightarrow> i32 \<Rightarrow> bytes \<Rightarrow> bool \<Rightarrow> u32 \<Rightarrow> ('p, device_write_resp) remote" where
  "call_device_write net lid d fin io_timeout_ms =
     core_result net DEVICE_WRITE
       (encode_device_write_parms
          \<lparr>dwp_lid = lid, dwp_io_timeout_ms = io_timeout_ms, dwp_lock_timeout_ms = 0,
           dwp_flags = (if fin then OP_FLAG_END else 0), dwp_data = d\<rparr> [])
       decode_device_write_resp"

definition call_device_write_flags :: "'p peer \<Rightarrow> i32 \<Rightarrow> bytes \<Rightarrow> u32 \<Rightarrow> u32 \<Rightarrow> ('p, device_write_resp) remote" where
  "call_device_write_flags net lid d flags lock_timeout_ms =
     core_result net DEVICE_WRITE
       (encode_device_write_parms
          \<lparr>dwp_lid = lid, dwp_io_timeout_ms = 0, dwp_lock_timeout_ms = lock_timeout_ms, dwp_flags = flags, dwp_data = d\<rparr> [])
       decode_device_write_resp"

definition call_device_read :: "'p peer \<Rightarrow> i32 \<Rightarrow> u32 \<Rightarrow> u32 \<Rightarrow> u8 option \<Rightarrow> ('p, device_read_resp) remote" where
  "call_device_read net lid request_size io_timeout_ms term_char =
     core_result net DEVICE_READ
       (encode_device_read_parms
          \<lparr>drp_lid = lid, drp_request_size = request_size, drp_io_timeout_ms = io_timeout_ms, drp_lock_timeout_ms = 0,
           drp_flags = (case term_char of None \<Rightarrow> 0 | Some _ \<Rightarrow> OP_FLAG_TERMCHRSET),
           drp_term_char = ucast (case term_char of None \<Rightarrow> 0 | Some t \<Rightarrow> t)\<rparr> [])
       (\<lambda>results. decode_device_read_resp results (- 1))"

definition call_device_readstb :: "'p peer \<Rightarrow> i32 \<Rightarrow> u32 \<Rightarrow> ('p, device_read_stb_resp) remote" where
  "call_device_readstb net lid io_timeout_ms =
     core_result net DEVICE_READSTB (generic lid io_timeout_ms) decode_device_read_stb_resp"

definition call_device_trigger :: "'p peer \<Rightarrow> i32 \<Rightarrow> ('p, u32) remote" where
  "call_device_trigger net lid = core_result net DEVICE_TRIGGER (generic lid 0) decode_device_error"

definition call_device_clear :: "'p peer \<Rightarrow> i32 \<Rightarrow> ('p, u32) remote" where
  "call_device_clear net lid = core_result net DEVICE_CLEAR (generic lid 0) decode_device_error"

definition call_device_remote :: "'p peer \<Rightarrow> i32 \<Rightarrow> ('p, u32) remote" where
  "call_device_remote net lid = core_result net DEVICE_REMOTE (generic lid 0) decode_device_error"

definition call_device_local :: "'p peer \<Rightarrow> i32 \<Rightarrow> ('p, u32) remote" where
  "call_device_local net lid = core_result net DEVICE_LOCAL (generic lid 0) decode_device_error"

definition call_destroy_link :: "'p peer \<Rightarrow> i32 \<Rightarrow> ('p, u32) remote" where
  "call_destroy_link net lid = core_result net DESTROY_LINK (put_i32 [] lid) decode_device_error"

definition call_device_lock :: "'p peer \<Rightarrow> i32 \<Rightarrow> bool \<Rightarrow> u32 \<Rightarrow> ('p, u32) remote" where
  "call_device_lock net lid waitlock lock_timeout_ms =
     core_result net DEVICE_LOCK
       (encode_device_lock_parms
          \<lparr>dlp_lid = lid, dlp_flags = (if waitlock then OP_FLAG_WAITLOCK else 0), dlp_lock_timeout_ms = lock_timeout_ms\<rparr> [])
       decode_device_error"

definition call_device_unlock :: "'p peer \<Rightarrow> i32 \<Rightarrow> ('p, u32) remote" where
  "call_device_unlock net lid = core_result net DEVICE_UNLOCK (put_i32 [] lid) decode_device_error"

definition call_device_enable_srq :: "'p peer \<Rightarrow> i32 \<Rightarrow> bool \<Rightarrow> bytes \<Rightarrow> ('p, u32) remote" where
  "call_device_enable_srq net lid enable handle =
     core_result net DEVICE_ENABLE_SRQ
       (encode_device_enable_srq_parms \<lparr>dep_lid = lid, dep_enable = enable, dep_handle = handle\<rparr> []) decode_device_error"

definition call_create_intr_chan :: "'p peer \<Rightarrow> u32 \<Rightarrow> u16 \<Rightarrow> u32 \<Rightarrow> u32 \<Rightarrow> u32 \<Rightarrow> ('p, u32) remote" where
  "call_create_intr_chan net host_addr host_port prog_num prog_vers prog_family =
     core_result net CREATE_INTR_CHAN
       (encode_device_remote_func
          \<lparr>drf_host_addr = host_addr, drf_host_port = host_port, drf_prog_num = prog_num, drf_prog_vers = prog_vers,
           drf_prog_family = prog_family\<rparr> [])
       decode_device_error"

definition call_destroy_intr_chan :: "'p peer \<Rightarrow> ('p, u32) remote" where
  "call_destroy_intr_chan net = core_result net DESTROY_INTR_CHAN [] decode_device_error"

definition call_device_docmd ::
  "'p peer \<Rightarrow> i32 \<Rightarrow> i32 \<Rightarrow> bool \<Rightarrow> i32 \<Rightarrow> bytes \<Rightarrow> ('p, device_docmd_resp) remote" where
  "call_device_docmd net lid cmd network_order datasize data_in =
     core_result net DEVICE_DOCMD
       (encode_device_docmd_parms
          \<lparr>ddp_lid = lid, ddp_flags = 0, ddp_io_timeout_ms = 0, ddp_lock_timeout_ms = 0, ddp_cmd = cmd,
           ddp_network_order = network_order, ddp_datasize = datasize, ddp_data_in = data_in\<rparr> [])
       decode_device_docmd_resp"

text \<open>The abort has a connection of its own.\<close>

definition call_device_abort :: "'p peer \<Rightarrow> 'p \<Rightarrow> stream \<Rightarrow> i32 \<Rightarrow> (client_error, u32) result option" where
  "call_device_abort net p incoming lid =
     map_option (\<lambda>(r, _).
       rbind r (\<lambda>reply. case reply of
         Success results \<Rightarrow> map_err BadResult (decode_device_error results)
       | other \<Rightarrow> Inl (AbortFailed other)))
       (vxi_call net DEVICE_ASYNC_PROG DEVICE_ASYNC_VERS DEVICE_ABORT (put_i32 [] lid) (vxi_connect p incoming))"

section \<open>The callback server\<close>

text \<open>One connection of \<^verbatim>\<open>IntrServer::run\<close>: the handles it passes on and the replies it writes, while the peer takes
  \<open>writes\<close> of them.\<close>

function intr_session :: "nat \<Rightarrow> stream \<Rightarrow> bytes list \<times> bytes list" where
  "intr_session writes rd =
     (case read_record 4096 rd of
        Inr (Some rec, rd') \<Rightarrow>
          (case decode_call rec of
             Inl _ \<Rightarrow> ([], [])
           | Inr (header, args) \<Rightarrow>
               if ch_prog header \<noteq> DEVICE_INTR_PROG \<or> ch_proc header \<noteq> DEVICE_INTR_SRQ then
                 let (handles, out) = intr_session (writes - 1) rd'
                 in (handles, (if writes = 0 then [] else [reply_prog_unavail (ch_xid header)]) @ out)
               else
                 let got = (case decode_device_srq_parms args of Inr parms \<Rightarrow> [dsp_handle parms] | Inl _ \<Rightarrow> [])
                 in if writes = 0 then (got, [])
                    else let (handles, out) = intr_session (writes - 1) rd'
                         in (got @ handles, reply_success (ch_xid header) [] # out))
      | _ \<Rightarrow> ([], []))"
  by pat_completeness auto
termination
  by (relation "measure (\<lambda>(_, rd). length (pending rd))") (auto dest: read_record_shrinks)

declare intr_session.simps [simp del]

section \<open>Client and server\<close>

text \<open>The server at the other end: what \<^const>\<open>serve_connection\<close> does in one turn of its loop with the record that the
  client wrote.\<close>

definition at_server :: "call_env \<Rightarrow> 'b backend_ops \<Rightarrow> ('b shared \<times> conn_state) peer" where
  "at_server env ops frame incoming p =
     (case p of (sh, conn) \<Rightarrow>
        case read_record (max_record (sh_config sh)) \<lparr>pending = frame, broken = None\<rparr> of
          Inr (Some rec, _) \<Rightarrow>
            (case serve_record env ops sh conn rec of
               Some (Some reply, sh', conn') \<Rightarrow>
                 (case write_record reply of
                    Inr out \<Rightarrow> Some (Inr (incoming\<lparr>pending := pending incoming @ out\<rparr>, sh', conn'))
                  | Inl e \<Rightarrow> Some (Inl e))
             | _ \<Rightarrow> None)
        | Inr (None, _) \<Rightarrow> None
        | Inl e \<Rightarrow> Some (Inl e))"

text \<open>A client that has read everything it was sent, and the same client after one more call.\<close>

definition in_step :: "'p vxi_client \<Rightarrow> bool" where
  "in_step c \<longleftrightarrow> pending (vc_incoming c) = []"

definition after_call :: "'p vxi_client \<Rightarrow> 'p \<Rightarrow> 'p vxi_client" where
  "after_call c p = c\<lparr>vc_xid := vc_xid c + 1, vc_peer := p\<rparr>"

lemma after_call_in_step [simp]: "in_step (after_call c p) = in_step c"
  by (simp add: in_step_def after_call_def)

lemma encoded_call_length: "length (encode_call xid prog vers proc args) = 40 + length args"
  by (simp add: encode_call_bytes opaque_bytes_Nil)

lemma length_reply_success: "length (reply_success xid results) = 24 + length results"
  by (simp add: reply_success_def accepted_bytes opaque_bytes_Nil)

lemma read_record_fragment:
  "length p \<le> n \<Longrightarrow> length p < 2 ^ 31 \<Longrightarrow> read_record n (feed (fragment True p) s) = Inr (Some p, s)"
  using read_fragments_all [of "[]" p "[]" n s] by (simp add: read_record_def)

lemma pad_small: "pad_of n \<le> 3"
  by (simp add: pad_of_def)

text \<open>The arguments of one call fit into a record.\<close>

definition fits :: "'b shared \<Rightarrow> bytes \<Rightarrow> bool" where
  "fits sh args \<longleftrightarrow> 40 + length args \<le> max_record (sh_config sh) \<and> 40 + length args < 2 ^ 31"

lemma at_server_call:
  assumes "fits sh args"
  shows "at_server env ops (fragment True (encode_call xid DEVICE_CORE_PROG DEVICE_CORE_VERS proc args)) incoming (sh, conn) =
    (case run_proc env ops sh conn proc args of
       Some (Inr (Some results), sh', conn') \<Rightarrow>
         (case write_record (reply_success xid results) of
            Inr out \<Rightarrow> Some (Inr (incoming\<lparr>pending := pending incoming @ out\<rparr>, sh', conn'))
          | Inl e \<Rightarrow> Some (Inl e))
     | Some (Inr None, sh', conn') \<Rightarrow>
         (case write_record (reply_proc_unavail xid) of
            Inr out \<Rightarrow> Some (Inr (incoming\<lparr>pending := pending incoming @ out\<rparr>, sh', conn'))
          | Inl e \<Rightarrow> Some (Inl e))
     | Some (Inl _, sh', conn') \<Rightarrow>
         (case write_record (reply_garbage_args xid) of
            Inr out \<Rightarrow> Some (Inr (incoming\<lparr>pending := pending incoming @ out\<rparr>, sh', conn'))
          | Inl e \<Rightarrow> Some (Inl e))
     | None \<Rightarrow> None)"
proof -
  let ?rec = "encode_call xid DEVICE_CORE_PROG DEVICE_CORE_VERS proc args"
  let ?empty = "\<lparr>pending = [], broken = None\<rparr>"
  have "\<lparr>pending = fragment True ?rec, broken = None\<rparr> = feed (fragment True ?rec) ?empty" by (simp add: feed_def)
  then have "read_record (max_record (sh_config sh)) \<lparr>pending = fragment True ?rec, broken = None\<rparr> = Inr (Some ?rec, ?empty)"
    using assms by (simp only:) (rule read_record_fragment, simp_all add: fits_def encoded_call_length)
  then show ?thesis
    using call_roundtrip [of xid DEVICE_CORE_PROG DEVICE_CORE_VERS proc args]
    by (simp add: at_server_def serve_record_def core_dispatch_def option.map_comp split: option.split sum.split prod.split)
qed

lemma vxi_core_at_server:
  assumes "in_step c" "vc_peer c = (sh, conn)" "fits sh args"
  shows "run_proc env ops sh conn proc args = None \<Longrightarrow> vxi_core (at_server env ops) proc args c = None"
    and "run_proc env ops sh conn proc args = Some (Inr (Some results), sh', conn') \<Longrightarrow> length results \<le> 2 ^ 24 \<Longrightarrow>
      vxi_core (at_server env ops) proc args c = Some (Inr results, after_call c (sh', conn'))"
proof -
  let ?xid = "vc_xid c + 1"
  let ?call = "encode_call ?xid DEVICE_CORE_PROG DEVICE_CORE_VERS proc args"
  have wr: "write_record ?call = Inr (fragment True ?call)"
    using assms(3) by (intro write_record_fragment) (simp add: fits_def encoded_call_length)
  show "run_proc env ops sh conn proc args = None \<Longrightarrow> vxi_core (at_server env ops) proc args c = None"
    using assms by (simp add: vxi_core_def vxi_call_def wr at_server_call)
  assume run: "run_proc env ops sh conn proc args = Some (Inr (Some results), sh', conn')" and len: "length results \<le> 2 ^ 24"
  let ?reply = "reply_success ?xid results"
  have out: "write_record ?reply = Inr (fragment True ?reply)"
    using len by (intro write_record_fragment) (simp add: length_reply_success)
  have "read_record RECORD_MAX (feed (fragment True ?reply) (vc_incoming c)) = Inr (Some ?reply, vc_incoming c)"
    using len by (intro read_record_fragment) (simp_all add: length_reply_success RECORD_MAX_def)
  moreover have "(vc_incoming c)\<lparr>pending := pending (vc_incoming c) @ fragment True ?reply\<rparr> =
      feed (fragment True ?reply) (vc_incoming c)"
    using assms(1) by (simp add: in_step_def feed_def)
  ultimately show "vxi_core (at_server env ops) proc args c = Some (Inr results, after_call c (sh', conn'))"
    using assms run reply_roundtrip [of ?xid results]
    by (simp add: vxi_core_def vxi_call_def wr at_server_call out after_call_def Let_def)
qed

text \<open>A procedure called over the network is the procedure.\<close>

lemma core_result_at_server:
  assumes "in_step c" "vc_peer c = (sh, conn)" "fits sh args"
    and "run_proc env ops sh conn proc args = map_option (\<lambda>(r, p). (Inr (Some (enc r)), p)) outcome"
    and "\<And>r p. outcome = Some (r, p) \<Longrightarrow> rd (enc r) = Inr r \<and> length (enc r) \<le> 2 ^ 24"
  shows "core_result (at_server env ops) proc args rd c = map_option (\<lambda>(r, p). (Inr r, after_call c p)) outcome"
proof (cases outcome)
  case None
  then show ?thesis using vxi_core_at_server(1) [OF assms(1-3)] assms(4) by (simp add: core_result_def)
next
  case (Some x)
  obtain r sh' conn' where x: "x = (r, sh', conn')" by (cases x) auto
  have "vxi_core (at_server env ops) proc args c = Some (Inr (enc r), after_call c (sh', conn'))"
    using vxi_core_at_server(2) [OF assms(1-3)] assms(4,5) Some x by simp
  then show ?thesis using assms(5) Some x by (simp add: core_result_def)
qed

lemma device_error_codec: "decode_device_error (encode_device_error e) = Inr e" "length (encode_device_error e) = 4"
  by (simp_all add: decode_device_error_def encode_device_error_def codec_simps)

lemma lid_codec: "cur_i32 (new_cursor (put_i32 [] lid)) = Inr (lid, cur (be32 lid) [])" "length (put_i32 [] lid) = 4"
  by (simp_all add: codec_simps)

lemma answer_lengths:
  "length (encode_create_link_resp clr) = 16" "length (encode_device_write_resp dwr) = 8"
  "length (encode_device_read_stb_resp dsr) = 8"
  "length (encode_device_read_resp drr) = 12 + length (drr_data drr) + pad_of (length (drr_data drr))"
  by (simp_all add: encode_create_link_resp_def encode_device_write_resp_def encode_device_read_stb_resp_def
      encode_device_read_resp_def put_simps length_opaque_bytes)

text \<open>What is needed of a call besides the parameters: the client has read all earlier answers, and the configured
  receive size is neither tiny nor beyond what a record can hold.\<close>

definition connected :: "('b shared \<times> conn_state) vxi_client \<Rightarrow> 'b shared \<Rightarrow> conn_state \<Rightarrow> bool" where
  "connected c sh conn \<longleftrightarrow> in_step c \<and> vc_peer c = (sh, conn) \<and>
     512 \<le> unat (cf_max_recv_size (sh_config sh)) \<and> unat (cf_max_recv_size (sh_config sh)) < 2 ^ 29"

lemma connected_fits: "connected c sh conn \<Longrightarrow> length args \<le> 1536 \<Longrightarrow> fits sh args"
  by (simp add: connected_def fits_def)

definition generic_parms :: "i32 \<Rightarrow> u32 \<Rightarrow> device_generic_parms" where
  "generic_parms lid tmo = \<lparr>dgp_lid = lid, dgp_flags = 0, dgp_lock_timeout_ms = 0, dgp_io_timeout_ms = tmo\<rparr>"

definition read_parms :: "i32 \<Rightarrow> u32 \<Rightarrow> u32 \<Rightarrow> u8 option \<Rightarrow> device_read_parms" where
  "read_parms lid n tmo term_char =
     \<lparr>drp_lid = lid, drp_request_size = n, drp_io_timeout_ms = tmo, drp_lock_timeout_ms = 0,
      drp_flags = (case term_char of None \<Rightarrow> 0 | Some _ \<Rightarrow> OP_FLAG_TERMCHRSET),
      drp_term_char = ucast (case term_char of None \<Rightarrow> 0 | Some t \<Rightarrow> t)\<rparr>"

text \<open>The same for a procedure that leaves the connection's own state alone.\<close>

lemma core_result_same_conn:
  assumes "connected c sh conn" "fits sh args"
    and "run_proc env ops sh conn proc args = map_option (\<lambda>(r, sh'). (Inr (Some (enc r)), sh', conn)) outcome"
    and "\<And>r p. outcome = Some (r, p) \<Longrightarrow> rd (enc r) = Inr r \<and> length (enc r) \<le> 2 ^ 24"
  shows "core_result (at_server env ops) proc args rd c = map_option (\<lambda>(r, sh'). (Inr r, after_call c (sh', conn))) outcome"
proof -
  have "core_result (at_server env ops) proc args rd c =
      map_option (\<lambda>(r, p). (Inr r, after_call c p)) (map_option (\<lambda>(r, sh'). (r, sh', conn)) outcome)"
    using assms by (intro core_result_at_server [where enc = enc])
      (auto simp: connected_def option.map_comp comp_def case_prod_unfold)
  then show ?thesis by (simp add: option.map_comp comp_def case_prod_unfold)
qed

lemma core_result_error:
  assumes "connected c sh conn" "fits sh args"
    and "run_proc env ops sh conn proc args =
      map_option (\<lambda>(e, sh'). (Inr (Some (encode_device_error (as_u32 e))), sh', conn)) outcome"
  shows "core_result (at_server env ops) proc args decode_device_error c =
    map_option (\<lambda>(e, sh'). (Inr (as_u32 e), after_call c (sh', conn))) outcome"
  using core_result_same_conn [OF assms(1,2), where enc = encode_device_error
      and outcome = "map_option (\<lambda>(e, sh'). (as_u32 e, sh')) outcome" and rd = decode_device_error] assms(3)
  by (simp add: option.map_comp comp_def case_prod_unfold device_error_codec)

lemma remote_create_link:
  assumes "connected c sh conn" "length dev \<le> unat DEVICE_NAME_MAX"
  shows "call_create_link (at_server env ops) pid dev c =
    map_option (\<lambda>(r, p). (Inr r, after_call c p))
      (create_link (ev_sched env) (ev_now env) sh conn
         \<lparr>clp_client_id = pid, clp_lock_device = False, clp_lock_timeout_ms = 0, clp_device = dev\<rparr>)"
proof -
  let ?p = "\<lparr>clp_client_id = pid, clp_lock_device = False, clp_lock_timeout_ms = 0, clp_device = dev\<rparr>"
  have "decode_create_link_parms (encode_create_link_parms ?p []) = Inr ?p"
    using assms(2) by (intro create_link_parms_codec.dec_exact) simp
  moreover have "length (encode_create_link_parms ?p []) \<le> 1536"
    using assms(2) pad_small [of "length dev"] by (simp add: encode_create_link_parms_def put_simps length_opaque_bytes)
  ultimately show ?thesis
    unfolding call_create_link_def using assms(1) connected_fits [OF assms(1)]
    by (intro core_result_at_server [where enc = encode_create_link_resp])
       (auto simp: connected_def run_proc_def create_link_resp_codec.dec_exact answer_lengths case_prod_unfold)
qed

lemma remote_write:
  assumes "connected c sh conn" "length d \<le> unat (cf_max_recv_size (sh_config sh))"
  shows "call_device_write (at_server env ops) lid d fin tmo c =
    map_option (\<lambda>(r, sh'). (Inr r, after_call c (sh', conn)))
      (device_write (ev_sched env) (ev_obs env) (ev_aborted env) (ev_now env) (ev_start env) ops sh
         \<lparr>dwp_lid = lid, dwp_io_timeout_ms = tmo, dwp_lock_timeout_ms = 0,
          dwp_flags = (if fin then OP_FLAG_END else 0), dwp_data = d\<rparr>)" (is "_ = map_option _ ?local")
proof -
  let ?p = "\<lparr>dwp_lid = lid, dwp_io_timeout_ms = tmo, dwp_lock_timeout_ms = 0,
    dwp_flags = (if fin then OP_FLAG_END else 0), dwp_data = d\<rparr>"
  have decoded: "decode_device_write_parms (encode_device_write_parms ?p []) (cf_max_recv_size (sh_config sh)) = Inr ?p"
    using assms(2) by (intro device_write_parms_codec.dec_exact) simp
  have "fits sh (encode_device_write_parms ?p [])"
    using assms pad_small [of "length d"]
    by (simp add: fits_def connected_def encode_device_write_parms_def put_simps length_opaque_bytes)
  then show ?thesis
    unfolding call_device_write_def using assms(1) decoded
    by (intro core_result_same_conn [where enc = encode_device_write_resp])
       (auto simp: run_proc_def device_write_resp_codec.dec_exact answer_lengths)
qed

lemma remote_read:
  assumes "connected c sh conn"
    and "\<And>r sh'. device_read (ev_sched env) (ev_obs env) (ev_now env) (ev_start env) ops sh (read_parms lid n tmo term_char) =
      Some (r, sh') \<Longrightarrow> length (drr_data r) \<le> 65536"
  shows "call_device_read (at_server env ops) lid n tmo term_char c =
    map_option (\<lambda>(r, sh'). (Inr r, after_call c (sh', conn)))
      (device_read (ev_sched env) (ev_obs env) (ev_now env) (ev_start env) ops sh (read_parms lid n tmo term_char))"
proof -
  let ?p = "read_parms lid n tmo term_char"
  have "decode_device_read_resp (encode_device_read_resp r) (- 1) = Inr r \<and> length (encode_device_read_resp r) \<le> 2 ^ 24"
    if "device_read (ev_sched env) (ev_obs env) (ev_now env) (ev_start env) ops sh ?p = Some (r, sh')" for r sh'
  proof
    have "unat (- 1 :: u32) = 2 ^ 32 - 1" by (simp add: unsigned_minus_1_eq_mask mask_eq_exp_minus_1)
    then show "decode_device_read_resp (encode_device_read_resp r) (- 1) = Inr r"
      using assms(2) [OF that] by (intro device_read_resp_codec.dec_exact) simp
    show "length (encode_device_read_resp r) \<le> 2 ^ 24"
      using assms(2) [OF that] pad_small [of "length (drr_data r)"] by (simp add: answer_lengths)
  qed
  moreover have "fits sh (encode_device_read_parms ?p [])"
    by (intro connected_fits [OF assms(1)]) (simp add: encode_device_read_parms_def put_simps)
  ultimately show ?thesis
    unfolding call_device_read_def read_parms_def [symmetric] using assms(1)
    by (intro core_result_same_conn [where enc = encode_device_read_resp])
       (auto simp: run_proc_def device_read_parms_codec.dec_exact)
qed

lemma remote_readstb:
  assumes "connected c sh conn"
  shows "call_device_readstb (at_server env ops) lid tmo c =
    map_option (\<lambda>(r, sh'). (Inr r, after_call c (sh', conn)))
      (device_readstb (ev_sched env) (ev_aborted env) (ev_now env) ops sh (generic_parms lid tmo))"
proof -
  have "fits sh (encode_device_generic_parms (generic_parms lid tmo) [])"
    by (intro connected_fits [OF assms]) (simp add: encode_device_generic_parms_def put_simps)
  then show ?thesis
    unfolding call_device_readstb_def generic_def generic_parms_def [symmetric] using assms
    by (intro core_result_same_conn [where enc = encode_device_read_stb_resp])
       (auto simp: run_proc_def device_generic_parms_codec.dec_exact device_read_stb_resp_codec.dec_exact answer_lengths)
qed

lemma remote_simple:
  assumes "connected c sh conn" "proc \<in> {DEVICE_TRIGGER, DEVICE_CLEAR, DEVICE_REMOTE, DEVICE_LOCAL}"
  shows "core_result (at_server env ops) proc (generic lid 0) decode_device_error c =
    map_option (\<lambda>(e, sh'). (Inr (as_u32 e), after_call c (sh', conn)))
      (device_simple (ev_sched env) (ev_aborted env) (ev_now env) ops sh proc (generic_parms lid 0))"
proof (rule core_result_error [OF assms(1)])
  show "fits sh (generic lid 0)"
    by (intro connected_fits [OF assms(1)]) (simp add: generic_def encode_device_generic_parms_def put_simps)
  have "decode_device_generic_parms (generic lid 0) = Inr (generic_parms lid 0)"
    unfolding generic_def generic_parms_def by (intro device_generic_parms_codec.dec_exact) simp
  then show "run_proc env ops sh conn proc (generic lid 0) =
      map_option (\<lambda>(e, sh'). (Inr (Some (encode_device_error (as_u32 e))), sh', conn))
        (device_simple (ev_sched env) (ev_aborted env) (ev_now env) ops sh proc (generic_parms lid 0))"
    using assms(2) by (auto simp: run_proc_def)
qed

lemma remote_lock:
  assumes "connected c sh conn"
  shows "call_device_lock (at_server env ops) lid waitlock tmo c =
    map_option (\<lambda>(e, sh'). (Inr (as_u32 e), after_call c (sh', conn)))
      (device_lock (ev_lock_events env) (ev_now env) sh
         \<lparr>dlp_lid = lid, dlp_flags = (if waitlock then OP_FLAG_WAITLOCK else 0), dlp_lock_timeout_ms = tmo\<rparr>)"
  unfolding call_device_lock_def
  by (rule core_result_error [OF assms], rule connected_fits [OF assms])
     (simp_all add: encode_device_lock_parms_def put_simps, simp add: run_proc_def decode_device_lock_parms_def codec_simps)

lemma remote_unlock:
  assumes "connected c sh conn"
  shows "call_device_unlock (at_server env ops) lid c =
    (case device_unlock sh lid of (e, sh') \<Rightarrow> Some (Inr (as_u32 e), after_call c (sh', conn)))"
  unfolding call_device_unlock_def
  using core_result_error [OF assms connected_fits [OF assms], of "put_i32 [] lid" env ops DEVICE_UNLOCK "Some (device_unlock sh lid)"]
  by (simp add: lid_codec run_proc_def split: prod.split)

lemma remote_destroy_link:
  assumes "connected c sh conn"
  shows "call_destroy_link (at_server env ops) lid c =
    (case destroy_link sh conn lid of (e, p) \<Rightarrow> Some (Inr (as_u32 e), after_call c p))"
proof -
  have "core_result (at_server env ops) DESTROY_LINK (put_i32 [] lid) decode_device_error c =
    map_option (\<lambda>(r, p). (Inr r, after_call c p)) (Some (case destroy_link sh conn lid of (e, p) \<Rightarrow> (as_u32 e, p)))"
    using assms connected_fits [OF assms]
    by (intro core_result_at_server [where enc = encode_device_error])
       (auto simp: connected_def lid_codec run_proc_def device_error_codec split: prod.split)
  then show ?thesis by (simp add: call_destroy_link_def split: prod.split)
qed

section \<open>Properties\<close>

text \<open>C4. A VXI-11 procedure called through the client is the server's procedure: for a client that has read all its
  earlier answers, creating a link, writing, reading, serial polling, triggering, clearing, going to remote and to
  local, locking, unlocking and destroying a link over the connection give exactly the result of the server's own
  operation on the same arguments and leave exactly its state (or wait as it waits), with the client ready for its next
  call. Nothing is lost or altered by encoding, record marking, dispatch and decoding.\<close>

theorem remote_calls_are_transparent:
  assumes "connected c sh conn"
  shows "(length dev \<le> unat DEVICE_NAME_MAX \<longrightarrow>
      call_create_link (at_server env ops) pid dev c =
        map_option (\<lambda>(r, p). (Inr r, after_call c p))
          (create_link (ev_sched env) (ev_now env) sh conn
             \<lparr>clp_client_id = pid, clp_lock_device = False, clp_lock_timeout_ms = 0, clp_device = dev\<rparr>)) \<and>
    (length d \<le> unat (cf_max_recv_size (sh_config sh)) \<longrightarrow>
      call_device_write (at_server env ops) lid d fin tmo c =
        map_option (\<lambda>(r, sh'). (Inr r, after_call c (sh', conn)))
          (device_write (ev_sched env) (ev_obs env) (ev_aborted env) (ev_now env) (ev_start env) ops sh
             \<lparr>dwp_lid = lid, dwp_io_timeout_ms = tmo, dwp_lock_timeout_ms = 0,
              dwp_flags = (if fin then OP_FLAG_END else 0), dwp_data = d\<rparr>)) \<and>
    (\<forall>outcome. device_read (ev_sched env) (ev_obs env) (ev_now env) (ev_start env) ops sh (read_parms lid n tmo tc) = outcome \<and>
        (\<forall>r sh'. outcome = Some (r, sh') \<longrightarrow> length (drr_data r) \<le> 65536) \<longrightarrow>
      call_device_read (at_server env ops) lid n tmo tc c =
        map_option (\<lambda>(r, sh'). (Inr r, after_call c (sh', conn))) outcome) \<and>
    call_device_readstb (at_server env ops) lid tmo c =
      map_option (\<lambda>(r, sh'). (Inr r, after_call c (sh', conn)))
        (device_readstb (ev_sched env) (ev_aborted env) (ev_now env) ops sh (generic_parms lid tmo)) \<and>
    (\<forall>(request, proc) \<in> {(call_device_trigger, DEVICE_TRIGGER), (call_device_clear, DEVICE_CLEAR),
                         (call_device_remote, DEVICE_REMOTE), (call_device_local, DEVICE_LOCAL)}.
      request (at_server env ops) lid c =
        map_option (\<lambda>(e, sh'). (Inr (as_u32 e), after_call c (sh', conn)))
          (device_simple (ev_sched env) (ev_aborted env) (ev_now env) ops sh proc (generic_parms lid 0))) \<and>
    call_device_lock (at_server env ops) lid waitlock tmo c =
      map_option (\<lambda>(e, sh'). (Inr (as_u32 e), after_call c (sh', conn)))
        (device_lock (ev_lock_events env) (ev_now env) sh
           \<lparr>dlp_lid = lid, dlp_flags = (if waitlock then OP_FLAG_WAITLOCK else 0), dlp_lock_timeout_ms = tmo\<rparr>) \<and>
    call_device_unlock (at_server env ops) lid c =
      (case device_unlock sh lid of (e, sh') \<Rightarrow> Some (Inr (as_u32 e), after_call c (sh', conn))) \<and>
    call_destroy_link (at_server env ops) lid c =
      (case destroy_link sh conn lid of (e, p) \<Rightarrow> Some (Inr (as_u32 e), after_call c p))"
  using remote_create_link [OF assms] remote_write [OF assms] remote_read [OF assms] remote_readstb [OF assms]
    remote_simple [OF assms] remote_lock [OF assms] remote_unlock [OF assms] remote_destroy_link [OF assms]
  by (simp add: call_device_trigger_def call_device_clear_def call_device_remote_def call_device_local_def)

definition demo_env :: call_env where
  "demo_env = \<lparr>ev_sched = [], ev_lock_events = [], ev_obs = [(False, 5)], ev_aborted = False, ev_now = 0, ev_start = 0, ev_connects = True\<rparr>"

definition demo_client :: "(scripted shared \<times> conn_state) vxi_client" where
  "demo_client =
     vxi_connect (demo_shared, \<lparr>cs_owned = [1], cs_intr = None, cs_peer = 0\<rparr>) \<lparr>pending = [], broken = None\<rparr>"

theorem remote_calls_are_transparent_witness:
  "\<exists>r sh'. call_device_write (at_server demo_env scripted_ops) 1 [42, 73, 68, 78, 63] True 2000 demo_client =
      Some (Inr r, after_call demo_client (sh', snd (vc_peer demo_client))) \<and>
    dwr_error r = 0 \<and> sb_log (sh_bus sh') = [(True, [42, 73, 68, 78, 63], True)]"
proof -
  let ?run = "device_write [] [(False, 5)] False 0 0 scripted_ops demo_shared demo_write"
  have "case ?run of Some (resp, sh') \<Rightarrow> dwr_error resp = 0 \<and> sb_log (sh_bus sh') = [(True, dwp_data demo_write, True)] | None \<Rightarrow> False"
    by code_simp
  then obtain r sh' where run: "?run = Some (r, sh')" "dwr_error r = 0" "sb_log (sh_bus sh') = [(True, dwp_data demo_write, True)]"
    by (auto split: option.splits)
  have con: "connected demo_client demo_shared \<lparr>cs_owned = [1], cs_intr = None, cs_peer = 0\<rparr>"
    and len: "length [42, 73, 68, 78, 63 :: u8] \<le> unat (cf_max_recv_size (sh_config demo_shared))"
    by (simp_all add: connected_def in_step_def demo_client_def vxi_connect_def demo_shared_def default_config_def)
  have "call_device_write (at_server demo_env scripted_ops) 1 [42, 73, 68, 78, 63] True 2000 demo_client =
      map_option (\<lambda>(r, sh'). (Inr r, after_call demo_client (sh', \<lparr>cs_owned = [1], cs_intr = None, cs_peer = 0\<rparr>)))
        (device_write (ev_sched demo_env) (ev_obs demo_env) (ev_aborted demo_env) (ev_now demo_env) (ev_start demo_env)
           scripted_ops demo_shared
           \<lparr>dwp_lid = 1, dwp_io_timeout_ms = 2000, dwp_lock_timeout_ms = 0,
            dwp_flags = (if True then OP_FLAG_END else 0), dwp_data = [42, 73, 68, 78, 63]\<rparr>)"
    using len by (rule remote_calls_are_transparent [OF con, THEN conjunct2, THEN conjunct1, THEN mp])
  with run show ?thesis
    by (intro exI [of _ r] exI [of _ sh']) (simp add: demo_env_def demo_write_def demo_client_def vxi_connect_def)
qed

lemma intr_session_calls:
  assumes "\<forall>h\<in>set hs. length h \<le> unat SRQ_HANDLE_MAX" "length hs \<le> writes"
  shows "intr_session writes (feed (concat (map (fragment True) (intr_calls xid hs))) \<lparr>pending = [], broken = None\<rparr>) =
    (hs, map (\<lambda>i. reply_success (xid + of_nat i) []) [1..<Suc (length hs)])"
  using assms
proof (induction hs arbitrary: xid writes)
  case Nil
  then show ?case by (subst intr_session.simps) (simp add: read_record_def read_fragments.simps read_exact_def)
next
  case (Cons h hs)
  let ?rec = "encode_call (xid + 1) DEVICE_INTR_PROG DEVICE_INTR_VERS DEVICE_INTR_SRQ (encode_device_srq_parms \<lparr>dsp_handle = h\<rparr>)"
  let ?rest = "feed (concat (map (fragment True) (intr_calls (xid + 1) hs))) \<lparr>pending = [], broken = None\<rparr>"
  have "length ?rec \<le> 4096"
    using Cons.prems(1) pad_small [of "length h"]
    by (simp add: encoded_call_length encode_device_srq_parms_def put_simps length_opaque_bytes)
  then have "read_record 4096 (feed (fragment True ?rec) ?rest) = Inr (Some ?rec, ?rest)"
    by (intro read_record_fragment) simp_all
  moreover have "decode_device_srq_parms (encode_device_srq_parms \<lparr>dsp_handle = h\<rparr>) = Inr \<lparr>dsp_handle = h\<rparr>"
    using Cons.prems(1) by (intro device_srq_parms_codec.dec_exact) simp
  moreover have "map (\<lambda>i. reply_success (xid + of_nat i) []) [1..<Suc (length (h # hs))] =
      reply_success (xid + 1) [] # map (\<lambda>i. reply_success (xid + 1 + of_nat i) []) [1..<Suc (length hs)]"
    by (simp add: upt_conv_Cons map_Suc_upt [symmetric] comp_def add.assoc del: upt_Suc)
  ultimately show ?case
    using Cons.IH [of "writes - 1" "xid + 1"] Cons.prems
      call_roundtrip [of "xid + 1" DEVICE_INTR_PROG DEVICE_INTR_VERS DEVICE_INTR_SRQ "encode_device_srq_parms \<lparr>dsp_handle = h\<rparr>"]
    by (subst intr_session.simps) simp
qed

end
