(* ===== verification/Hislip_Client.thy ===== *)
theory Hislip_Client
  imports Hislip_Laws
begin

text \<open>
  The HiSLIP client, \<^verbatim>\<open>src/src/hislip/client.rs\<close>: a session of a synchronous and an asynchronous channel, each method
  one request and its answer. What is at the other end of the two channels is an argument.
\<close>

section \<open>Messages\<close>

datatype hislip_client_error =
    HislipRead io_error
  | HislipWrite io_error
  | HislipProtocol hislip_error
  | HandshakeFailed message_type message_type
  | UnexpectedReply message_type message_type
  | UnexpectedSync message_type
  | WrongMessageId u32 u32
  | QueryInterrupted u32
  | DeviceError bytes
  | FatalDeviceError bytes

abbreviation CLIENT_MAX_MESSAGE_SIZE :: u64 where "CLIENT_MAX_MESSAGE_SIZE \<equiv> 16 * 1024 * 1024"

definition read_msg :: "stream \<Rightarrow> (hislip_client_error, message \<times> stream) result" where
  "read_msg rd =
     (case read_from CLIENT_MAX_MESSAGE_SIZE rd of
        Inl e \<Rightarrow> Inl (HislipRead e)
      | Inr (Inl proto, _) \<Rightarrow> Inl (HislipProtocol proto)
      | Inr (Inr m, rest) \<Rightarrow> Inr (m, rest))"

lemma read_to_limit_shrinks: "read_to_limit n s = Inr (bs, s') \<Longrightarrow> length (pending s') \<le> length (pending s)"
  by (auto simp: read_to_limit_def split: if_splits)

lemma read_msg_shrinks: "read_msg rd = Inr (m, rest) \<Longrightarrow> length (pending rest) < length (pending rd)"
  by (auto simp: read_msg_def read_from_def rbind_Inr_iff Let_def
      dest!: read_exact_shrinks read_to_limit_shrinks split: sum.splits if_splits option.splits)

section \<open>The session\<close>

record 'p hislip_client =
  hl_sync_in :: stream
  hl_async_in :: stream
  hl_peer :: 'p
  hl_message_id :: u32
  hl_last_srq :: "u8 option"

record 'p hislip_net =
  hn_sync :: "'p peer"
  hn_async :: "'p peer"

type_synonym ('p, 'a) hislip_call = "'p hislip_client \<Rightarrow> ((hislip_client_error, 'a) result \<times> 'p hislip_client) option"

text \<open>Writing a message and flushing it.\<close>

definition send_sync :: "'p hislip_net \<Rightarrow> message \<Rightarrow> ('p, unit) hislip_call" where
  "send_sync net m c =
     map_option (\<lambda>r. case r of
         Inl e \<Rightarrow> (Inl (HislipWrite e), c)
       | Inr (rd, p) \<Rightarrow> (Inr (), c\<lparr>hl_sync_in := rd, hl_peer := p\<rparr>))
       (hn_sync net (write_to m) (hl_sync_in c) (hl_peer c))"

definition send_async :: "'p hislip_net \<Rightarrow> message \<Rightarrow> ('p, unit) hislip_call" where
  "send_async net m c =
     map_option (\<lambda>r. case r of
         Inl e \<Rightarrow> (Inl (HislipWrite e), c)
       | Inr (rd, p) \<Rightarrow> (Inr (), c\<lparr>hl_async_in := rd, hl_peer := p\<rparr>))
       (hn_async net (write_to m) (hl_async_in c) (hl_peer c))"

definition then_call ::
  "('p, 'a) hislip_call \<Rightarrow> ('a \<Rightarrow> ('p, 'b) hislip_call) \<Rightarrow> ('p, 'b) hislip_call" where
  "then_call m f c =
     (case m c of None \<Rightarrow> None | Some (Inl e, c1) \<Rightarrow> Some (Inl e, c1) | Some (Inr x, c1) \<Rightarrow> f x c1)"

definition expect_sync :: "message_type \<Rightarrow> ('p, message) hislip_call" where
  "expect_sync want c =
     (case read_msg (hl_sync_in c) of
        Inl e \<Rightarrow> Some (Inl e, c)
      | Inr (m, rest) \<Rightarrow>
          Some (if msg_type m = want then Inr m else Inl (HandshakeFailed want (msg_type m)), c\<lparr>hl_sync_in := rest\<rparr>))"

definition expect_async :: "message_type \<Rightarrow> ('p, message) hislip_call" where
  "expect_async want c =
     (case read_msg (hl_async_in c) of
        Inl e \<Rightarrow> Some (Inl e, c)
      | Inr (m, rest) \<Rightarrow>
          Some (if msg_type m = want then Inr m else Inl (HandshakeFailed want (msg_type m)), c\<lparr>hl_async_in := rest\<rparr>))"

text \<open>The greeting on a session of two fresh connections.\<close>

definition hislip_connect :: "'p hislip_net \<Rightarrow> bytes \<Rightarrow> u16 \<Rightarrow> ('p, unit) hislip_call" where
  "hislip_connect net sub_address vendor_id =
     then_call (send_sync net (with_payload (message_params Initialize 0 (as_parameter SUPPORTED_PROTOCOL vendor_id)) sub_address)) (\<lambda>_.
     then_call (expect_sync InitializeResponse) (\<lambda>resp.
     then_call (send_async net (no_payload (message_params AsyncInitialize 0 (ucast (response_session_id (msg_parameter resp)))))) (\<lambda>_.
     then_call (expect_async AsyncInitializeResponse) (\<lambda>_.
     then_call (send_async net (with_payload (message_params AsyncMaximumMessageSize 0 0) (be64 CLIENT_MAX_MESSAGE_SIZE))) (\<lambda>_.
     then_call (expect_async AsyncMaximumMessageSizeResponse) (\<lambda>_ c.
       Some (Inr (), c\<lparr>hl_message_id := FIRST_MESSAGE_ID, hl_last_srq := None\<rparr>)))))))"

definition next_message_id :: "'p hislip_client \<Rightarrow> u32 \<times> 'p hislip_client" where
  "next_message_id c = (hl_message_id c, c\<lparr>hl_message_id := hl_message_id c + 2\<rparr>)"

definition send_data :: "'p hislip_net \<Rightarrow> bytes \<Rightarrow> u32 \<Rightarrow> ('p, unit) hislip_call" where
  "send_data net cmd message_id = send_sync net (with_payload (message_params DataEnd 0 message_id) cmd)"

definition hislip_write :: "'p hislip_net \<Rightarrow> bytes \<Rightarrow> ('p, unit) hislip_call" where
  "hislip_write net cmd c = (case next_message_id c of (i, c1) \<Rightarrow> send_data net cmd i c1)"

definition hislip_trigger :: "'p hislip_net \<Rightarrow> ('p, unit) hislip_call" where
  "hislip_trigger net c = (case next_message_id c of (i, c1) \<Rightarrow> send_sync net (no_payload (message_params Trigger 0 i)) c1)"

text \<open>The answer to an asynchronous request, past any service requests, of which the last one is remembered.\<close>

function await_async ::
  "message_type \<Rightarrow> stream \<Rightarrow> u8 option \<Rightarrow> (hislip_client_error, message) result \<times> stream \<times> u8 option" where
  "await_async want rd srq =
     (case read_msg rd of
        Inl e \<Rightarrow> (Inl e, rd, srq)
      | Inr (m, rest) \<Rightarrow>
          if msg_type m = AsyncServiceRequest then await_async want rest (Some (msg_control m))
          else if msg_type m \<noteq> want then (Inl (UnexpectedReply want (msg_type m)), rest, srq)
          else (Inr m, rest, srq))"
  by pat_completeness auto
termination
  by (relation "measure (\<lambda>(_, rd, _). length (pending rd))") (auto dest: read_msg_shrinks)

declare await_async.simps [simp del]

definition async_request :: "'p hislip_net \<Rightarrow> message \<Rightarrow> message_type \<Rightarrow> ('p, message) hislip_call" where
  "async_request net req want =
     then_call (send_async net req) (\<lambda>_ c.
       case await_async want (hl_async_in c) (hl_last_srq c) of
         (r, rd, srq) \<Rightarrow> Some (r, c\<lparr>hl_async_in := rd, hl_last_srq := srq\<rparr>))"

definition take_service_request :: "'p hislip_client \<Rightarrow> u8 option \<times> 'p hislip_client" where
  "take_service_request c = (hl_last_srq c, c\<lparr>hl_last_srq := None\<rparr>)"

definition hislip_clear :: "'p hislip_net \<Rightarrow> ('p, unit) hislip_call" where
  "hislip_clear net =
     then_call (async_request net (no_payload (message_params AsyncDeviceClear 0 0)) AsyncDeviceClearAcknowledge)
       (\<lambda>_ c. Some (Inr (), c))"

definition hislip_remote :: "'p hislip_net \<Rightarrow> bool \<Rightarrow> ('p, unit) hislip_call" where
  "hislip_remote net on =
     then_call (async_request net (no_payload (message_params AsyncRemoteLocalControl (if on then 3 else 0) 0)) AsyncRemoteLocalResponse)
       (\<lambda>_ c. Some (Inr (), c))"

definition hislip_status :: "'p hislip_net \<Rightarrow> ('p, u8) hislip_call" where
  "hislip_status net c =
     then_call (async_request net (no_payload (message_params AsyncStatusQuery 0 (hl_message_id c - 2))) AsyncStatusResponse)
       (\<lambda>resp c. Some (Inr (msg_control resp), c)) c"

function query_replies :: "u32 \<Rightarrow> bytes \<Rightarrow> stream \<Rightarrow> (hislip_client_error, bytes) result \<times> stream" where
  "query_replies i out rd =
     (case read_msg rd of
        Inl e \<Rightarrow> (Inl e, rd)
      | Inr (m, rest) \<Rightarrow>
          if msg_type m = Data \<or> msg_type m = DataEnd then
            if msg_parameter m \<noteq> i then (Inl (WrongMessageId (msg_parameter m) i), rest)
            else if msg_type m = DataEnd then (Inr (out @ msg_payload m), rest)
            else query_replies i (out @ msg_payload m) rest
          else if msg_type m = Interrupted then (Inl (QueryInterrupted (msg_parameter m)), rest)
          else if msg_type m = Error then (Inl (DeviceError (msg_payload m)), rest)
          else if msg_type m = FatalError then (Inl (FatalDeviceError (msg_payload m)), rest)
          else (Inl (UnexpectedSync (msg_type m)), rest))"
  by pat_completeness auto
termination
  by (relation "measure (\<lambda>(_, _, rd). length (pending rd))") (auto dest: read_msg_shrinks)

declare query_replies.simps [simp del]

definition hislip_query :: "'p hislip_net \<Rightarrow> bytes \<Rightarrow> ('p, bytes) hislip_call" where
  "hislip_query net cmd c =
     (case next_message_id c of (i, c1) \<Rightarrow>
        then_call (send_data net cmd i) (\<lambda>_ c2.
          case query_replies i [] (hl_sync_in c2) of (r, rd) \<Rightarrow> Some (r, c2\<lparr>hl_sync_in := rd\<rparr>)) c1)"

section \<open>Client and server\<close>

text \<open>The server at the other end of the synchronous channel: one turn of \<^const>\<open>sync_loop\<close> over the message, for a
  connection that takes \<open>n\<close> messages of the answer.\<close>

definition at_sync ::
  "'b task_env \<Rightarrow> hislip_config \<Rightarrow> nat \<Rightarrow> nat \<Rightarrow> (sync_task \<times> 'b hislip) peer" where
  "at_sync env cfg r n frame incoming p =
     (case p of (task, st) \<Rightarrow>
        case read_from (hc_max_message_size cfg) \<lparr>pending = frame, broken = None\<rparr> of
          Inl e \<Rightarrow> Some (Inl e)
        | Inr (got, _) \<Rightarrow>
            (case sync_turn env cfg r got task \<lparr>wr_sent = [], wr_left = n\<rparr> (te_before env st) of
               None \<Rightarrow> None
             | Some (_, task1, w, st1) \<Rightarrow>
                 Some (Inr (incoming\<lparr>pending := pending incoming @ concat (map write_to (wr_sent w))\<rparr>, task1, st1))))"

text \<open>The messages of an answer are put together again.\<close>

lemma read_msg_message:
  "message_ok CLIENT_MAX_MESSAGE_SIZE m \<Longrightarrow> read_msg (feed (write_to m) s) = Inr (m, s)"
  by (simp add: read_msg_def read_from_write_to)

lemma query_replies_messages:
  assumes "ms \<noteq> []"
    and "\<And>i. i < length ms \<Longrightarrow> msg_type (ms ! i) = (if Suc i = length ms then DataEnd else Data) \<and>
           msg_parameter (ms ! i) = mid \<and> message_ok CLIENT_MAX_MESSAGE_SIZE (ms ! i)"
  shows "query_replies mid out (feed (concat (map write_to ms)) s) = (Inr (out @ concat (map msg_payload ms)), s)"
  using assms
proof (induction ms arbitrary: out)
  case (Cons m ms)
  have m: "msg_type m = (if ms = [] then DataEnd else Data)" "msg_parameter m = mid" "message_ok CLIENT_MAX_MESSAGE_SIZE m"
    using Cons.prems(2) [of 0] by auto
  have read: "read_msg (feed (concat (map write_to (m # ms))) s) = Inr (m, feed (concat (map write_to ms)) s)"
    using read_msg_message [OF m(3)] by simp
  show ?case
  proof (cases "ms = []")
    case True
    then show ?thesis using m by (subst query_replies.simps, unfold read) simp
  next
    case False
    have "query_replies mid (out @ msg_payload m) (feed (concat (map write_to ms)) s) =
        (Inr ((out @ msg_payload m) @ concat (map msg_payload ms)), s)"
      using Cons.prems(2) [of "Suc _"] by (intro Cons.IH False) auto
    then show ?thesis using m False by (subst query_replies.simps, unfold read) simp
  qed
qed simp

text \<open>A session ready for its next command: nothing unread, nothing collected, access to the instrument, numbering by
  the request, and a message limit that the client itself accepts.\<close>

definition ready_session :: "hislip_config \<Rightarrow> nat \<Rightarrow> (sync_task \<times> 'b hislip) hislip_client \<Rightarrow> sync_task \<Rightarrow> 'b hislip \<Rightarrow> bool" where
  "ready_session cfg r c task st \<longleftrightarrow>
     pending (hl_sync_in c) = [] \<and> hl_peer c = (task, st) \<and> r < length (hs_entries st) \<and> sy_buffer task = [] \<and>
     sy_epoch task = se_clear_epoch (entry_at r st) \<and> session_has_access r st \<and> \<not> se_overlapped (entry_at r st) \<and>
     unat (se_client_max (entry_at r st)) \<le> 2 ^ 24"

lemma at_sync_message:
  assumes "message_ok (hc_max_message_size cfg) m"
  shows "at_sync quiet_env cfg r n (write_to m) incoming (task, st) =
    (case sync_message quiet_env cfg r m task \<lparr>wr_sent = [], wr_left = n\<rparr> st of
       None \<Rightarrow> None
     | Some (_, task1, w, st1) \<Rightarrow>
         Some (Inr (incoming\<lparr>pending := pending incoming @ concat (map write_to (wr_sent w))\<rparr>, task1, st1)))"
proof -
  have "\<lparr>pending = write_to m, broken = None\<rparr> = feed (write_to m) \<lparr>pending = [], broken = None\<rparr>" by (simp add: feed_def)
  then show ?thesis
    using read_from_write_to [OF assms, of "\<lparr>pending = [], broken = None\<rparr>"]
    by (simp only: at_sync_def prod.case sum.case sync_turn_def) (simp add: quiet_env_def)
qed

lemma reply_message_ok:
  assumes "unat (se_client_max e) \<le> 2 ^ 24" "length (write_to m) \<le> max (unat (se_client_max e)) 272"
    "msg_type m = Data \<or> msg_type m = DataEnd"
  shows "message_ok CLIENT_MAX_MESSAGE_SIZE m"
  using assms by (auto simp: message_ok_def type_ok_def write_to_def isize_max_def max_def split: if_splits)

text \<open>What \<^const>\<open>deliver\<close> writes for an answer, and how it leaves the session.\<close>

text \<open>What serving a message leaves of the session: everything that decides how the next one is served.\<close>

definition session_kept :: "nat \<Rightarrow> 'b hislip \<Rightarrow> 'b hislip \<Rightarrow> bool" where
  "session_kept r st st' \<longleftrightarrow>
     length (hs_entries st') = length (hs_entries st) \<and> hs_locks st' = hs_locks st \<and>
     (let e = entry_at r st; e' = entry_at r st'
      in se_id e' = se_id e \<and> se_resource e' = se_resource e \<and> se_device e' = se_device e \<and>
         se_overlapped e' = se_overlapped e \<and> se_clear_epoch e' = se_clear_epoch e \<and> se_client_max e' = se_client_max e)"

lemma session_kept_trans: "session_kept r st st1 \<Longrightarrow> session_kept r st1 st2 \<Longrightarrow> session_kept r st st2"
  by (simp add: session_kept_def Let_def)

lemma session_kept_ready:
  "ready_session cfg r c task st \<Longrightarrow> session_kept r st st' \<Longrightarrow>
   ready_session cfg r (c\<lparr>hl_message_id := i, hl_peer := (task, st')\<rparr>) task st'"
  by (simp add: ready_session_def session_kept_def session_has_access_def session_holder_def Let_def)

lemma session_kept_noted:
  "r < length (hs_entries st) \<Longrightarrow> session_kept r st (on_entry r (note_client_message m) st\<lparr>hs_bus := b\<rparr>)"
  by (simp add: session_kept_def Let_def)

lemma deliver_answer:
  assumes "r < length (hs_entries st)" "\<not> se_overlapped (entry_at r st)" "unat (se_client_max (entry_at r st)) \<le> 2 ^ 24"
    and "ex_data ex = Some d" "length d < n"
  shows "\<exists>w' st' ms. deliver r mid ex task \<lparr>wr_sent = [], wr_left = n\<rparr> st = (Continue, task, w', st') \<and> hs_bus st' = hs_bus st \<and>
    wr_sent w' = ms \<and> concat (map msg_payload ms) = d \<and> ms \<noteq> [] \<and>
    (\<forall>i<length ms. msg_type (ms ! i) = (if Suc i = length ms then DataEnd else Data) \<and> msg_parameter (ms ! i) = mid \<and>
       message_ok CLIENT_MAX_MESSAGE_SIZE (ms ! i)) \<and> session_kept r st st' \<and> se_mav (entry_at r st')"
proof -
  let ?st0 = "on_entry r (\<lambda>e. e\<lparr>se_mav := True\<rparr>) st"
  let ?e = "entry_at r ?st0"
  have e: "\<not> se_overlapped ?e" "unat (se_client_max ?e) \<le> 2 ^ 24" using assms(1-3) by simp_all
  obtain ms w' where ms: "write_response mid d ?e \<lparr>wr_sent = [], wr_left = n\<rparr> = (Inr w', after_reply (length ms) ?e)"
    "wr_sent w' = ms" "concat (map msg_payload ms) = d" "ms \<noteq> []"
    "\<forall>i<length ms. msg_type (ms ! i) = (if Suc i = length ms then DataEnd else Data) \<and>
        length (write_to (ms ! i)) \<le> max (unat (se_client_max ?e)) 272 \<and> msg_parameter (ms ! i) = mid"
    using write_response_whole [of d ?e "\<lparr>wr_sent = [], wr_left = n\<rparr>" mid] reply_pieces_few [of d ?e] assms(5) e(1) by auto
  have ok: "message_ok CLIENT_MAX_MESSAGE_SIZE (ms ! i)" if "i < length ms" for i
    using ms(5) that e(2) by (intro reply_message_ok [of ?e]) auto
  let ?st1 = "on_entry r (\<lambda>_. after_reply (length ms) ?e) ?st0"
  let ?st' = "case ex_service_request ex of Some stb \<Rightarrow> on_entry r (raise_service_request stb) ?st1 | None \<Rightarrow> ?st1"
  have "deliver r mid ex task \<lparr>wr_sent = [], wr_left = n\<rparr> st = (Continue, task, w', ?st')"
    using ms(1) assms(4) by (simp add: deliver_def Let_def)
  moreover have "hs_bus ?st' = hs_bus st" "session_kept r st ?st'" "se_mav (entry_at r ?st')"
    using assms(1,2) by (simp_all add: session_kept_def Let_def after_reply_def raise_service_request_def async_send_def split: option.split)
  ultimately show ?thesis
    using ms ok by (intro exI conjI) auto
qed

definition sync_only :: "(sync_task \<times> 'b hislip) peer \<Rightarrow> (sync_task \<times> 'b hislip) hislip_net" where
  "sync_only p = \<lparr>hn_sync = p, hn_async = (\<lambda>_ _ _. None)\<rparr>"

abbreviation command_message :: "bytes \<Rightarrow> u32 \<Rightarrow> message" where
  "command_message cmd i \<equiv> with_payload (message_params DataEnd 0 i) cmd"

lemma command_message_ok:
  "length cmd \<le> unat maxlen \<Longrightarrow> length cmd \<le> isize_max \<Longrightarrow> message_ok maxlen (command_message cmd i)"
  by (simp add: message_ok_def type_ok_def with_payload_def message_params_def)

lemma command_message_fields [simp]:
  "msg_type (command_message cmd i) = DataEnd" "msg_payload (command_message cmd i) = cmd"
  "msg_parameter (command_message cmd i) = i" "msg_control (command_message cmd i) = 0"
  by (simp_all add: with_payload_def message_params_def)

lemma query_answered:
  assumes ready: "ready_session cfg r c task st"
    and fits: "length cmd \<le> unat (hc_max_message_size cfg)" "length cmd \<le> isize_max"
    and run: "dv_execute (se_device (entry_at r st)) False cmd (query_hint cmd) (hs_bus st) = (Inr ex, b)"
    and answer: "ex_data ex = Some d" "length d < n"
  shows "\<exists>st'. hislip_query (sync_only (at_sync quiet_env cfg r n)) cmd c =
      Some (Inr d, c\<lparr>hl_message_id := hl_message_id c + 2, hl_peer := (task, st')\<rparr>) \<and> hs_bus st' = b \<and>
    session_kept r st st' \<and> se_mav (entry_at r st')"
proof -
  let ?i = "hl_message_id c"
  let ?m = "command_message cmd ?i"
  let ?st = "on_entry r (note_client_message ?m) st\<lparr>hs_bus := b\<rparr>"
  have task: "task\<lparr>sy_buffer := []\<rparr> = task" using ready by (simp add: ready_session_def)
  have turn: "sync_message quiet_env cfg r ?m task \<lparr>wr_sent = [], wr_left = n\<rparr> st =
      Some (deliver r ?i ex task \<lparr>wr_sent = [], wr_left = n\<rparr> ?st)"
    using command_end [of ?m cfg r st task ex b "\<lparr>wr_sent = [], wr_left = n\<rparr>"] ready run command_message_ok [OF fits, of ?i]
    by (simp add: ready_session_def task)
  obtain w' st' ms where out: "deliver r ?i ex task \<lparr>wr_sent = [], wr_left = n\<rparr> ?st = (Continue, task, w', st')"
      "hs_bus st' = b" "wr_sent w' = ms" "concat (map msg_payload ms) = d" "ms \<noteq> []"
      "\<forall>i<length ms. msg_type (ms ! i) = (if Suc i = length ms then DataEnd else Data) \<and> msg_parameter (ms ! i) = ?i \<and>
         message_ok CLIENT_MAX_MESSAGE_SIZE (ms ! i)"
      "session_kept r ?st st'" "se_mav (entry_at r st')"
    using deliver_answer [of r ?st ex d n ?i task] ready answer by (auto simp: ready_session_def)
  have "query_replies ?i [] (feed (concat (map write_to ms)) (hl_sync_in c)) = (Inr d, hl_sync_in c)"
    using query_replies_messages [of ms ?i "[]" "hl_sync_in c"] out(4-6) by simp
  moreover have "at_sync quiet_env cfg r n (write_to ?m) (hl_sync_in c) (task, st) =
      Some (Inr (feed (concat (map write_to ms)) (hl_sync_in c), task, st'))"
    using ready turn out(1,3) by (simp add: at_sync_message [OF command_message_ok [OF fits]] ready_session_def feed_def)
  ultimately have "hislip_query (sync_only (at_sync quiet_env cfg r n)) cmd c =
      Some (Inr d, c\<lparr>hl_message_id := ?i + 2, hl_peer := (task, st')\<rparr>)"
    using ready
    by (simp add: hislip_query_def next_message_id_def then_call_def send_data_def send_sync_def sync_only_def ready_session_def)
  moreover have "session_kept r st st'"
    using session_kept_trans [OF session_kept_noted out(7)] ready by (simp add: ready_session_def)
  ultimately show ?thesis using out(2,8) by blast
qed

lemma write_served:
  assumes ready: "ready_session cfg r c task st"
    and fits: "length cmd \<le> unat (hc_max_message_size cfg)" "length cmd \<le> isize_max"
    and run: "dv_execute (se_device (entry_at r st)) False cmd (query_hint cmd) (hs_bus st) = (Inr ex, b)" "ex_data ex = None"
  shows "\<exists>st'. hislip_write (sync_only (at_sync quiet_env cfg r n)) cmd c =
      Some (Inr (), c\<lparr>hl_message_id := hl_message_id c + 2, hl_peer := (task, st')\<rparr>) \<and> hs_bus st' = b \<and>
    session_kept r st st' \<and> se_mav (entry_at r st') = se_mav (entry_at r st) \<and>
    se_last_message_id (entry_at r st') = hl_message_id c"
proof -
  let ?i = "hl_message_id c"
  let ?m = "command_message cmd ?i"
  let ?st = "on_entry r (note_client_message ?m) st\<lparr>hs_bus := b\<rparr>"
  let ?st' = "case ex_service_request ex of Some stb \<Rightarrow> on_entry r (raise_service_request stb) ?st | None \<Rightarrow> ?st"
  have task: "task\<lparr>sy_buffer := []\<rparr> = task" using ready by (simp add: ready_session_def)
  have r: "r < length (hs_entries st)" using ready by (simp add: ready_session_def)
  have "sync_message quiet_env cfg r ?m task \<lparr>wr_sent = [], wr_left = n\<rparr> st =
      Some (Continue, task, \<lparr>wr_sent = [], wr_left = n\<rparr>, ?st')"
    using command_end [of ?m cfg r st task ex b "\<lparr>wr_sent = [], wr_left = n\<rparr>"] ready run command_message_ok [OF fits, of ?i]
    by (simp add: ready_session_def task deliver_def)
  then have "hislip_write (sync_only (at_sync quiet_env cfg r n)) cmd c =
      Some (Inr (), c\<lparr>hl_message_id := ?i + 2, hl_peer := (task, ?st')\<rparr>)"
    using ready
    by (simp add: hislip_write_def next_message_id_def send_data_def send_sync_def sync_only_def ready_session_def
        at_sync_message [OF command_message_ok [OF fits]])
  moreover have "hs_bus ?st' = b" "session_kept r st ?st'" "se_last_message_id (entry_at r ?st') = ?i"
    "se_mav (entry_at r ?st') = se_mav (entry_at r st)"
    using r by (simp_all add: session_kept_def Let_def raise_service_request_def async_send_def note_client_message_def
        take_consumed_stb_def has_flag_def split: option.split)
  ultimately show ?thesis by blast
qed

text \<open>A conversation of queries, and what the instrument answers to them when it is asked directly.\<close>

fun ask_all :: "'p hislip_net \<Rightarrow> bytes list \<Rightarrow> 'p hislip_client \<Rightarrow> (bytes list \<times> 'p hislip_client) option" where
  "ask_all net [] c = Some ([], c)"
| "ask_all net (cmd # cmds) c =
     (case hislip_query net cmd c of
        Some (Inr d, c1) \<Rightarrow> map_option (apfst (Cons d)) (ask_all net cmds c1)
      | _ \<Rightarrow> None)"

fun device_answers :: "'b device \<Rightarrow> bytes list \<Rightarrow> 'b \<Rightarrow> (bytes list \<times> 'b) option" where
  "device_answers dev [] b = Some ([], b)"
| "device_answers dev (cmd # cmds) b =
     (case dv_execute dev False cmd (query_hint cmd) b of
        (Inr ex, b1) \<Rightarrow>
          (case ex_data ex of Some d \<Rightarrow> map_option (apfst (Cons d)) (device_answers dev cmds b1) | None \<Rightarrow> None)
      | _ \<Rightarrow> None)"

lemma asked_all:
  assumes "ready_session cfg r c task st"
    and "list_all (\<lambda>cmd. length cmd \<le> unat (hc_max_message_size cfg) \<and> length cmd \<le> isize_max) cmds"
    and "device_answers (se_device (entry_at r st)) cmds (hs_bus st) = Some (ds, b)" "list_all (\<lambda>d. length d < n) ds"
  shows "\<exists>st'. ask_all (sync_only (at_sync quiet_env cfg r n)) cmds c =
      Some (ds, c\<lparr>hl_message_id := hl_message_id c + 2 * of_nat (length cmds), hl_peer := (task, st')\<rparr>) \<and> hs_bus st' = b"
  using assms
proof (induction cmds arbitrary: c st ds)
  case Nil
  then show ?case by (auto simp: ready_session_def intro!: exI [of _ st])
next
  case (Cons cmd cmds)
  let ?dev = "se_device (entry_at r st)"
  obtain ex b1 d ds' where run: "dv_execute ?dev False cmd (query_hint cmd) (hs_bus st) = (Inr ex, b1)" "ex_data ex = Some d"
      "device_answers ?dev cmds b1 = Some (ds', b)" "ds = d # ds'"
    using Cons.prems(3) by (auto split: prod.splits sum.splits option.splits)
  obtain st1 where one: "hislip_query (sync_only (at_sync quiet_env cfg r n)) cmd c =
      Some (Inr d, c\<lparr>hl_message_id := hl_message_id c + 2, hl_peer := (task, st1)\<rparr>)" "hs_bus st1 = b1" "session_kept r st st1"
    using query_answered [OF Cons.prems(1) _ _ run(1,2)] Cons.prems(2,4) run(4) by auto
  have "ready_session cfg r (c\<lparr>hl_message_id := hl_message_id c + 2, hl_peer := (task, st1)\<rparr>) task st1"
    by (rule session_kept_ready [OF Cons.prems(1) one(3)])
  moreover have "se_device (entry_at r st1) = ?dev" using one(3) by (simp add: session_kept_def Let_def)
  ultimately show ?case
    using Cons.IH [of "c\<lparr>hl_message_id := hl_message_id c + 2, hl_peer := (task, st1)\<rparr>" st1 ds'] Cons.prems(2,4) run(3,4) one(1,2)
    by (auto simp: algebra_simps)
qed

section \<open>Properties of client and server together\<close>

text \<open>C6. A conversation over HiSLIP is the conversation with the instrument: on a session in synchronized mode that
  has access and nothing in flight, a sequence of queries by the client against the server's synchronous loop
  returns, in order, exactly what the instrument answers when it is asked the same commands directly, each
  answer put together from however many messages it was cut into; the bus ends where the direct conversation
  leaves it, nothing of any answer is left in the channel, and the message ids have gone up by two a query,
  also where they wrap around.\<close>

theorem queries_are_transparent:
  assumes "ready_session cfg r c task st"
    and "list_all (\<lambda>cmd. length cmd \<le> unat (hc_max_message_size cfg) \<and> length cmd \<le> isize_max) cmds"
    and "device_answers (se_device (entry_at r st)) cmds (hs_bus st) = Some (ds, b)" "list_all (\<lambda>d. length d < n) ds"
  shows "\<exists>c' st'. ask_all (sync_only (at_sync quiet_env cfg r n)) cmds c = Some (ds, c') \<and> hl_peer c' = (task, st') \<and>
    hs_bus st' = b \<and> pending (hl_sync_in c') = [] \<and> hl_message_id c' = hl_message_id c + 2 * of_nat (length cmds)"
  using asked_all [OF assms] assms(1) by (auto simp: ready_session_def)

definition demo_client :: "'p \<Rightarrow> 'p hislip_client" where
  "demo_client p = \<lparr>hl_sync_in = \<lparr>pending = [], broken = None\<rparr>, hl_async_in = \<lparr>pending = [], broken = None\<rparr>, hl_peer = p,
     hl_message_id = FIRST_MESSAGE_ID, hl_last_srq = None\<rparr>"

lemma demo_ready:
  "ready_session default_hislip_config 0 (demo_client (demo_task, demo_hislip\<lparr>hs_bus := b\<rparr>)) demo_task (demo_hislip\<lparr>hs_bus := b\<rparr>)"
  by (simp add: ready_session_def demo_client_def demo_task_def demo_hislip_def session_has_access_def has_access_def
      new_registry_def entry_at_def demo_entry_def new_entry_def)

lemma demo_execute:
  "dv_execute (se_device (entry_at 0 demo_hislip)) = execute scripted_ops 5"
  by (simp add: entry_at_def demo_hislip_def demo_entry_def new_entry_def demo_instrument_def gpib_instrument_def)

abbreviation demo_query :: bytes where
  "demo_query \<equiv> [0x2A, 0x49, 0x44, 0x4E, 0x3F]"

abbreviation demo_two_answers :: scripted where
  "demo_two_answers \<equiv> scripted0\<lparr>sb_replies := [Inr ([0x41, 0x0A], True), Inr ([0x42, 0x0A], True)]\<rparr>"

theorem queries_are_transparent_witness:
  "\<exists>c' st'. ask_all (sync_only (at_sync quiet_env default_hislip_config 0 9)) [demo_query, demo_query]
       (demo_client (demo_task, demo_hislip\<lparr>hs_bus := demo_two_answers\<rparr>)) = Some ([[0x41, 0x0A], [0x42, 0x0A]], c') \<and>
     hl_peer c' = (demo_task, st') \<and> sb_log (hs_bus st') = [(True, demo_query, True), (True, demo_query, True)] \<and>
     hl_message_id c' = 0xffffff04"
proof -
  let ?st = "demo_hislip\<lparr>hs_bus := demo_two_answers\<rparr>" and ?dev = "demo_instrument :: scripted device"
  have dev: "se_device (entry_at 0 ?st) = ?dev" by (simp add: entry_at_def demo_hislip_def demo_entry_def new_entry_def)
  have "map_option fst (device_answers ?dev [demo_query, demo_query] demo_two_answers) = Some [[0x41, 0x0A], [0x42, 0x0A]]"
    "map_option (\<lambda>x. sb_log (snd x)) (device_answers ?dev [demo_query, demo_query] demo_two_answers) =
       Some [(True, demo_query, True), (True, demo_query, True)]"
    by code_simp+
  then obtain b where "device_answers (se_device (entry_at 0 ?st)) [demo_query, demo_query] (hs_bus ?st) =
      Some ([[0x41, 0x0A], [0x42, 0x0A]], b)" "sb_log b = [(True, demo_query, True), (True, demo_query, True)]"
    unfolding dev by (auto simp del: device_answers.simps)
  then show ?thesis
    using queries_are_transparent [OF demo_ready, of "[demo_query, demo_query]" demo_two_answers "[[0x41, 0x0A], [0x42, 0x0A]]" b 9]
    by (auto simp: default_hislip_config_def demo_client_def isize_max_def simp del: device_answers.simps ask_all.simps)
qed

text \<open>C37. A response the client has read stays available for ever. The client leaves the RMT-delivered flag of every
  message clear, so the server never learns that a response was taken: after a query has returned its whole
  answer and a command without an answer has been sent, the status byte the client then asks for, quoting that
  command, still has the message-available bit set, whatever the instrument says of itself, although there is
  nothing left to read.\<close>

theorem delivered_answer_stays_available:
  assumes "ready_session cfg r c task st" "net = sync_only (at_sync quiet_env cfg r n)"
    and "list_all (\<lambda>cmd. length cmd \<le> unat (hc_max_message_size cfg) \<and> length cmd \<le> isize_max) [q, w]"
    and "dv_execute (se_device (entry_at r st)) False q (query_hint q) (hs_bus st) = (Inr ex, b)"
    and "ex_data ex = Some d" "length d < n"
    and "dv_execute (se_device (entry_at r st)) False w (query_hint w) b = (Inr ex', b')" "ex_data ex' = None"
  shows "\<exists>c1 c2 st2. hislip_query net q c = Some (Inr d, c1) \<and> hislip_write net w c1 = Some (Inr (), c2) \<and>
    hl_peer c2 = (task, st2) \<and> pending (hl_sync_in c2) = [] \<and>
    has_flag (status_byte polled (hl_message_id c2 - 2) (entry_at r st2)) STB_MAV"
proof -
  obtain st1 where one: "hislip_query net q c = Some (Inr d, c\<lparr>hl_message_id := hl_message_id c + 2, hl_peer := (task, st1)\<rparr>)"
      "hs_bus st1 = b" "session_kept r st st1" "se_mav (entry_at r st1)"
    using query_answered [OF assms(1) _ _ assms(4-6)] assms(2,3) by auto
  let ?c1 = "c\<lparr>hl_message_id := hl_message_id c + 2, hl_peer := (task, st1)\<rparr>"
  have ready: "ready_session cfg r ?c1 task st1" by (rule session_kept_ready [OF assms(1) one(3)])
  have "se_device (entry_at r st1) = se_device (entry_at r st)" using one(3) by (simp add: session_kept_def Let_def)
  then obtain st2 where two: "hislip_write net w ?c1 = Some (Inr (), ?c1\<lparr>hl_message_id := hl_message_id ?c1 + 2, hl_peer := (task, st2)\<rparr>)"
      "session_kept r st1 st2" "se_mav (entry_at r st2)" "se_last_message_id (entry_at r st2) = hl_message_id ?c1"
    using write_served [OF ready, of w ex' b' n] assms(2,3,7,8) one(2,4) by auto
  have "\<not> se_overlapped (entry_at r st2)"
    using ready two(2) by (simp add: ready_session_def session_kept_def Let_def)
  then have "has_flag (status_byte polled (hl_message_id c + 2) (entry_at r st2)) STB_MAV"
    using two(3,4) by (simp add: status_mav mav_bit_eq)
  with one(1) two(1) assms(1) show ?thesis by (simp add: ready_session_def add.commute)
qed

theorem delivered_answer_stays_available_witness:
  "\<exists>c1 c2 st2. hislip_query (sync_only (at_sync quiet_env default_hislip_config 0 9)) demo_query
       (demo_client (demo_task, demo_hislip\<lparr>hs_bus := demo_bus\<rparr>)) = Some (Inr [0x41, 0x0A], c1) \<and>
     hislip_write (sync_only (at_sync quiet_env default_hislip_config 0 9)) [0x2A, 0x43, 0x4C, 0x53] c1 = Some (Inr (), c2) \<and>
     hl_peer c2 = (demo_task, st2) \<and> pending (hl_sync_in c2) = [] \<and>
     has_flag (status_byte (Inr 0) (hl_message_id c2 - 2) (entry_at 0 st2)) STB_MAV"
proof -
  let ?x = "execute scripted_ops 5 False demo_query (query_hint demo_query) demo_bus"
  let ?cls = "[0x2A, 0x43, 0x4C, 0x53] :: bytes"
  have "fst ?x = Inr \<lparr>ex_data = Some [0x41, 0x0A], ex_service_request = None\<rparr>"
    "fst (execute scripted_ops 5 False ?cls (query_hint ?cls) (snd ?x)) = Inr \<lparr>ex_data = None, ex_service_request = None\<rparr>"
    by code_simp+
  then obtain b b' where x: "?x = (Inr \<lparr>ex_data = Some [0x41, 0x0A], ex_service_request = None\<rparr>, b)"
    and y: "execute scripted_ops 5 False ?cls (query_hint ?cls) b = (Inr \<lparr>ex_data = None, ex_service_request = None\<rparr>, b')"
    by (metis prod.collapse)
  show ?thesis
    by (rule delivered_answer_stays_available [OF demo_ready refl, where b = b and b' = b' and
          ex = "\<lparr>ex_data = Some [0x41, 0x0A], ex_service_request = None\<rparr>" and ex' = "\<lparr>ex_data = None, ex_service_request = None\<rparr>"])
      (simp_all add: demo_execute x y default_hislip_config_def isize_max_def)
qed

end
