(* ===== verification/Usbtmc_Usb.thy ===== *)
theory Usbtmc_Usb
  imports Usbtmc Select Usb_Pipe
begin

text \<open>
  The USB side of a USBTMC instrument, \<^verbatim>\<open>src/src/backend/usbtmc/usb.rs\<close>: opening the interface and finding its
  endpoints, bulk transfers in pieces of at most 16 KiB, the task that reads the interrupt endpoint, and the
  transport the driver of \<^verbatim>\<open>usbtmc/mod.rs\<close> works on. What the interrupt endpoint delivers during each wait for a
  status byte is part of the state, with the milliseconds since the wait began.
\<close>

section \<open>Endpoints\<close>

text \<open>Besides the transfers of every transport this one can withdraw them: cancelling, the number of transfers that
  are still submitted, and awaiting one completion without a limit.\<close>

record 'h tmc_pipe = "'h usb_pipe" +
  tp_cancel_out :: "'h \<Rightarrow> 'h"
  tp_pending_out :: "'h \<Rightarrow> nat"
  tp_collect_out :: "'h \<Rightarrow> 'h"
  tp_cancel_in :: "'h \<Rightarrow> 'h"
  tp_pending_in :: "'h \<Rightarrow> nat"
  tp_collect_in :: "'h \<Rightarrow> 'h"
  tp_clear_halt_out :: "('h, unit) act"
  tp_clear_halt_in :: "('h, unit) act"
  tp_class_control :: "recipient \<Rightarrow> u8 \<Rightarrow> u16 \<Rightarrow> u16 \<Rightarrow> nat \<Rightarrow> ('h, bytes) act"

text \<open>The loop takes one completion after the other while there is one; as many turns as there were transfers are
  enough for an endpoint on which each completion takes one of them away.\<close>

fun collect_all :: "('h \<Rightarrow> nat) \<Rightarrow> ('h \<Rightarrow> 'h) \<Rightarrow> nat \<Rightarrow> 'h \<Rightarrow> 'h" where
  "collect_all pend collect 0 h = h"
| "collect_all pend collect (Suc n) h = (if 0 < pend h then collect_all pend collect n (collect h) else h)"

definition discard_pending :: "('h \<Rightarrow> 'h) \<Rightarrow> ('h \<Rightarrow> nat) \<Rightarrow> ('h \<Rightarrow> 'h) \<Rightarrow> 'h \<Rightarrow> 'h" where
  "discard_pending cancel pend collect h = (let h1 = cancel h in collect_all pend collect (pend h1) h1)"

definition discard_out :: "'h tmc_pipe \<Rightarrow> 'h \<Rightarrow> 'h" where
  "discard_out up = discard_pending (tp_cancel_out up) (tp_pending_out up) (tp_collect_out up)"

definition discard_in :: "'h tmc_pipe \<Rightarrow> 'h \<Rightarrow> 'h" where
  "discard_in up = discard_pending (tp_cancel_in up) (tp_pending_in up) (tp_collect_in up)"

abbreviation MAX_URB :: nat where "MAX_URB \<equiv> 16384"

text \<open>\<^verbatim>\<open>{:?}\<close> of a duration in milliseconds.\<close>

definition millis_fraction :: "nat \<Rightarrow> rstr" where
  "millis_fraction ms =
     rev (dropWhile (\<lambda>c. c = 48) (rev [48 + ms div 100 mod 10, 48 + ms div 10 mod 10, 48 + ms mod 10]))"

definition duration_debug :: "nat \<Rightarrow> rstr" where
  "duration_debug ms =
     (if 1000 \<le> ms then
        dec (ms div 1000) @ (if ms mod 1000 = 0 then [] else lit ''.'' @ millis_fraction (ms mod 1000)) @ lit ''s''
      else if 0 < ms then dec ms @ lit ''ms'' else lit ''0ns'')"

fun send_urbs :: "'h tmc_pipe \<Rightarrow> nat \<Rightarrow> bytes list \<Rightarrow> ('h, unit) act" where
  "send_urbs up ms [] h = (Inr (), h)"
| "send_urbs up ms (chunk # rest) h =
     (case up_next_out up ms (up_submit_out up chunk h) of
        (None, h1) \<Rightarrow> (Inl (lit ''usbtmc bulk-out timed out after '' @ duration_debug ms), discard_out up h1)
      | (Some (Inl e), h1) \<Rightarrow> (Inl (lit ''usbtmc bulk-out failed: '' @ e), h1)
      | (Some (Inr _), h1) \<Rightarrow> send_urbs up ms rest h1)"

text \<open>A read goes on until a piece comes back shorter than asked for or the wanted length is there.\<close>

function read_urbs :: "'h tmc_pipe \<Rightarrow> nat \<Rightarrow> nat \<Rightarrow> nat \<Rightarrow> bytes \<Rightarrow> ('h, bytes) act" where
  "read_urbs up packet ms max_len acc h =
     (if length acc < max_len then
        let want = round_up (max 1 packet) (min (max_len - length acc) MAX_URB)
        in case up_next_in up ms (up_submit_in up want h) of
             (None, h1) \<Rightarrow> (Inl (lit ''usbtmc bulk-in timed out after '' @ duration_debug ms), discard_in up h1)
           | (Some (Inl e), h1) \<Rightarrow> (Inl (lit ''usbtmc bulk-in failed: '' @ e), h1)
           | (Some (Inr buffer), h1) \<Rightarrow>
               if length buffer < want then (Inr (acc @ buffer), h1)
               else read_urbs up packet ms max_len (acc @ buffer) h1
      else (Inr acc, h))"
  by pat_completeness auto

lemma round_up_ge: "0 < mps \<Longrightarrow> n \<le> round_up mps n"
proof -
  assume "0 < mps"
  then have "n + mps - 1 < (n + mps - 1) div mps * mps + mps"
    using mod_less_divisor [of mps "n + mps - 1"] div_mult_mod_eq [of "n + mps - 1" mps] by linarith
  then show ?thesis unfolding round_up_def using \<open>0 < mps\<close> by linarith
qed

termination read_urbs
proof (relation "measure (\<lambda>(up, packet, ms, max_len, acc, h). max_len - length acc)", goal_cases)
  case (2 up packet ms max_len acc h want r h1 x buffer)
  have "min (max_len - length acc) MAX_URB \<le> round_up (max 1 packet) (min (max_len - length acc) MAX_URB)"
    by (rule round_up_ge) simp
  with 2 have "0 < length buffer" by auto
  with 2(1) have "max_len - (length acc + length buffer) < max_len - length acc" by arith
  then show ?case by simp
qed simp

declare read_urbs.simps [simp del]

section \<open>The interrupt endpoint\<close>

text \<open>The queue of status bytes is there when the interface has an interrupt endpoint. The receiver lives as long as
  the transport, so nothing ends the reader while the transport is in use.\<close>

record 'h tmc_usb_state =
  tu_io :: 'h
  tu_interface_number :: u8
  tu_bulk_in :: u8
  tu_bulk_out :: u8
  tu_timeout_ms :: u32
  tu_srq_sent :: nat
  tu_srq_status :: "u8 option"
  tu_status_bytes :: "(u8 \<times> u8) list option"
  tu_reading :: bool
  tu_arriving :: "(nat \<times> bytes io) list list"

abbreviation NOTIFY_SRQ :: u8 where "NOTIFY_SRQ \<equiv> 0x81"

definition interrupt_packet :: "bytes io \<Rightarrow> 'h tmc_usb_state \<Rightarrow> 'h tmc_usb_state" where
  "interrupt_packet completion u =
     (case completion of
        Inr (b1 # b2 # _) \<Rightarrow>
          if b1 = NOTIFY_SRQ then u\<lparr>tu_srq_status := Some b2, tu_srq_sent := tu_srq_sent u + 1\<rparr>
          else if NOTIFY_SRQ < b1 then u\<lparr>tu_status_bytes := map_option (\<lambda>q. q @ [(b1 AND 0x7f, b2)]) (tu_status_bytes u)\<rparr>
          else u
      | _ \<Rightarrow> u)"

definition interrupt_reader :: "bytes io list \<Rightarrow> 'h tmc_usb_state \<Rightarrow> 'h tmc_usb_state" where
  "interrupt_reader completions u = fold interrupt_packet completions u"

section \<open>The transport of the driver\<close>

definition on_endpoints :: "('h \<Rightarrow> 'a \<times> 'h) \<Rightarrow> 'h tmc_usb_state \<Rightarrow> 'a \<times> 'h tmc_usb_state" where
  "on_endpoints f u = (case f (tu_io u) of (r, h) \<Rightarrow> (r, u\<lparr>tu_io := h\<rparr>))"

definition tmc_bulk_out :: "'h tmc_pipe \<Rightarrow> bytes \<Rightarrow> ('h tmc_usb_state, unit) act" where
  "tmc_bulk_out up d u = on_endpoints (send_urbs up (unat (tu_timeout_ms u)) (chunks MAX_URB d)) u"

definition tmc_bulk_in_within :: "'h tmc_pipe \<Rightarrow> nat \<Rightarrow> nat \<Rightarrow> ('h tmc_usb_state, bytes) act" where
  "tmc_bulk_in_within up max_len ms u = on_endpoints (read_urbs up (up_max_packet_size up (tu_io u)) ms max_len []) u"

definition tmc_bulk_in :: "'h tmc_pipe \<Rightarrow> nat \<Rightarrow> ('h tmc_usb_state, bytes) act" where
  "tmc_bulk_in up max_len u = tmc_bulk_in_within up max_len (unat (tu_timeout_ms u)) u"

definition tmc_control_in :: "'h tmc_pipe \<Rightarrow> recipient \<Rightarrow> u8 \<Rightarrow> u16 \<Rightarrow> u16 \<Rightarrow> nat \<Rightarrow> ('h tmc_usb_state, bytes) act" where
  "tmc_control_in up to request v index len =
     on_endpoints (with_context (lit ''usbtmc control request '' @ hex_u8 request @ lit '' failed'')
       (tp_class_control up to request v index (len mod 2 ^ 16)))"

definition tmc_reset_bulk_in :: "'h tmc_pipe \<Rightarrow> ('h tmc_usb_state, unit) act" where
  "tmc_reset_bulk_in up = on_endpoints (\<lambda>h. with_context (lit ''usbtmc clear bulk-in halt'') (tp_clear_halt_in up) (discard_in up h))"

definition tmc_reset_bulk_out :: "'h tmc_pipe \<Rightarrow> ('h tmc_usb_state, unit) act" where
  "tmc_reset_bulk_out up =
     on_endpoints (\<lambda>h. with_context (lit ''usbtmc clear bulk-out halt'') (tp_clear_halt_out up) (discard_out up h))"

text \<open>A notification that is queued already counts, also when the wait is over; otherwise the reader goes on while
  there is time. Notifications with another tag are dropped.\<close>

fun await_status_byte :: "u8 \<Rightarrow> nat \<Rightarrow> (nat \<times> bytes io) list \<Rightarrow> (u8 \<times> u8) list \<Rightarrow> ('h tmc_usb_state, u8) act" where
  "await_status_byte tag ms arriving ((t, stb) # q) u =
     (if t = tag then (Inr stb, interrupt_reader (map snd arriving) (u\<lparr>tu_status_bytes := Some q\<rparr>))
      else await_status_byte tag ms arriving q u)"
| "await_status_byte tag ms arriving [] u =
     (if \<not> tu_reading u then (Inl (lit ''usbtmc interrupt reader has stopped''), u\<lparr>tu_status_bytes := Some []\<rparr>)
      else case arriving of
             (at, c) # later \<Rightarrow>
               if at \<le> ms then
                 let u1 = interrupt_packet c (u\<lparr>tu_status_bytes := Some []\<rparr>)
                 in await_status_byte tag ms later (case tu_status_bytes u1 of Some q \<Rightarrow> q | None \<Rightarrow> []) u1
               else (Inl (lit ''timed out waiting for the status byte on the interrupt endpoint: deadline has elapsed''),
                     interrupt_reader (map snd arriving) (u\<lparr>tu_status_bytes := Some []\<rparr>))
           | [] \<Rightarrow> (Inl (lit ''timed out waiting for the status byte on the interrupt endpoint: deadline has elapsed''),
                   u\<lparr>tu_status_bytes := Some []\<rparr>))"

definition status_byte_notification :: "u8 \<Rightarrow> nat \<Rightarrow> ('h tmc_usb_state, u8) act" where
  "status_byte_notification tag ms u =
     (case tu_status_bytes u of
        None \<Rightarrow> (Inl (lit ''this interface has no interrupt endpoint''), u)
      | Some q \<Rightarrow>
          (case tu_arriving u of
             [] \<Rightarrow> await_status_byte tag ms [] q u
           | arriving # later \<Rightarrow> await_status_byte tag ms arriving q (u\<lparr>tu_arriving := later\<rparr>)))"

definition tmc_usb_transport :: "'h tmc_pipe \<Rightarrow> 'h tmc_usb_state tmc_transport" where
  "tmc_usb_transport up =
     \<lparr>tt_bulk_out = tmc_bulk_out up, tt_bulk_in = tmc_bulk_in up, tt_bulk_in_within = tmc_bulk_in_within up,
      tt_control_in = tmc_control_in up, tt_reset_bulk_in = tmc_reset_bulk_in up, tt_reset_bulk_out = tmc_reset_bulk_out up,
      tt_interface_number = tu_interface_number, tt_bulk_in_address = tu_bulk_in, tt_bulk_out_address = tu_bulk_out,
      tt_set_timeout = (\<lambda>ms u. u\<lparr>tu_timeout_ms := ms\<rparr>), tt_has_interrupt_in = (\<lambda>u. tu_status_bytes u \<noteq> None),
      tt_status_byte_notification = status_byte_notification, tt_can_srq = (\<lambda>u. tu_status_bytes u \<noteq> None),
      tt_take_srq_status = (\<lambda>u. (tu_srq_status u, u\<lparr>tu_srq_status := None\<rparr>)), tt_peek_srq_status = tu_srq_status\<rparr>"

section \<open>Opening\<close>

datatype endpoint_type = ControlEndpoint | IsochronousEndpoint | BulkEndpoint | InterruptEndpoint

record endpoint_descriptor =
  ed_type :: endpoint_type
  ed_is_in :: bool
  ed_address :: u8

text \<open>What the machine offers for a device: opening it, claiming one of its interfaces from the kernel, the
  descriptor of the claimed interface, and its endpoints.\<close>

record 'h tmc_host = "'h tmc_pipe" +
  th_open :: "usb_device \<Rightarrow> ('h, unit) act"
  th_claim :: "usb_device \<Rightarrow> u8 \<Rightarrow> ('h, unit) act"
  th_descriptor :: "'h \<Rightarrow> endpoint_descriptor list option"
  th_endpoint :: "u8 \<Rightarrow> ('h, unit) act"

text \<open>The last endpoint of each kind is the one used.\<close>

definition last_endpoint :: "endpoint_type \<Rightarrow> bool \<Rightarrow> endpoint_descriptor list \<Rightarrow> u8 option" where
  "last_endpoint ty is_in eps = fold (\<lambda>ep found. if ed_type ep = ty \<and> ed_is_in ep = is_in then Some (ed_address ep) else found) eps None"

definition needed :: "rstr \<Rightarrow> 'a option \<Rightarrow> ('s, 'a) act" where
  "needed c x = (case x of Some a \<Rightarrow> ret a | None \<Rightarrow> bail c)"

definition new_tmc_usb :: "u8 \<Rightarrow> u8 \<Rightarrow> u8 \<Rightarrow> bool \<Rightarrow> 'h \<Rightarrow> (nat \<times> bytes io) list list \<Rightarrow> 'h tmc_usb_state" where
  "new_tmc_usb number bulk_in_addr bulk_out_addr interrupt h arriving =
     \<lparr>tu_io = h, tu_interface_number = number, tu_bulk_in = bulk_in_addr, tu_bulk_out = bulk_out_addr, tu_timeout_ms = 3000,
      tu_srq_sent = 0, tu_srq_status = None, tu_status_bytes = (if interrupt then Some [] else None), tu_reading = True,
      tu_arriving = arriving\<rparr>"

definition claim_tmc :: "'h tmc_host \<Rightarrow> usb_device \<Rightarrow> tmc_interface \<Rightarrow> ('h, u8 \<times> u8 \<times> u8 option) act" where
  "claim_tmc host dev tmc =
     seq (with_context (lit ''failed to open USBTMC device'') (th_open host dev))
     (seq (with_context (lit ''failed to claim USBTMC interface '' @ dec (unat (ti_number tmc)) @ lit '' '' @ [8212] @
             lit '' is another process using the device?'') (th_claim host dev (ti_number tmc)))
     (andthen (asks (th_descriptor host)) (\<lambda>desc.
      andthen (needed (lit ''USBTMC interface has no descriptor'') desc) (\<lambda>eps.
      andthen (needed (lit ''USBTMC interface has no bulk-IN endpoint'') (last_endpoint BulkEndpoint True eps)) (\<lambda>bulk_in_addr.
      andthen (needed (lit ''USBTMC interface has no bulk-OUT endpoint'') (last_endpoint BulkEndpoint False eps)) (\<lambda>bulk_out_addr.
      seq (with_context (lit ''open bulk-out endpoint '' @ hex_u8 bulk_out_addr) (th_endpoint host bulk_out_addr))
      (seq (with_context (lit ''open bulk-in endpoint '' @ hex_u8 bulk_in_addr) (th_endpoint host bulk_in_addr))
      (case last_endpoint InterruptEndpoint True eps of
         None \<Rightarrow> ret (bulk_in_addr, bulk_out_addr, None)
       | Some a \<Rightarrow>
           seq (with_context (lit ''open interrupt endpoint '' @ hex_u8 a) (th_endpoint host a))
             (ret (bulk_in_addr, bulk_out_addr, Some a))))))))))"

definition open_tmc_transport ::
  "'h tmc_host \<Rightarrow> rstr option \<Rightarrow> usb_device list io \<Rightarrow> (nat \<times> bytes io) list list \<Rightarrow> 'h \<Rightarrow>
   (select_error, 'h tmc_usb_state) result \<times> 'h" where
  "open_tmc_transport host port listing arriving h =
     (case tmc_find_device port listing of
        Inl e \<Rightarrow> (Inl e, h)
      | Inr (dev, tmc) \<Rightarrow>
          (case claim_tmc host dev tmc h of
             (Inl e, h1) \<Rightarrow> (Inl (OpenFailed e), h1)
           | (Inr (bulk_in_addr, bulk_out_addr, irq), h1) \<Rightarrow>
               (Inr (new_tmc_usb (ti_number tmc) bulk_in_addr bulk_out_addr (irq \<noteq> None) h1 arriving), h1)))"

section \<open>No transfer is left behind\<close>

text \<open>The transfers submitted and not yet handed over, out and in, and the laws of the endpoints as the documentation of
  \<^verbatim>\<open>nusb::Endpoint\<close> states them: a completion that is handed over takes one transfer away, one that did not come in
  time takes none, cancelling leaves the completions to be collected, and the two directions have nothing to do
  with each other.\<close>

definition load :: "'h tmc_pipe \<Rightarrow> 'h \<Rightarrow> nat \<times> nat" where
  "load up h = (tp_pending_out up h, tp_pending_in up h)"

definition endpoint_laws :: "'h tmc_pipe \<Rightarrow> bool" where
  "endpoint_laws up \<longleftrightarrow>
     (\<forall>h m k. load up h = (m, k) \<longrightarrow>
        (\<forall>d. load up (up_submit_out up d h) = (Suc m, k)) \<and> (\<forall>n. load up (up_submit_in up n h) = (m, Suc k)) \<and>
        (\<forall>ms r h'. up_next_out up ms h = (r, h') \<longrightarrow> 0 < m \<longrightarrow> load up h' = (if r = None then m else m - 1, k)) \<and>
        (\<forall>ms r h'. up_next_in up ms h = (r, h') \<longrightarrow> 0 < k \<longrightarrow> load up h' = (m, if r = None then k else k - 1)) \<and>
        load up (tp_cancel_out up h) = (m, k) \<and> load up (tp_cancel_in up h) = (m, k) \<and>
        (0 < m \<longrightarrow> load up (tp_collect_out up h) = (m - 1, k)) \<and> (0 < k \<longrightarrow> load up (tp_collect_in up h) = (m, k - 1)) \<and>
        load up (snd (tp_clear_halt_out up h)) = (m, k) \<and> load up (snd (tp_clear_halt_in up h)) = (m, k) \<and>
        (\<forall>to q v i n. load up (snd (tp_class_control up to q v i n h)) = (m, k)))"

lemma endpoint_lawsD:
  assumes "endpoint_laws up" "load up h = (m, k)"
  shows "load up (up_submit_out up d h) = (Suc m, k)" "load up (up_submit_in up n h) = (m, Suc k)"
    "up_next_out up ms h = (r, h') \<Longrightarrow> 0 < m \<Longrightarrow> load up h' = (if r = None then m else m - 1, k)"
    "up_next_in up ms h = (r', h') \<Longrightarrow> 0 < k \<Longrightarrow> load up h' = (m, if r' = None then k else k - 1)"
    "load up (tp_cancel_out up h) = (m, k)" "load up (tp_cancel_in up h) = (m, k)"
    "0 < m \<Longrightarrow> load up (tp_collect_out up h) = (m - 1, k)" "0 < k \<Longrightarrow> load up (tp_collect_in up h) = (m, k - 1)"
    "load up (snd (tp_clear_halt_out up h)) = (m, k)" "load up (snd (tp_clear_halt_in up h)) = (m, k)"
    "load up (snd (tp_class_control up to q v i n h)) = (m, k)"
  using assms(1) [unfolded endpoint_laws_def, THEN spec, THEN spec, THEN spec, THEN mp, OF assms(2)] by simp_all

lemma pending_load: "load up h = (m, k) \<Longrightarrow> tp_pending_out up h = m" "load up h = (m, k) \<Longrightarrow> tp_pending_in up h = k"
  by (simp_all add: load_def)

lemma collect_all_out:
  "endpoint_laws up \<Longrightarrow> load up h = (m, k) \<Longrightarrow> load up (collect_all (tp_pending_out up) (tp_collect_out up) m h) = (0, k)"
  by (induction m arbitrary: h) (auto simp: pending_load endpoint_lawsD(7))

lemma collect_all_in:
  "endpoint_laws up \<Longrightarrow> load up h = (m, k) \<Longrightarrow> load up (collect_all (tp_pending_in up) (tp_collect_in up) k h) = (m, 0)"
  by (induction k arbitrary: h) (auto simp: pending_load endpoint_lawsD(8))

lemma discard_load:
  assumes "endpoint_laws up" "load up h = (m, k)"
  shows "load up (discard_out up h) = (0, k)" "load up (discard_in up h) = (m, 0)"
  using collect_all_out [OF assms(1) endpoint_lawsD(5) [OF assms]] collect_all_in [OF assms(1) endpoint_lawsD(6) [OF assms]]
    endpoint_lawsD(5,6) [OF assms]
  by (simp_all add: discard_out_def discard_in_def discard_pending_def Let_def pending_load)

lemma send_urbs_load:
  "endpoint_laws up \<Longrightarrow> load up h = (0, k) \<Longrightarrow> load up (snd (send_urbs up ms cs h)) = (0, k)"
proof (induction cs arbitrary: h)
  case (Cons c cs)
  have s: "load up (up_submit_out up c h) = (Suc 0, k)" by (rule endpoint_lawsD(1) [OF Cons.prems])
  obtain r h1 where n: "up_next_out up ms (up_submit_out up c h) = (r, h1)" by force
  then have "load up h1 = (if r = None then Suc 0 else 0, k)" using endpoint_lawsD(3) [OF Cons.prems(1) s n] by simp
  then show ?case
    using n Cons by (auto simp: discard_load split: option.split sum.split)
qed simp

lemma read_urbs_load:
  "endpoint_laws up \<Longrightarrow> load up h = (m, 0) \<Longrightarrow> load up (snd (read_urbs up packet ms max_len acc h)) = (m, 0)"
proof (induction up packet ms max_len acc h rule: read_urbs.induct)
  case (1 up packet ms max_len acc h)
  let ?want = "round_up (max 1 packet) (min (max_len - length acc) MAX_URB)"
  have s: "load up (up_submit_in up ?want h) = (m, Suc 0)" by (rule endpoint_lawsD(2) [OF 1(2,3)])
  obtain r h1 where n: "up_next_in up ms (up_submit_in up ?want h) = (r, h1)" by force
  then have l: "load up h1 = (m, if r = None then Suc 0 else 0)" using endpoint_lawsD(4) [OF 1(2) s n] by simp
  show ?case
    using n l 1(1) [OF _ refl, of r h1] 1(2,3)
    by (subst read_urbs.simps) (auto simp: discard_load Let_def split: option.split sum.split)
qed

section \<open>Status bytes\<close>

text \<open>What the packets of the interrupt endpoint say, and the status byte of a poll, read off them.\<close>

definition status_notes :: "bytes io \<Rightarrow> (u8 \<times> u8) list" where
  "status_notes c = (case c of Inr (b1 # b2 # _) \<Rightarrow> if NOTIFY_SRQ < b1 then [(b1 AND 0x7f, b2)] else [] | _ \<Rightarrow> [])"

definition srq_notes :: "bytes io \<Rightarrow> u8 list" where
  "srq_notes c = (case c of Inr (b1 # b2 # _) \<Rightarrow> if b1 = NOTIFY_SRQ then [b2] else [] | _ \<Rightarrow> [])"

definition polled_byte :: "u8 \<Rightarrow> (u8 \<times> u8) list \<Rightarrow> u8 io" where
  "polled_byte tag notes =
     (case map_of notes tag of
        Some stb \<Rightarrow> Inr stb
      | None \<Rightarrow> Inl (lit ''timed out waiting for the status byte on the interrupt endpoint: deadline has elapsed''))"

definition latched :: "u8 option \<Rightarrow> u8 list \<Rightarrow> u8 option" where
  "latched old stbs = (if stbs = [] then old else Some (last stbs))"

lemma interrupt_packet_fields [simp]:
  "tu_status_bytes (interrupt_packet c u) = map_option (\<lambda>q. q @ status_notes c) (tu_status_bytes u)"
  "tu_srq_status (interrupt_packet c u) = latched (tu_srq_status u) (srq_notes c)"
  "tu_srq_sent (interrupt_packet c u) = tu_srq_sent u + length (srq_notes c)"
  "tu_reading (interrupt_packet c u) = tu_reading u" "tu_io (interrupt_packet c u) = tu_io u"
  by (auto simp: interrupt_packet_def status_notes_def srq_notes_def latched_def option.map_ident split: sum.split list.split)

lemma latched_append [simp]: "latched (latched old xs) ys = latched old (xs @ ys)"
  by (simp add: latched_def)

lemma interrupt_reader_fields [simp]:
  "tu_srq_status (interrupt_reader cs u) = latched (tu_srq_status u) (concat (map srq_notes cs))"
  "tu_srq_sent (interrupt_reader cs u) = tu_srq_sent u + length (concat (map srq_notes cs))"
  "tu_status_bytes (interrupt_reader cs u) = map_option (\<lambda>q. q @ concat (map status_notes cs)) (tu_status_bytes u)"
  by (induction cs arbitrary: u) (auto simp: interrupt_reader_def latched_def option.map_ident option.map_comp comp_def split: if_splits)

lemma await_status_byte_result:
  assumes "tu_reading u"
  shows "fst (await_status_byte tag ms arriving q u) =
      polled_byte tag (q @ concat (map (status_notes \<circ> snd) (takeWhile (\<lambda>(at, _). at \<le> ms) arriving)))"
    "tu_srq_sent (snd (await_status_byte tag ms arriving q u)) =
      tu_srq_sent u + length (concat (map (srq_notes \<circ> snd) arriving))"
    "tu_srq_status (snd (await_status_byte tag ms arriving q u)) =
      latched (tu_srq_status u) (concat (map (srq_notes \<circ> snd) arriving))"
  using assms
proof (induction tag ms arriving q u rule: await_status_byte.induct)
  case (1 tag ms arriving t stb q u)
  { case 1 then show ?case using "1.IH" by (simp add: polled_byte_def) }
  { case 2 then show ?case using "1.IH" by (simp add: comp_def) }
  { case 3 then show ?case using "1.IH" by (simp add: comp_def) }
next
  case (2 tag ms arriving u)
  { case 1 then show ?case using "2.IH"(1) by (cases arriving) (auto simp: polled_byte_def Let_def split: prod.splits) }
  { case 2 then show ?case using "2.IH"(2) by (cases arriving) (auto simp: comp_def Let_def split: prod.splits) }
  { case 3 then show ?case using "2.IH"(3) by (cases arriving) (auto simp: latched_def comp_def Let_def split: prod.splits) }
qed

section \<open>Properties\<close>

lemma on_endpoints_io: "tu_io (snd (on_endpoints f u)) = snd (f (tu_io u))"
  by (simp add: on_endpoints_def split: prod.split)

lemma with_context_snd: "snd (with_context c m s) = snd (m s)"
  by (simp add: with_context_def split: prod.split sum.split)

text \<open>C39. No transfer is left behind on the endpoints. Every method of the transport that starts with no transfer
  submitted ends with none submitted, whether it succeeds, fails or runs out of time, so that what an instrument
  sends late is never handed to the next caller as its answer; and resetting an endpoint withdraws whatever is
  submitted on it, however much that is, and nothing on the other one.\<close>

theorem no_transfer_left_behind:
  assumes "endpoint_laws up" "load up (tu_io u) = (0, 0)" "load up (tu_io u') = (m, k)"
  shows "load up (tu_io (snd (tt_bulk_out (tmc_usb_transport up) d u))) = (0, 0) \<and>
    load up (tu_io (snd (tt_bulk_in (tmc_usb_transport up) n u))) = (0, 0) \<and>
    load up (tu_io (snd (tt_bulk_in_within (tmc_usb_transport up) n ms u))) = (0, 0) \<and>
    load up (tu_io (snd (tt_control_in (tmc_usb_transport up) to q v i n u))) = (0, 0) \<and>
    load up (tu_io (snd (tt_reset_bulk_in (tmc_usb_transport up) u'))) = (m, 0) \<and>
    load up (tu_io (snd (tt_reset_bulk_out (tmc_usb_transport up) u'))) = (0, k)"
  using send_urbs_load [OF assms(1,2)] read_urbs_load [OF assms(1,2)] endpoint_lawsD(11) [OF assms(1,2)]
    endpoint_lawsD(10) [OF assms(1) discard_load(2) [OF assms(1,3)]] endpoint_lawsD(9) [OF assms(1) discard_load(1) [OF assms(1,3)]]
  by (simp add: tmc_usb_transport_def tmc_bulk_out_def tmc_bulk_in_def tmc_bulk_in_within_def tmc_control_in_def
      tmc_reset_bulk_in_def tmc_reset_bulk_out_def on_endpoints_io with_context_snd)

definition demo_pipe :: "(nat \<times> nat) tmc_pipe" where
  "demo_pipe =
     \<lparr>up_submit_out = (\<lambda>d (m, k). (Suc m, k)), up_next_out = (\<lambda>ms (m, k). (Some (Inr ()), (m - 1, k))),
      up_submit_in = (\<lambda>n (m, k). (m, Suc k)), up_next_in = (\<lambda>ms (m, k). (None, (m, k))),
      up_max_packet_size = (\<lambda>_. 64), up_clear_halt = (\<lambda>h. h), up_control_in = (\<lambda>q v i n. ret []),
      up_control_in_interface = (\<lambda>q v i n. ret []), up_now = (\<lambda>_. 0), up_sleep = (\<lambda>ms h. h),
      tp_cancel_out = (\<lambda>h. h), tp_pending_out = fst, tp_collect_out = (\<lambda>(m, k). (m - 1, k)),
      tp_cancel_in = (\<lambda>h. h), tp_pending_in = snd, tp_collect_in = (\<lambda>(m, k). (m, k - 1)),
      tp_clear_halt_out = ret (), tp_clear_halt_in = ret (), tp_class_control = (\<lambda>to q v i n. ret [])\<rparr>"

lemma demo_pipe_laws: "endpoint_laws demo_pipe"
  by (auto simp: endpoint_laws_def load_def demo_pipe_def act_defs)

theorem no_transfer_left_behind_witness:
  "let tr = tmc_usb_transport demo_pipe; u = new_tmc_usb 0 0x82 0x01 True (0, 0) []; u' = new_tmc_usb 0 0x82 0x01 True (2, 3) []
   in tt_bulk_in tr 100 u = (Inl (lit ''usbtmc bulk-in timed out after 3s''), u) \<and>
      load demo_pipe (tu_io (snd (tt_bulk_out tr [1, 2, 3] u))) = (0, 0) \<and>
      load demo_pipe (tu_io (snd (tt_bulk_in tr 100 u))) = (0, 0) \<and>
      load demo_pipe (tu_io (snd (tt_reset_bulk_in tr u'))) = (2, 0)"
proof -
  let ?u = "new_tmc_usb 0 0x82 0x01 True (0, 0) []" and ?u' = "new_tmc_usb 0 0x82 0x01 True (2, 3) []"
  have "load demo_pipe (tu_io ?u) = (0, 0)" "load demo_pipe (tu_io ?u') = (2, 3)"
    by (simp_all add: load_def demo_pipe_def new_tmc_usb_def)
  moreover have "tt_bulk_in (tmc_usb_transport demo_pipe) 100 ?u = (Inl (lit ''usbtmc bulk-in timed out after 3s''), ?u)"
    by code_simp
  ultimately show ?thesis
    using no_transfer_left_behind [OF demo_pipe_laws, of ?u ?u' 2 3 "[1, 2, 3]" 100] unfolding Let_def by blast
qed

text \<open>C40. A status byte is the answer to the poll that asked for it. Waiting for the notification with a tag returns the
  byte of the first notification with exactly that tag among those queued and those arriving in time, past any
  stale ones, short packets, unknown packets and errors of the endpoint, and reports a timeout when there is none;
  meanwhile no service request is lost: each is announced once and the latest one's status byte is latched.\<close>

theorem status_byte_answers_the_poll:
  assumes "tu_reading u" "tu_status_bytes u = Some q" "tu_arriving u = arriving # later"
  shows "fst (status_byte_notification tag ms u) =
      polled_byte tag (q @ concat (map (status_notes \<circ> snd) (takeWhile (\<lambda>(at, _). at \<le> ms) arriving))) \<and>
    tu_srq_sent (snd (status_byte_notification tag ms u)) =
      tu_srq_sent u + length (concat (map (srq_notes \<circ> snd) arriving)) \<and>
    tu_srq_status (snd (status_byte_notification tag ms u)) =
      latched (tu_srq_status u) (concat (map (srq_notes \<circ> snd) arriving))"
  using await_status_byte_result [of "u\<lparr>tu_arriving := later\<rparr>" tag ms arriving q] assms
  by (simp add: status_byte_notification_def)

theorem status_byte_answers_the_poll_witness:
  "let u = (new_tmc_usb 0 0x82 0x01 True () [[(1, Inr [0x83, 0x10]), (2, Inr [0x81, 0x50]), (3, Inr [0x80, 0]), (4, Inl []), (9, Inr [0x84, 0x20])]])
   in fst (status_byte_notification 4 10 u) = Inr 0x20 \<and> tu_srq_sent (snd (status_byte_notification 4 10 u)) = 1 \<and>
      tu_srq_status (snd (status_byte_notification 4 10 u)) = Some 0x50"
proof -
  let ?a = "[(1, Inr [0x83, 0x10]), (2, Inr [0x81, 0x50]), (3, Inr [0x80, 0]), (4, Inl []), (9, Inr [0x84, 0x20])] :: (nat \<times> bytes io) list"
  have "polled_byte 4 (concat (map (status_notes \<circ> snd) (takeWhile (\<lambda>(at, _). at \<le> 10) ?a))) = Inr 0x20"
    "concat (map (srq_notes \<circ> snd) ?a) = [0x50]"
    by code_simp+
  then show ?thesis
    using status_byte_answers_the_poll [of "new_tmc_usb 0 0x82 0x01 True () [?a]" "[]" ?a "[]" 4 10]
    by (simp only: new_tmc_usb_def tmc_usb_state.simps Let_def) (simp add: latched_def)
qed

end
