(* ===== verification/Spec2Isabelle.thy ===== *)
theory Spec2Isabelle
  imports Lock_Registry Portmap Vxi11_Reading Vxi11_Links Agilent_Laws Hislip_Sessions Prologix_Server Capture Usbtmc_Laws Ni_Transport_Laws Agilent_Usb Vxi11_Client Hislip_Client Usbtmc_Usb
begin

text \<open>
  A verification development of \<^verbatim>\<open>ugpibd\<close>, a userspace daemon for USB-GPIB adapters with HiSLIP,
  VXI-11 and Prologix TCP front-ends.
\<close>

end
